theory Spec2Isabelle
  imports Complex_Main "HOL-Library.Log_Nat"
begin

section \<open>JavaScript numbers\<close>

text \<open>
  Every quantity of the radar engine is a JavaScript \<open>number\<close>, an IEEE 754 double:
  a finite value, an infinity or \<open>NaN\<close>. The finite values are reals here, and the
  sign of zero is not modelled (a zero divisor counts as \<open>+0\<close>).
\<close>

datatype number = Fin real | PosInf | NegInf | NaN

text \<open>The infinity carrying the sign of a real, \<open>NaN\<close> for sign zero.\<close>

definition signedInf :: "real \<Rightarrow> number" where
  "signedInf s = (if 0 < s then PosInf else if s < 0 then NegInf else NaN)"

fun signOf :: "number \<Rightarrow> real" where
  "signOf (Fin a) = sgn a"
| "signOf PosInf = 1"
| "signOf NegInf = - 1"
| "signOf NaN = 0"

subsection \<open>Rounding to a double\<close>

text \<open>Rounding to the nearest integer, a tie going to the even one.\<close>

definition roundHalfEven :: "real \<Rightarrow> int" where
  "roundHalfEven q =
     (let n = \<lfloor>q\<rfloor>
      in if q - of_int n < 1 / 2 then n
         else if 1 / 2 < q - of_int n then n + 1
         else if even n then n else n + 1)"

text \<open>The binary exponent \<open>e\<close> of a non-zero real: \<open>2^e \<le> |x| < 2^(e+1)\<close>.\<close>

definition exponent :: "real \<Rightarrow> int" where
  "exponent x =
     (if 1 \<le> \<bar>x\<bar> then bitlen \<lfloor>\<bar>x\<bar>\<rfloor> - 1 else - bitlen (\<lceil>1 / \<bar>x\<bar>\<rceil> - 1))"

text \<open>
  The doubles around \<open>x\<close> are the multiples of \<open>2 powi ulpExp x\<close>: 53 significant
  bits, and the fixed spacing \<open>2^-1074\<close> below the smallest normal double \<open>2^-1022\<close>.
\<close>

definition ulpExp :: "real \<Rightarrow> int" where
  "ulpExp x = (if \<bar>x\<bar> < 2 powi (- 1022) then - 1074 else exponent x - 52)"

definition roundReal :: "real \<Rightarrow> real" where
  "roundReal x = of_int (roundHalfEven (x / 2 powi ulpExp x)) * 2 powi ulpExp x"

text \<open>
  The double that an operation with the exact result \<open>x\<close> returns: \<open>x\<close> rounded to
  the nearest double, ties to even, and an infinity once the rounded value reaches
  \<open>2^1024\<close>.
\<close>

definition double :: "real \<Rightarrow> number" where
  "double x = (let y = roundReal x in if 2 powi 1024 \<le> \<bar>y\<bar> then signedInf y else Fin y)"

text \<open>The reals that are doubles.\<close>

definition isDouble :: "real \<Rightarrow> bool" where
  "isDouble x = (double x = Fin x)"

subsection \<open>Arithmetic\<close>

text \<open>
  Every operation takes the rounding of its exact result as its first argument:
  \<open>double\<close> is the arithmetic of the program, \<open>Fin\<close> is exact arithmetic (no rounding,
  no overflow).
\<close>

type_synonym rounding = "real \<Rightarrow> number"

text \<open>\<open>x * y\<close>\<close>

fun nmul :: "rounding \<Rightarrow> number \<Rightarrow> number \<Rightarrow> number" where
  "nmul fl NaN y = NaN"
| "nmul fl x NaN = NaN"
| "nmul fl (Fin a) (Fin b) = fl (a * b)"
| "nmul fl x y = signedInf (signOf x * signOf y)"

text \<open>\<open>x / y\<close>: a finite value over zero is an infinity, or \<open>NaN\<close> for \<open>0 / 0\<close>.\<close>

fun ndiv :: "rounding \<Rightarrow> number \<Rightarrow> number \<Rightarrow> number" where
  "ndiv fl NaN y = NaN"
| "ndiv fl x NaN = NaN"
| "ndiv fl (Fin a) (Fin b) = (if b = 0 then signedInf a else fl (a / b))"
| "ndiv fl (Fin a) y = Fin 0"
| "ndiv fl x (Fin b) = signedInf (signOf x * (if b < 0 then - 1 else 1))"
| "ndiv fl x y = NaN"

text \<open>\<open>x + y\<close>\<close>

fun nadd :: "rounding \<Rightarrow> number \<Rightarrow> number \<Rightarrow> number" where
  "nadd fl NaN y = NaN"
| "nadd fl x NaN = NaN"
| "nadd fl (Fin a) (Fin b) = fl (a + b)"
| "nadd fl PosInf NegInf = NaN"
| "nadd fl NegInf PosInf = NaN"
| "nadd fl (Fin a) y = y"
| "nadd fl x y = x"

fun nneg :: "number \<Rightarrow> number" where
  "nneg (Fin a) = Fin (- a)"
| "nneg PosInf = NegInf"
| "nneg NegInf = PosInf"
| "nneg NaN = NaN"

text \<open>\<open>x - y\<close>\<close>

definition nsub :: "rounding \<Rightarrow> number \<Rightarrow> number \<Rightarrow> number" where
  "nsub fl x y = nadd fl x (nneg y)"

text \<open>\<open>Math.abs\<close>\<close>

fun nabs :: "number \<Rightarrow> number" where
  "nabs (Fin a) = Fin \<bar>a\<bar>"
| "nabs PosInf = PosInf"
| "nabs NegInf = PosInf"
| "nabs NaN = NaN"

text \<open>\<open>x > y\<close>: false as soon as one side is \<open>NaN\<close>.\<close>

fun ngt :: "number \<Rightarrow> number \<Rightarrow> bool" where
  "ngt NaN y = False"
| "ngt x NaN = False"
| "ngt (Fin a) (Fin b) = (b < a)"
| "ngt PosInf PosInf = False"
| "ngt PosInf y = True"
| "ngt NegInf y = False"
| "ngt (Fin a) PosInf = False"
| "ngt (Fin a) NegInf = True"

text \<open>\<open>x < y\<close>\<close>

definition nlt :: "number \<Rightarrow> number \<Rightarrow> bool" where
  "nlt x y = ngt y x"

text \<open>\<open>x >= y\<close>\<close>

definition nge :: "number \<Rightarrow> number \<Rightarrow> bool" where
  "nge x y = (x \<noteq> NaN \<and> y \<noteq> NaN \<and> (ngt x y \<or> x = y))"

text \<open>
  \<open>Math.round\<close>: to the nearest integer, a half going up. The result is exact: the
  integer nearest to a double is a double.
\<close>

fun nround :: "number \<Rightarrow> number" where
  "nround (Fin a) = Fin (of_int \<lfloor>a + 1 / 2\<rfloor>)"
| "nround x = x"

text \<open>\<open>Math.cos\<close>, taken as correctly rounded; the program calls it at 0 only.\<close>

fun ncos :: "rounding \<Rightarrow> number \<Rightarrow> number" where
  "ncos fl (Fin a) = fl (cos a)"
| "ncos fl x = NaN"

text \<open>\<open>Math.max\<close> of two arguments\<close>

fun nmax :: "number \<Rightarrow> number \<Rightarrow> number" where
  "nmax NaN y = NaN"
| "nmax x NaN = NaN"
| "nmax x y = (if ngt x y then x else y)"

text \<open>
  The finite numbers, those that \<open>Number.isFinite\<close> accepts. The source never calls
  it; the theorems use it to name a finite value.
\<close>

fun isFinite :: "number \<Rightarrow> bool" where
  "isFinite (Fin a) = True"
| "isFinite x = False"

text \<open>
  \<open>x \<le> y\<close> for two numbers that are not negative and not \<open>NaN\<close>. This too is a
  notion of the theorems only.
\<close>

fun nonnegLe :: "number \<Rightarrow> number \<Rightarrow> bool" where
  "nonnegLe (Fin a) (Fin b) = (0 \<le> a \<and> a \<le> b)"
| "nonnegLe (Fin a) PosInf = (0 \<le> a)"
| "nonnegLe PosInf PosInf = True"
| "nonnegLe x y = False"

section \<open>Physics primitives (\<open>utils/physics.ts\<close>, \<open>types.ts\<close>)\<close>

text \<open>Speed of light in m/s.\<close>

definition C :: number where
  "C = Fin 299792458"

text \<open>
  \<open>calculateDopplerShift\<close>: \<open>f_d = (2 * v * f_0 * cos(theta)) / c\<close>. The angle
  \<open>thetaDegrees\<close> defaults to 0, and every caller leaves it out: the model passes
  \<open>Fin 0\<close> there. The literal \<open>3.6\<close> and \<open>Math.PI\<close> are the roundings of 3.6 and of
  \<open>pi\<close>.
\<close>

definition calculateDopplerShift :: "rounding \<Rightarrow> number \<Rightarrow> number \<Rightarrow> number \<Rightarrow> number" where
  "calculateDopplerShift fl velocityKmh frequencyGHz thetaDegrees =
     (let velocityMs = ndiv fl velocityKmh (fl 3.6);
          frequencyHz = nmul fl frequencyGHz (Fin 1000000000);
          thetaRad = ndiv fl (nmul fl thetaDegrees (fl pi)) (Fin 180);
          shift = ndiv fl (nmul fl (nmul fl (nmul fl (Fin 2) velocityMs) frequencyHz)
                                  (ncos fl thetaRad)) C
      in shift)"

text \<open>\<open>calculateSpeedFromShift\<close>: \<open>v = (c * f_d) / (2 * f_0)\<close>, in km/h.\<close>

definition calculateSpeedFromShift :: "rounding \<Rightarrow> number \<Rightarrow> number \<Rightarrow> number" where
  "calculateSpeedFromShift fl shiftHz frequencyGHz =
     (let frequencyHz = nmul fl frequencyGHz (Fin 1000000000);
          velocityMs = ndiv fl (nmul fl shiftHz C) (nmul fl (Fin 2) frequencyHz)
      in nmul fl velocityMs (fl 3.6))"

definition calculateWavelengthMm :: "rounding \<Rightarrow> number \<Rightarrow> number" where
  "calculateWavelengthMm fl frequencyGHz =
     (let frequencyHz = nmul fl frequencyGHz (Fin 1000000000)
      in nmul fl (ndiv fl C frequencyHz) (Fin 1000))"

definition calculateFreqResolution :: "rounding \<Rightarrow> number \<Rightarrow> number \<Rightarrow> number" where
  "calculateFreqResolution fl sampleRateHz fftSize = ndiv fl sampleRateHz fftSize"

definition calculateSpeedResolution :: "rounding \<Rightarrow> number \<Rightarrow> number \<Rightarrow> number \<Rightarrow> number" where
  "calculateSpeedResolution fl sampleRateHz fftSize frequencyGHz =
     (let freqRes = calculateFreqResolution fl sampleRateHz fftSize
      in calculateSpeedFromShift fl freqRes frequencyGHz)"

definition calculateMaxUnambiguousSpeed :: "rounding \<Rightarrow> number \<Rightarrow> number \<Rightarrow> number" where
  "calculateMaxUnambiguousSpeed fl sampleRateHz frequencyGHz =
     (let maxFreq = ndiv fl sampleRateHz (Fin 2)
      in calculateSpeedFromShift fl maxFreq frequencyGHz)"

section \<open>The application state (\<open>types.ts\<close>)\<close>

record RadarParams =
  frequencyGHz :: number
  intermediateFreqMHz :: number
  adcSamplingRateMHz :: number
  basebandSampleRateHz :: number
  fftSize :: number

text \<open>
  A car; its fields \<open>id\<close> and \<open>x\<close> are \<open>carId\<close> and \<open>xPos\<close> here.
\<close>

record Car =
  carId :: number
  xPos :: number
  lane :: number
  color :: string
  speedKmh :: number

record SimulationState =
  radar :: RadarParams
  cars :: "Car list"
  fastestTargetSpeed :: number
  primaryDopplerShiftHz :: number
  speedResolution :: number
  maxSpeed :: number

section \<open>Derived metrics and the measurement (component \<open>App\<close>)\<close>

text \<open>
  The radar parameters the application starts with when the URL gives none; the
  literal \<open>24.15\<close> is the rounding of 24.15.
\<close>

definition initialRadarParams :: "rounding \<Rightarrow> RadarParams" where
  "initialRadarParams fl =
     \<lparr>frequencyGHz = fl 24.15, intermediateFreqMHz = Fin 30, adcSamplingRateMHz = Fin 100,
      basebandSampleRateHz = Fin 44100, fftSize = Fin 512\<rparr>"

definition CAR_COLORS :: "string list" where
  "CAR_COLORS = [''#ef4444'', ''#3b82f6'', ''#22c55e'', ''#eab308'', ''#a855f7'',
                 ''#ec4899'', ''#06b6d4'']"

text \<open>
  The initial cars: one for each speed, numbered from 0. The position is
  \<open>Math.random() * 800\<close>; the draws are the second argument.
\<close>

definition initialCars :: "rounding \<Rightarrow> (nat \<Rightarrow> real) \<Rightarrow> number list \<Rightarrow> Car list" where
  "initialCars fl rnd speeds =
     map (\<lambda>(speed, index).
            \<lparr>carId = Fin (real index), xPos = nmul fl (Fin (rnd index)) (Fin 800),
             lane = Fin (real (index mod 3)),
             color = CAR_COLORS ! (index mod length CAR_COLORS), speedKmh = speed\<rparr>)
         (zip speeds [0..<length speeds])"

definition resolutionKmh :: "rounding \<Rightarrow> RadarParams \<Rightarrow> number" where
  "resolutionKmh fl radarParams =
     calculateSpeedResolution fl (basebandSampleRateHz radarParams) (fftSize radarParams)
       (frequencyGHz radarParams)"

definition maxSpeedKmh :: "rounding \<Rightarrow> RadarParams \<Rightarrow> number" where
  "maxSpeedKmh fl radarParams =
     calculateMaxUnambiguousSpeed fl (basebandSampleRateHz radarParams)
       (frequencyGHz radarParams)"

definition wavelengthMm :: "rounding \<Rightarrow> RadarParams \<Rightarrow> number" where
  "wavelengthMm fl radarParams = calculateWavelengthMm fl (frequencyGHz radarParams)"

definition observationTimeMs :: "rounding \<Rightarrow> RadarParams \<Rightarrow> number" where
  "observationTimeMs fl radarParams =
     nmul fl (ndiv fl (fftSize radarParams) (basebandSampleRateHz radarParams)) (Fin 1000)"

text \<open>
  \<open>cars.reduce((prev, current) => (prev.speedKmh > current.speedKmh) ? prev : current)\<close>,
  or \<open>null\<close> for no car: without an initial value \<open>reduce\<close> starts from the first
  element.
\<close>

fun fastestCar :: "Car list \<Rightarrow> Car option" where
  "fastestCar [] = None"
| "fastestCar (c # cs) =
     Some (foldl (\<lambda>prev current. if ngt (speedKmh prev) (speedKmh current) then prev else current)
             c cs)"

definition realTargetSpeed :: "Car list \<Rightarrow> number" where
  "realTargetSpeed cs = (case fastestCar cs of Some c \<Rightarrow> speedKmh c | None \<Rightarrow> Fin 0)"

definition realDopplerShift :: "rounding \<Rightarrow> RadarParams \<Rightarrow> Car list \<Rightarrow> number" where
  "realDopplerShift fl radarParams cs =
     calculateDopplerShift fl (realTargetSpeed cs) (frequencyGHz radarParams) (Fin 0)"

definition freqResolutionHz :: "rounding \<Rightarrow> RadarParams \<Rightarrow> number" where
  "freqResolutionHz fl radarParams =
     ndiv fl (basebandSampleRateHz radarParams) (fftSize radarParams)"

definition measuredShiftHz :: "rounding \<Rightarrow> RadarParams \<Rightarrow> Car list \<Rightarrow> number" where
  "measuredShiftHz fl radarParams cs =
     nmul fl (nround (ndiv fl (realDopplerShift fl radarParams cs) (freqResolutionHz fl radarParams)))
          (freqResolutionHz fl radarParams)"

definition measuredSpeedKmh :: "rounding \<Rightarrow> RadarParams \<Rightarrow> Car list \<Rightarrow> number" where
  "measuredSpeedKmh fl radarParams cs =
     calculateSpeedFromShift fl (measuredShiftHz fl radarParams cs) (frequencyGHz radarParams)"

text \<open>The displayed measurement error, \<open>measuredSpeedKmh - realTargetSpeed\<close>.\<close>

definition measurementError :: "rounding \<Rightarrow> RadarParams \<Rightarrow> Car list \<Rightarrow> number" where
  "measurementError fl radarParams cs =
     nsub fl (measuredSpeedKmh fl radarParams cs) (realTargetSpeed cs)"

definition simState :: "rounding \<Rightarrow> RadarParams \<Rightarrow> Car list \<Rightarrow> SimulationState" where
  "simState fl radarParams cs =
     \<lparr>radar = radarParams, cars = cs, fastestTargetSpeed = realTargetSpeed cs,
      primaryDopplerShiftHz = realDopplerShift fl radarParams cs,
      speedResolution = resolutionKmh fl radarParams, maxSpeed = maxSpeedKmh fl radarParams\<rparr>"

section \<open>Spectrum synthesis (component \<open>Oscilloscope\<close>)\<close>

text \<open>What the JavaScript runtime throws in \<open>generateDiscreteSpectrum\<close>.\<close>

datatype error = RangeError | TypeError

text \<open>One element of \<open>data\<close>.\<close>

record SpectrumBin =
  binIndex :: number
  freq :: number
  speed :: number
  amp :: number

text \<open>
  \<open>new Array(len)\<close> for a number: the length has to be an integer from 0 to
  \<open>2^32 - 1\<close>, anything else is a \<open>RangeError\<close>.
\<close>

definition arrayLength :: "number \<Rightarrow> error + nat" where
  "arrayLength len =
     (case len of
        Fin a \<Rightarrow> if a = of_int \<lfloor>a\<rfloor> \<and> 0 \<le> a \<and> a < 4294967296 then Inr (nat \<lfloor>a\<rfloor>)
                 else Inl RangeError
      | _ \<Rightarrow> Inl RangeError)"

text \<open>
  \<open>data[i].amp += v\<close>: outside the array \<open>data[i]\<close> is \<open>undefined\<close> and reading its
  \<open>amp\<close> is a \<open>TypeError\<close>.
\<close>

definition addAmp ::
  "rounding \<Rightarrow> SpectrumBin list \<Rightarrow> number \<Rightarrow> number \<Rightarrow> error + SpectrumBin list"
where
  "addAmp fl data i v =
     (case i of
        Fin a \<Rightarrow>
          if a = of_int \<lfloor>a\<rfloor> \<and> 0 \<le> a \<and> a < real (length data)
          then Inr (data[nat \<lfloor>a\<rfloor> :=
                      (data ! nat \<lfloor>a\<rfloor>)\<lparr>amp := nadd fl (amp (data ! nat \<lfloor>a\<rfloor>)) v\<rparr>])
          else Inl TypeError
      | _ \<Rightarrow> Inl TypeError)"

text \<open>
  The aliasing loop
  \<open>while (effectiveFreq > maxFreq) effectiveFreq = Math.abs(effectiveFreq - sampleRate)\<close>.
  It need not end, so not returning is the value \<open>None\<close>.
\<close>

partial_function (option) aliasWrap ::
  "rounding \<Rightarrow> number \<Rightarrow> number \<Rightarrow> number \<Rightarrow> number option"
where
  "aliasWrap fl sampleRateHz maxFreq effectiveFreq =
     (if ngt effectiveFreq maxFreq
      then aliasWrap fl sampleRateHz maxFreq (nabs (nsub fl effectiveFreq sampleRateHz))
      else Some effectiveFreq)"

text \<open>
  The bin of one car: the shift, the aliasing loop, \<open>exactBin\<close> and its rounding
  (the first half of the \<open>forEach\<close> callback).
\<close>

definition targetBinIndex :: "rounding \<Rightarrow> RadarParams \<Rightarrow> number \<Rightarrow> Car \<Rightarrow> number option" where
  "targetBinIndex fl rp freqRes car =
     (let shiftHz = calculateDopplerShift fl (speedKmh car) (frequencyGHz rp) (Fin 0);
          maxFreq = ndiv fl (basebandSampleRateHz rp) (Fin 2)
      in case aliasWrap fl (basebandSampleRateHz rp) maxFreq (nabs shiftHz) of
           None \<Rightarrow> None
         | Some effectiveFreq \<Rightarrow>
             (let exactBin = ndiv fl effectiveFreq freqRes in Some (nround exactBin)))"

text \<open>The \<open>forEach\<close> callback: main lobe and leakage of one car, added to \<open>data\<close>.\<close>

definition addSignal ::
  "rounding \<Rightarrow> RadarParams \<Rightarrow> number \<Rightarrow> number \<Rightarrow> SpectrumBin list \<Rightarrow> Car
     \<Rightarrow> (error + SpectrumBin list) option"
where
  "addSignal fl rp numBins freqRes data car =
     (if ngt (speedKmh car) (Fin 0) then
        (case targetBinIndex fl rp freqRes car of
           None \<Rightarrow> None
         | Some bi \<Rightarrow>
             if nge bi (Fin 0) \<and> nlt bi numBins then
               (case addAmp fl data bi (Fin 100) of
                  Inl e \<Rightarrow> Some (Inl e)
                | Inr data1 \<Rightarrow>
                    (case (if ngt bi (Fin 0) then addAmp fl data1 (nsub fl bi (Fin 1)) (Fin 30)
                           else Inr data1) of
                       Inl e \<Rightarrow> Some (Inl e)
                     | Inr data2 \<Rightarrow>
                         Some (if nlt bi (nsub fl numBins (Fin 1))
                               then addAmp fl data2 (nadd fl bi (Fin 1)) (Fin 30)
                               else Inr data2)))
             else Some (Inr data))
      else Some (Inr data))"

fun forEachCar ::
  "rounding \<Rightarrow> RadarParams \<Rightarrow> number \<Rightarrow> number \<Rightarrow> Car list \<Rightarrow> SpectrumBin list
     \<Rightarrow> (error + SpectrumBin list) option"
where
  "forEachCar fl rp numBins freqRes [] data = Some (Inr data)"
| "forEachCar fl rp numBins freqRes (car # cs) data =
     (case addSignal fl rp numBins freqRes data car of
        None \<Rightarrow> None
      | Some (Inl e) \<Rightarrow> Some (Inl e)
      | Some (Inr data') \<Rightarrow> forEachCar fl rp numBins freqRes cs data')"

text \<open>
  The bins before any signal is added,
  \<open>new Array(numBins).fill(0).map((_, i) => ({binIndex: i, freq: i * freqRes, ...}))\<close>,
  for an array of length \<open>n\<close>. The noise floor \<open>2 + Math.random() * 2\<close> takes its
  draws from the second argument, one for each bin.
\<close>

definition initialData ::
  "rounding \<Rightarrow> (nat \<Rightarrow> real) \<Rightarrow> number \<Rightarrow> number \<Rightarrow> nat \<Rightarrow> SpectrumBin list"
where
  "initialData fl rnd freqRes frequency n =
     map (\<lambda>i. \<lparr>binIndex = Fin (real i),
                freq = nmul fl (Fin (real i)) freqRes,
                speed = calculateSpeedFromShift fl (nmul fl (Fin (real i)) freqRes) frequency,
                amp = nadd fl (Fin 2) (nmul fl (Fin (rnd i)) (Fin 2))\<rparr>) [0..<n]"

text \<open>
  \<open>generateDiscreteSpectrum\<close>. The result is \<open>None\<close> when the aliasing loop of some
  car does not end, \<open>Some (Inl e)\<close> when the runtime throws \<open>e\<close>. The literal \<open>0.8\<close>
  is the rounding of 0.8.
\<close>

definition generateDiscreteSpectrum ::
  "rounding \<Rightarrow> (nat \<Rightarrow> real) \<Rightarrow> SimulationState \<Rightarrow> (error + SpectrumBin list) option"
where
  "generateDiscreteSpectrum fl rnd st =
     (let numBins = ndiv fl (fftSize (radar st)) (Fin 2);
          freqRes = ndiv fl (basebandSampleRateHz (radar st)) (fftSize (radar st))
      in case arrayLength numBins of
           Inl e \<Rightarrow> Some (Inl e)
         | Inr n \<Rightarrow>
             (let data = initialData fl rnd freqRes (frequencyGHz (radar st)) n
              in case forEachCar fl (radar st) numBins freqRes (cars st) data of
                   None \<Rightarrow> None
                 | Some (Inl e) \<Rightarrow> Some (Inl e)
                 | Some (Inr data1) \<Rightarrow>
                     (case addAmp fl data1 (Fin 0) (Fin 150) of
                        Inl e \<Rightarrow> Some (Inl e)
                      | Inr data2 \<Rightarrow>
                          (case addAmp fl data2 (Fin 1) (Fin 50) of
                             Inl e \<Rightarrow> Some (Inl e)
                           | Inr data3 \<Rightarrow>
                               (let visualCutoffSpeed =
                                      nmax (Fin 200) (nmul fl (maxSpeed st) (fl 0.8))
                                in Some (Inr (filter (\<lambda>d. nlt (speed d) visualCutoffSpeed)
                                                data3)))))))"

section \<open>Properties of the rounding\<close>

lemma roundHalfEven_of_int [simp]: "roundHalfEven (of_int n) = n"
  by (simp add: roundHalfEven_def)

lemma roundHalfEven_error: "\<bar>of_int (roundHalfEven q) - q\<bar> \<le> 1 / 2"
  unfolding roundHalfEven_def Let_def by (auto; linarith)

lemma roundHalfEven_ge: "of_int n \<le> q \<Longrightarrow> n \<le> roundHalfEven q"
  unfolding roundHalfEven_def Let_def by (auto simp: le_floor_iff; linarith)

lemma roundHalfEven_le: "q \<le> of_int n \<Longrightarrow> roundHalfEven q \<le> n"
proof (cases "q = of_int n")
  case True
  then show ?thesis by simp
next
  case False
  assume "q \<le> of_int n"
  with False have "q < of_int n" by simp
  then have "\<lfloor>q\<rfloor> < n" by (simp add: floor_less_iff)
  then show ?thesis unfolding roundHalfEven_def Let_def by auto
qed

lemma roundHalfEven_near: "\<bar>q - of_int n\<bar> < 1 / 2 \<Longrightarrow> roundHalfEven q = n"
  using roundHalfEven_error [of q] by linarith

lemma roundHalfEven_mono: "q \<le> r \<Longrightarrow> roundHalfEven q \<le> roundHalfEven r"
proof (rule ccontr)
  assume le: "q \<le> r" and "\<not> roundHalfEven q \<le> roundHalfEven r"
  then have gt: "roundHalfEven r + 1 \<le> roundHalfEven q" by simp
  have "\<lfloor>q\<rfloor> \<le> \<lfloor>r\<rfloor>" using le by (rule floor_mono)
  with gt le show False
    unfolding roundHalfEven_def Let_def
    by (auto split: if_splits; linarith)
qed

lemma pow2_pos [simp]: "0 < (2::real) powi k"
  by (simp add: power_int_def)

lemma pow2_mono: "j \<le> k \<Longrightarrow> (2::real) powi j \<le> 2 powi k"
  by (rule power_int_increasing) simp_all

lemma pow2_strict_mono: "j < k \<Longrightarrow> (2::real) powi j < 2 powi k"
  by (rule power_int_strict_increasing) simp_all

lemma pow2_less_cancel: "(2::real) powi j < 2 powi k \<Longrightarrow> j < k"
  using pow2_mono [of k j] by (cases "j < k") auto

lemma pow2_le_cancel: "(2::real) powi j \<le> 2 powi k \<Longrightarrow> j \<le> k"
  using pow2_strict_mono [of k j] by (cases "j \<le> k") auto

lemma pow2_split: "(2::real) powi (j + k) = 2 powi j * 2 powi k"
  by (simp add: power_int_add)

lemma pow2_int: "0 \<le> k \<Longrightarrow> (2::real) powi k = of_int (2 ^ nat k)"
  by (simp add: power_int_def)

lemma pow2_quotient_int: "j \<le> k \<Longrightarrow> (2::real) powi k / 2 powi j = of_int (2 ^ nat (k - j))"
proof -
  assume "j \<le> k"
  then have "(2::real) powi k = 2 powi (k - j) * 2 powi j"
    using pow2_split [of "k - j" j] by simp
  then have "(2::real) powi k / 2 powi j = 2 powi (k - j)" by simp
  with \<open>j \<le> k\<close> show ?thesis by (simp add: pow2_int)
qed

lemma exponent_bounds:
  assumes "x \<noteq> 0"
  shows "2 powi exponent x \<le> \<bar>x\<bar> \<and> \<bar>x\<bar> < 2 powi (exponent x + 1)"
proof (cases "1 \<le> \<bar>x\<bar>")
  case True
  let ?n = "\<lfloor>\<bar>x\<bar>\<rfloor>"
  let ?b = "bitlen ?n"
  from True have n: "0 < ?n" by simp
  from bitlen_bounds [OF n] have lo: "2 ^ nat (?b - 1) \<le> ?n" and hi: "?n < 2 ^ nat ?b" by simp_all
  have b: "1 \<le> ?b" using n by (simp add: bitlen_alt_def)
  have e: "exponent x = ?b - 1" using True by (simp add: exponent_def)
  have "(2::real) powi (?b - 1) = of_int (2 ^ nat (?b - 1))" using b by (simp add: pow2_int)
  also have "\<dots> \<le> of_int ?n" using lo by (simp only: of_int_le_iff)
  also have "\<dots> \<le> \<bar>x\<bar>" by simp
  finally have 1: "2 powi exponent x \<le> \<bar>x\<bar>" by (simp only: e)
  from hi have "?n + 1 \<le> 2 ^ nat ?b" by simp
  then have "(of_int (?n + 1) :: real) \<le> of_int (2 ^ nat ?b)" by (simp only: of_int_le_iff)
  then have "of_int ?n + 1 \<le> (2::real) powi ?b" using b by (simp add: pow2_int)
  moreover have "\<bar>x\<bar> < of_int ?n + 1" by linarith
  ultimately have "\<bar>x\<bar> < 2 powi ?b" by linarith
  then have "\<bar>x\<bar> < 2 powi (exponent x + 1)" by (simp add: e)
  with 1 show ?thesis by simp
next
  case False
  let ?t = "1 / \<bar>x\<bar>"
  let ?m = "\<lceil>?t\<rceil>"
  let ?b = "bitlen (?m - 1)"
  from False assms have small: "0 < \<bar>x\<bar>" "\<bar>x\<bar> < 1" by simp_all
  then have t: "1 < ?t" by simp
  then have m: "0 < ?m - 1" by linarith
  from bitlen_bounds [OF m] have lo: "2 ^ nat (?b - 1) \<le> ?m - 1" and hi: "?m - 1 < 2 ^ nat ?b"
    by simp_all
  have b: "1 \<le> ?b" using m by (simp add: bitlen_alt_def)
  have e: "exponent x = - ?b" using False by (simp add: exponent_def)
  from hi have "?m \<le> 2 ^ nat ?b" by simp
  then have "(of_int ?m :: real) \<le> of_int (2 ^ nat ?b)" by (simp only: of_int_le_iff)
  also have "\<dots> = 2 powi ?b" using b by (simp add: pow2_int)
  finally have A: "of_int ?m \<le> (2::real) powi ?b" .
  have B: "?t \<le> of_int ?m" by (rule le_of_int_ceiling)
  from A B have "?t \<le> 2 powi ?b" by linarith
  then have "1 \<le> 2 powi ?b * \<bar>x\<bar>" using small by (simp add: field_simps)
  then have "2 powi (- ?b) \<le> \<bar>x\<bar>"
    by (simp add: power_int_minus field_simps)
  then have 1: "2 powi exponent x \<le> \<bar>x\<bar>" by (simp only: e)
  have "(of_int (2 ^ nat (?b - 1)) :: real) \<le> of_int (?m - 1)" using lo by (simp only: of_int_le_iff)
  moreover have "(2::real) powi (?b - 1) = of_int (2 ^ nat (?b - 1))" using b by (simp add: pow2_int)
  moreover have "of_int (?m - 1) < ?t" by linarith
  ultimately have "2 powi (?b - 1) < ?t" by linarith
  then have "2 powi (?b - 1) * \<bar>x\<bar> < 1" using small by (simp add: field_simps)
  then have "\<bar>x\<bar> < 1 / 2 powi (?b - 1)"
    using pow2_pos [of "?b - 1"] by (simp only: pos_less_divide_eq mult.commute)
  also have "1 / 2 powi (?b - 1) = (2::real) powi (- (?b - 1))"
    by (rule power_int_minus_divide [symmetric])
  also have "- (?b - 1) = - ?b + 1" by simp
  finally have "\<bar>x\<bar> < 2 powi (- ?b + 1)" .
  then have "\<bar>x\<bar> < 2 powi (exponent x + 1)" by (simp only: e)
  with 1 show ?thesis by simp
qed

text \<open>The grid of the doubles around \<open>x\<close>: the multiples of \<open>2 powi ulpExp x\<close>.\<close>

lemma ulpExp_subnormal: "\<bar>x\<bar> < 2 powi (- 1022) \<Longrightarrow> ulpExp x = - 1074"
  by (simp only: ulpExp_def if_True)

lemma ulpExp_normal: "2 powi (- 1022) \<le> \<bar>x\<bar> \<Longrightarrow> ulpExp x = exponent x - 52"
  by (simp only: ulpExp_def not_less [symmetric] if_False)

lemma ulpExp_ge: "- 1074 \<le> ulpExp x"
proof (cases "\<bar>x\<bar> < 2 powi (- 1022)")
  case True
  then show ?thesis by (simp only: ulpExp_subnormal)
next
  case False
  then have normal: "2 powi (- 1022) \<le> \<bar>x\<bar>" by (simp only: not_less)
  then have nz: "x \<noteq> 0" using pow2_pos [of "- 1022"] by auto
  from normal exponent_bounds [OF nz] have "(2::real) powi (- 1022) < 2 powi (exponent x + 1)"
    by linarith
  then have "- 1022 < exponent x + 1" by (rule pow2_less_cancel)
  then show ?thesis by (simp only: ulpExp_normal [OF normal])
qed

lemma ulpExp_upper: "\<bar>x\<bar> < 2 powi (ulpExp x + 53)"
proof (cases "\<bar>x\<bar> < 2 powi (- 1022)")
  case True
  moreover have "(2::real) powi (- 1022) \<le> 2 powi (- 1074 + 53)" by (rule pow2_mono) simp
  ultimately show ?thesis by (simp only: ulpExp_subnormal [OF True])
next
  case False
  then have normal: "2 powi (- 1022) \<le> \<bar>x\<bar>" by (simp only: not_less)
  then have nz: "x \<noteq> 0" using pow2_pos [of "- 1022"] by auto
  have "exponent x - 52 + 53 = exponent x + 1" by simp
  with exponent_bounds [OF nz] show ?thesis by (simp only: ulpExp_normal [OF normal])
qed

lemma ulpExp_lower: "2 powi (- 1022) \<le> \<bar>x\<bar> \<Longrightarrow> 2 powi (ulpExp x + 52) \<le> \<bar>x\<bar>"
proof -
  assume normal: "2 powi (- 1022) \<le> \<bar>x\<bar>"
  then have nz: "x \<noteq> 0" using pow2_pos [of "- 1022"] by auto
  have "exponent x - 52 + 52 = exponent x" by simp
  with exponent_bounds [OF nz] show ?thesis by (simp only: ulpExp_normal [OF normal])
qed

lemma ulpExp_lower': "- 1074 < ulpExp x \<Longrightarrow> 2 powi (ulpExp x + 52) \<le> \<bar>x\<bar>"
proof (rule ulpExp_lower, rule ccontr)
  assume "- 1074 < ulpExp x" and "\<not> 2 powi (- 1022) \<le> \<bar>x\<bar>"
  then show False using ulpExp_subnormal [of x] by simp
qed

lemma ulpExp_mono: "\<bar>x\<bar> \<le> \<bar>y\<bar> \<Longrightarrow> ulpExp x \<le> ulpExp y"
proof (cases "- 1074 < ulpExp x")
  case False
  then show ?thesis using ulpExp_ge [of y] by simp
next
  case True
  assume "\<bar>x\<bar> \<le> \<bar>y\<bar>"
  with ulpExp_lower' [OF True] ulpExp_upper [of y]
  have "(2::real) powi (ulpExp x + 52) < 2 powi (ulpExp y + 53)" by linarith
  then have "ulpExp x + 52 < ulpExp y + 53" by (rule pow2_less_cancel)
  then show ?thesis by simp
qed

lemma roundReal_error: "\<bar>roundReal x - x\<bar> \<le> 2 powi ulpExp x / 2"
proof -
  let ?u = "(2::real) powi ulpExp x"
  have u: "0 < ?u" by simp
  have "roundReal x - x = (of_int (roundHalfEven (x / ?u)) - x / ?u) * ?u"
    using u by (simp add: roundReal_def field_simps)
  then have "\<bar>roundReal x - x\<bar> = \<bar>of_int (roundHalfEven (x / ?u)) - x / ?u\<bar> * ?u"
    using u by (simp add: abs_mult)
  also have "\<dots> \<le> 1 / 2 * ?u"
    using roundHalfEven_error [of "x / ?u"] u by (intro mult_right_mono) simp_all
  finally show ?thesis by simp
qed

lemma roundReal_grid_le:
  assumes "x \<le> of_int n * 2 powi ulpExp x"
  shows "roundReal x \<le> of_int n * 2 powi ulpExp x"
proof -
  let ?u = "(2::real) powi ulpExp x"
  have u: "0 < ?u" by simp
  from assms u have "x / ?u \<le> of_int n" by (simp add: field_simps)
  then have "roundHalfEven (x / ?u) \<le> n" by (rule roundHalfEven_le)
  then have "(of_int (roundHalfEven (x / ?u)) :: real) \<le> of_int n" by (simp only: of_int_le_iff)
  then show ?thesis unfolding roundReal_def using u by (intro mult_right_mono) simp_all
qed

lemma roundReal_grid_ge:
  assumes "of_int n * 2 powi ulpExp x \<le> x"
  shows "of_int n * 2 powi ulpExp x \<le> roundReal x"
proof -
  let ?u = "(2::real) powi ulpExp x"
  have u: "0 < ?u" by simp
  from assms u have "of_int n \<le> x / ?u" by (simp add: field_simps)
  then have "n \<le> roundHalfEven (x / ?u)" by (rule roundHalfEven_ge)
  then have "(of_int n :: real) \<le> of_int (roundHalfEven (x / ?u))" by (simp only: of_int_le_iff)
  then show ?thesis unfolding roundReal_def using u by (intro mult_right_mono) simp_all
qed

lemma on_grid:
  assumes "j \<le> k"
  shows "\<exists>n. of_int m * 2 powi k = of_int n * (2::real) powi j"
proof -
  have "(2::real) powi k = 2 powi (k - j) * 2 powi j"
    using pow2_split [of "k - j" j] by simp
  also have "(2::real) powi (k - j) = of_int (2 ^ nat (k - j))"
    using assms by (simp add: pow2_int)
  finally have "of_int m * 2 powi k = of_int (m * 2 ^ nat (k - j)) * (2::real) powi j"
    by simp
  then show ?thesis by blast
qed

lemma roundReal_le_dyadic:
  assumes "ulpExp x \<le> k" and "x \<le> of_int m * 2 powi k"
  shows "roundReal x \<le> of_int m * 2 powi k"
proof -
  from on_grid [OF assms(1), of m] obtain n
    where n: "of_int m * 2 powi k = of_int n * (2::real) powi ulpExp x" by blast
  with assms(2) roundReal_grid_le [of x n] show ?thesis by simp
qed

lemma roundReal_ge_dyadic:
  assumes "ulpExp x \<le> k" and "of_int m * 2 powi k \<le> x"
  shows "of_int m * 2 powi k \<le> roundReal x"
proof -
  from on_grid [OF assms(1), of m] obtain n
    where n: "of_int m * 2 powi k = of_int n * (2::real) powi ulpExp x" by blast
  with assms(2) roundReal_grid_ge [of n x] show ?thesis by simp
qed

lemma roundReal_0 [simp]: "roundReal 0 = 0"
  using roundHalfEven_of_int [of 0] by (simp add: roundReal_def)

lemma roundReal_nonneg: "0 \<le> x \<Longrightarrow> 0 \<le> roundReal x"
  using roundReal_grid_ge [of 0 x] by simp

lemma roundReal_nonpos: "x \<le> 0 \<Longrightarrow> roundReal x \<le> 0"
  using roundReal_grid_le [of x 0] by simp

text \<open>
  A value on a grid at least as coarse as that of \<open>x\<close> bounds the rounding of \<open>x\<close>.
\<close>

lemma roundReal_abs_le_dyadic:
  assumes "ulpExp x \<le> k" and "\<bar>x\<bar> \<le> of_int m * 2 powi k"
  shows "\<bar>roundReal x\<bar> \<le> of_int m * 2 powi k"
proof -
  from assms(2) have "x \<le> of_int m * 2 powi k" and "of_int (- m) * 2 powi k \<le> x" by simp_all
  from roundReal_le_dyadic [OF assms(1) this(1)] roundReal_ge_dyadic [OF assms(1) this(2)]
  show ?thesis by simp
qed

lemma ulpExp_le_of_abs_le:
  assumes "- 1074 \<le> k" and "\<bar>x\<bar> < 2 powi (k + 53)"
  shows "ulpExp x \<le> k"
proof (rule ccontr)
  assume "\<not> ulpExp x \<le> k"
  then have gt: "k < ulpExp x" by simp
  with assms(1) have "- 1074 < ulpExp x" by simp
  from ulpExp_lower' [OF this] assms(2) have "(2::real) powi (ulpExp x + 52) < 2 powi (k + 53)"
    by linarith
  then have "ulpExp x + 52 < k + 53" by (rule pow2_less_cancel)
  with gt show False by simp
qed

lemma roundReal_pow_le:
  assumes "- 1074 \<le> j" and "\<bar>x\<bar> \<le> 2 powi j"
  shows "\<bar>roundReal x\<bar> \<le> 2 powi j"
proof -
  have "(2::real) powi j < 2 powi (j + 53)" by (rule pow2_strict_mono) simp
  with assms(2) have "\<bar>x\<bar> < 2 powi (j + 53)" by linarith
  from ulpExp_le_of_abs_le [OF assms(1) this] have "ulpExp x \<le> j" .
  from roundReal_abs_le_dyadic [OF this, of 1] assms(2) show ?thesis by simp
qed

lemma roundReal_pow_ge:
  assumes "- 1074 \<le> j" and "2 powi j \<le> x"
  shows "2 powi j \<le> roundReal x"
proof (cases "ulpExp x \<le> j")
  case True
  from roundReal_ge_dyadic [OF True, of 1] assms(2) show ?thesis by simp
next
  case False
  with assms(1) have "- 1074 < ulpExp x" by simp
  from ulpExp_lower' [OF this] assms(2) pow2_pos [of j]
  have "2 powi (ulpExp x + 52) \<le> x" by linarith
  from roundReal_ge_dyadic [of x "ulpExp x + 52" 1] this
  have "2 powi (ulpExp x + 52) \<le> roundReal x" by simp
  moreover have "(2::real) powi j \<le> 2 powi (ulpExp x + 52)"
    using False by (intro pow2_mono) simp
  ultimately show ?thesis by linarith
qed

lemma roundReal_dyadic:
  assumes "\<bar>m\<bar> < 2 ^ 53" and "- 1074 \<le> k"
  shows "roundReal (of_int m * 2 powi k) = of_int m * 2 powi k"
proof -
  let ?x = "of_int m * (2::real) powi k"
  have "\<bar>?x\<bar> = of_int \<bar>m\<bar> * 2 powi k" by (simp add: abs_mult)
  also have "\<dots> < of_int (2 ^ 53) * 2 powi k"
    using assms(1) by (intro mult_strict_right_mono) (simp_all only: of_int_less_iff pow2_pos)
  also have "\<dots> = 2 powi (k + 53)" by (simp add: pow2_split mult.commute)
  finally have "\<bar>?x\<bar> < 2 powi (k + 53)" .
  from ulpExp_le_of_abs_le [OF assms(2) this] have le: "ulpExp ?x \<le> k" .
  from roundReal_le_dyadic [OF le, of m] roundReal_ge_dyadic [OF le, of m]
  show ?thesis by simp
qed

lemma roundReal_of_int: "\<bar>m\<bar> < 2 ^ 53 \<Longrightarrow> roundReal (of_int m) = of_int m"
  using roundReal_dyadic [of m 0] by simp

lemma roundReal_fixed_on_grid:
  assumes "roundReal c = c"
  shows "\<exists>n. c = of_int n * 2 powi ulpExp c"
  using assms unfolding roundReal_def by metis

lemma roundReal_abs_le_fixed:
  assumes fixed: "roundReal c = c" and le: "\<bar>x\<bar> \<le> c"
  shows "\<bar>roundReal x\<bar> \<le> c"
proof -
  from roundReal_fixed_on_grid [OF fixed] obtain n where n: "c = of_int n * 2 powi ulpExp c" by blast
  from le have "\<bar>x\<bar> \<le> \<bar>c\<bar>" by simp
  then have "ulpExp x \<le> ulpExp c" by (rule ulpExp_mono)
  from roundReal_abs_le_dyadic [OF this, of n] le n show ?thesis by simp
qed

lemma roundReal_mono:
  assumes "x \<le> y"
  shows "roundReal x \<le> roundReal y"
proof -
  consider "ulpExp x = ulpExp y" | "ulpExp x < ulpExp y" | "ulpExp y < ulpExp x" by linarith
  then show ?thesis
  proof cases
    case 1
    let ?u = "(2::real) powi ulpExp y"
    have u: "0 < ?u" by simp
    from assms u have "x / ?u \<le> y / ?u" by (simp add: divide_right_mono)
    then have "roundHalfEven (x / ?u) \<le> roundHalfEven (y / ?u)" by (rule roundHalfEven_mono)
    then have "(of_int (roundHalfEven (x / ?u)) :: real) \<le> of_int (roundHalfEven (y / ?u))"
      by (simp only: of_int_le_iff)
    then show ?thesis unfolding roundReal_def 1 using u by (intro mult_right_mono) simp_all
  next
    case 2
    let ?B = "(2::real) powi (ulpExp y + 52)"
    from 2 ulpExp_ge [of x] have "- 1074 < ulpExp y" by simp
    from ulpExp_lower' [OF this] have By: "?B \<le> \<bar>y\<bar>" .
    have "(2::real) powi (ulpExp x + 53) \<le> ?B" using 2 by (intro pow2_mono) simp
    with ulpExp_upper [of x] have xB: "\<bar>x\<bar> < ?B" by linarith
    with By assms have ypos: "?B \<le> y" by linarith
    from roundReal_ge_dyadic [of y "ulpExp y + 52" 1] ypos have "?B \<le> roundReal y" by simp
    moreover from roundReal_le_dyadic [of x "ulpExp y + 52" 1] 2 xB have "roundReal x \<le> ?B" by simp
    ultimately show ?thesis by linarith
  next
    case 3
    let ?B = "(2::real) powi (ulpExp x + 52)"
    from 3 ulpExp_ge [of y] have "- 1074 < ulpExp x" by simp
    from ulpExp_lower' [OF this] have Bx: "?B \<le> \<bar>x\<bar>" .
    have "(2::real) powi (ulpExp y + 53) \<le> ?B" using 3 by (intro pow2_mono) simp
    with ulpExp_upper [of y] have yB: "\<bar>y\<bar> < ?B" by linarith
    with Bx assms have xneg: "x \<le> - ?B" by linarith
    from roundReal_le_dyadic [of x "ulpExp x + 52" "- 1"] xneg have "roundReal x \<le> - ?B" by simp
    moreover from roundReal_ge_dyadic [of y "ulpExp x + 52" "- 1"] 3 yB have "- ?B \<le> roundReal y"
      by simp
    ultimately show ?thesis by linarith
  qed
qed

lemma roundReal_half:
  assumes fixed: "roundReal c = c" and normal: "2 powi (- 1021) \<le> \<bar>c\<bar>"
  shows "roundReal (c / 2) = c / 2"
proof -
  from roundReal_fixed_on_grid [OF fixed] obtain n where n: "c = of_int n * 2 powi ulpExp c" by blast
  let ?u = "(2::real) powi ulpExp c"
  have u: "0 < ?u" by simp
  have "\<bar>c\<bar> = of_int \<bar>n\<bar> * ?u" by (subst n) (simp add: abs_mult)
  with ulpExp_upper [of c] have "of_int \<bar>n\<bar> * ?u < 2 powi (ulpExp c + 53)" by simp
  also have "\<dots> = of_int (2 ^ 53) * ?u" by (simp add: pow2_split)
  finally have "(of_int \<bar>n\<bar> :: real) < of_int (2 ^ 53)" using u by (simp only: mult_less_cancel_right_pos)
  then have small: "\<bar>n\<bar> < 2 ^ 53" by (simp only: of_int_less_iff)
  have "- 1074 < ulpExp c"
  proof (rule ccontr)
    assume "\<not> - 1074 < ulpExp c"
    with ulpExp_ge [of c] have "ulpExp c = - 1074" by simp
    with ulpExp_upper [of c] have "\<bar>c\<bar> < 2 powi (- 1074 + 53)" by simp
    with normal show False by simp
  qed
  then have k: "- 1074 \<le> ulpExp c - 1" by simp
  have "(2::real) powi (ulpExp c - 1) = ?u / 2"
    using power_int_diff [of "2::real" "ulpExp c" 1] by simp
  then have "of_int n * 2 powi (ulpExp c - 1) = of_int n * ?u / 2" by simp
  also have "\<dots> = c / 2" using n by simp
  finally have half: "of_int n * 2 powi (ulpExp c - 1) = c / 2" .
  from roundReal_dyadic [OF small k] show ?thesis by (simp only: half)
qed

subsection \<open>The rounded value as a number\<close>

lemma roundReal_idem: "roundReal (roundReal x) = roundReal x"
proof -
  let ?k = "ulpExp x"
  let ?n = "roundHalfEven (x / 2 powi ?k)"
  have u: "0 < (2::real) powi ?k" by simp
  have rr: "roundReal x = of_int ?n * 2 powi ?k" by (simp only: roundReal_def)
  have k: "- 1074 \<le> ?k" by (rule ulpExp_ge)
  have "\<bar>x\<bar> < of_int (2 ^ 53) * 2 powi ?k"
    using ulpExp_upper [of x] by (simp add: pow2_split mult.commute)
  then have "x \<le> of_int (2 ^ 53) * 2 powi ?k" and "of_int (- (2 ^ 53)) * 2 powi ?k \<le> x"
    by simp_all
  then have "x / 2 powi ?k \<le> of_int (2 ^ 53)" and "of_int (- (2 ^ 53)) \<le> x / 2 powi ?k"
    using u by (simp_all only: pos_divide_le_eq pos_le_divide_eq)
  from roundHalfEven_le [OF this(1)] roundHalfEven_ge [OF this(2)]
  have "\<bar>?n\<bar> \<le> 2 ^ 53" by simp
  then consider "\<bar>?n\<bar> < 2 ^ 53" | "?n = 2 ^ 53" | "?n = - (2 ^ 53)" by linarith
  then show ?thesis
  proof cases
    case 1
    from roundReal_dyadic [OF 1 k] show ?thesis by (simp only: rr)
  next
    case 2
    then have "roundReal x = of_int 1 * 2 powi (?k + 53)"
      by (simp add: rr pow2_split mult.commute)
    moreover have "roundReal (of_int 1 * 2 powi (?k + 53)) = of_int 1 * 2 powi (?k + 53)"
      using k by (intro roundReal_dyadic) simp_all
    ultimately show ?thesis by simp
  next
    case 3
    then have "roundReal x = of_int (- 1) * 2 powi (?k + 53)"
      by (simp add: rr pow2_split mult.commute)
    moreover have "roundReal (of_int (- 1) * 2 powi (?k + 53)) = of_int (- 1) * 2 powi (?k + 53)"
      using k by (intro roundReal_dyadic) simp_all
    ultimately show ?thesis by simp
  qed
qed

lemma signedInf_not_Fin [simp]: "signedInf y \<noteq> Fin a"
  by (simp add: signedInf_def)

lemma double_finite: "\<bar>roundReal x\<bar> < 2 powi 1024 \<Longrightarrow> double x = Fin (roundReal x)"
  by (simp only: double_def Let_def not_le [symmetric] if_False)

lemma double_FinD:
  assumes "double x = Fin y"
  shows "y = roundReal x" and "\<bar>y\<bar> < 2 powi 1024"
proof -
  have small: "\<bar>roundReal x\<bar> < 2 powi 1024"
  proof (rule ccontr)
    assume "\<not> \<bar>roundReal x\<bar> < 2 powi 1024"
    then have "2 powi 1024 \<le> \<bar>roundReal x\<bar>" by (simp only: not_less)
    then have "double x = signedInf (roundReal x)" by (simp only: double_def Let_def if_True)
    with assms show False by simp
  qed
  from double_finite [OF small] assms show "y = roundReal x" by simp
  with small show "\<bar>y\<bar> < 2 powi 1024" by simp
qed

lemma isDouble_iff: "isDouble c \<longleftrightarrow> roundReal c = c \<and> \<bar>c\<bar> < 2 powi 1024"
proof
  assume "isDouble c"
  then have "double c = Fin c" by (simp only: isDouble_def)
  from double_FinD [OF this] show "roundReal c = c \<and> \<bar>c\<bar> < 2 powi 1024" by simp
next
  assume c: "roundReal c = c \<and> \<bar>c\<bar> < 2 powi 1024"
  then have "\<bar>roundReal c\<bar> < 2 powi 1024" by simp
  from double_finite [OF this] c show "isDouble c" by (simp add: isDouble_def)
qed

lemma double_isDouble: "double x = Fin y \<Longrightarrow> isDouble y"
  using double_FinD [of x y] roundReal_idem [of x] by (simp add: isDouble_iff)

lemma double_0 [simp]: "double 0 = Fin 0"
  by (rule trans [OF double_finite]) simp_all

lemma pow2_53_le: "(2::real) ^ 53 \<le> 2 powi 1024"
  using pow2_mono [of 53 1024] by simp

lemma double_of_int: "\<bar>m\<bar> < 2 ^ 53 \<Longrightarrow> double (of_int m) = Fin (of_int m)"
proof -
  assume m: "\<bar>m\<bar> < 2 ^ 53"
  then have "(of_int \<bar>m\<bar> :: real) < of_int (2 ^ 53)" by (simp only: of_int_less_iff)
  then have "\<bar>of_int m :: real\<bar> < 2 ^ 53" by simp
  with pow2_53_le have "\<bar>of_int m :: real\<bar> < 2 powi 1024" by linarith
  with roundReal_of_int [OF m] show ?thesis by (simp add: double_finite)
qed

lemma double_of_nat: "k < 2 ^ 53 \<Longrightarrow> double (real k) = Fin (real k)"
  using double_of_int [of "int k"] by simp

lemma double_dyadic:
  assumes "\<bar>m\<bar> < 2 ^ 53" and "- 1074 \<le> k" and "k \<le> 971"
  shows "double (of_int m * 2 powi k) = Fin (of_int m * 2 powi k)"
proof -
  have "\<bar>of_int m * (2::real) powi k\<bar> = of_int \<bar>m\<bar> * 2 powi k" by (simp add: abs_mult)
  also have "\<dots> < of_int (2 ^ 53) * 2 powi k"
    using assms(1) by (intro mult_strict_right_mono) (simp_all only: of_int_less_iff pow2_pos)
  also have "\<dots> = 2 powi (k + 53)" by (simp add: pow2_split mult.commute)
  also have "\<dots> \<le> 2 powi 1024" using assms(3) by (intro pow2_mono) simp
  finally have "\<bar>of_int m * (2::real) powi k\<bar> < 2 powi 1024" .
  with roundReal_dyadic [OF assms(1,2)] show ?thesis by (simp add: double_finite)
qed

lemma double_le_pow:
  assumes "- 1074 \<le> j" and "j \<le> 1023" and "\<bar>x\<bar> \<le> 2 powi j"
  shows "double x = Fin (roundReal x)" and "\<bar>roundReal x\<bar> \<le> 2 powi j"
proof -
  from roundReal_pow_le [OF assms(1,3)] show le: "\<bar>roundReal x\<bar> \<le> 2 powi j" .
  have "(2::real) powi j < 2 powi 1024" using assms(2) by (intro pow2_strict_mono) simp
  with le have "\<bar>roundReal x\<bar> < 2 powi 1024" by linarith
  then show "double x = Fin (roundReal x)" by (rule double_finite)
qed

lemma double_abs_le_isDouble:
  assumes "isDouble c" and "\<bar>x\<bar> \<le> c"
  shows "double x = Fin (roundReal x)" and "\<bar>roundReal x\<bar> \<le> c"
proof -
  from assms(1) have fixed: "roundReal c = c" and small: "\<bar>c\<bar> < 2 powi 1024"
    by (simp_all add: isDouble_iff)
  from roundReal_abs_le_fixed [OF fixed assms(2)] show le: "\<bar>roundReal x\<bar> \<le> c" .
  with small have "\<bar>roundReal x\<bar> < 2 powi 1024" by linarith
  then show "double x = Fin (roundReal x)" by (rule double_finite)
qed

lemma double_PosInf: "2 powi 1024 \<le> x \<Longrightarrow> double x = PosInf"
proof -
  assume "2 powi 1024 \<le> x"
  from roundReal_pow_ge [OF _ this] have big: "2 powi 1024 \<le> roundReal x" by simp
  then have "2 powi 1024 \<le> \<bar>roundReal x\<bar>" by linarith
  then have "double x = signedInf (roundReal x)" by (simp only: double_def Let_def if_True)
  moreover from big pow2_pos [of 1024] have "0 < roundReal x" by linarith
  ultimately show ?thesis by (simp add: signedInf_def)
qed

lemma double_nonneg:
  assumes "0 \<le> x"
  shows "double x = PosInf \<or> (double x = Fin (roundReal x) \<and> 0 \<le> roundReal x)"
proof (cases "\<bar>roundReal x\<bar> < 2 powi 1024")
  case True
  with double_finite [OF True] roundReal_nonneg [OF assms] show ?thesis by simp
next
  case False
  then have big: "2 powi 1024 \<le> \<bar>roundReal x\<bar>" by (simp only: not_less)
  then have "double x = signedInf (roundReal x)" by (simp only: double_def Let_def if_True)
  moreover from big roundReal_nonneg [OF assms] pow2_pos [of 1024] have "0 < roundReal x"
    by linarith
  ultimately show ?thesis by (simp add: signedInf_def)
qed

lemma isDouble_half:
  assumes "isDouble s" and "2 powi (- 1021) \<le> s"
  shows "isDouble (s / 2)"
proof -
  from assms(1) have fixed: "roundReal s = s" and small: "\<bar>s\<bar> < 2 powi 1024"
    by (simp_all add: isDouble_iff)
  from assms(2) have "2 powi (- 1021) \<le> \<bar>s\<bar>" by linarith
  from roundReal_half [OF fixed this] have "roundReal (s / 2) = s / 2" .
  moreover from small have "\<bar>s / 2\<bar> < 2 powi 1024" by simp
  ultimately show ?thesis by (simp add: isDouble_iff)
qed

lemma ulp_le_step:
  assumes "0 \<le> x" and "x \<le> 2 ^ 52 * s" and "2 powi (- 1074) \<le> s"
  shows "2 powi ulpExp x \<le> s"
proof (cases "- 1074 < ulpExp x")
  case False
  with ulpExp_ge [of x] have "ulpExp x = - 1074" by simp
  with assms(3) show ?thesis by simp
next
  case True
  from ulpExp_lower' [OF True] assms(1,2) have "2 powi (ulpExp x + 52) \<le> 2 ^ 52 * s" by simp
  then have "2 powi ulpExp x * 2 ^ 52 \<le> s * 2 ^ 52" by (simp add: pow2_split mult.commute)
  then show ?thesis by (simp only: mult_le_cancel_right_pos zero_less_power zero_less_numeral)
qed

subsection \<open>Evaluating a rounding\<close>

lemma ulpExp_eq:
  assumes "- 1074 \<le> k" and "2 powi (k + 52) \<le> \<bar>x\<bar>" and "\<bar>x\<bar> < 2 powi (k + 53)"
  shows "ulpExp x = k"
proof -
  from ulpExp_le_of_abs_le [OF assms(1,3)] have le: "ulpExp x \<le> k" .
  have "\<not> ulpExp x < k"
  proof
    assume "ulpExp x < k"
    then have "(2::real) powi (ulpExp x + 53) \<le> 2 powi (k + 52)" by (intro pow2_mono) simp
    with ulpExp_upper [of x] assms(2) show False by linarith
  qed
  with le show ?thesis by simp
qed

lemma roundReal_eval:
  assumes "- 1074 \<le> k" and "2 powi (k + 52) \<le> \<bar>x\<bar>" and "\<bar>x\<bar> < 2 powi (k + 53)"
    and "\<bar>x / 2 powi k - of_int n\<bar> < 1 / 2"
  shows "roundReal x = of_int n * 2 powi k"
  using roundHalfEven_near [OF assms(4)]
  by (simp only: roundReal_def ulpExp_eq [OF assms(1-3)])

lemma roundReal_eval_subnormal:
  assumes "\<bar>x\<bar> < 2 powi (- 1022)" and "\<bar>x / 2 powi (- 1074) - of_int n\<bar> < 1 / 2"
  shows "roundReal x = of_int n * 2 powi (- 1074)"
  using roundHalfEven_near [OF assms(2)]
  by (simp only: roundReal_def ulpExp_subnormal [OF assms(1)])

lemma isDouble_pos_ge:
  assumes "isDouble c" and "0 < c"
  shows "2 powi (- 1074) \<le> c"
proof -
  from assms(1) have "roundReal c = c" by (simp add: isDouble_iff)
  from roundReal_fixed_on_grid [OF this] obtain n where n: "c = of_int n * 2 powi ulpExp c" by blast
  have u: "0 < (2::real) powi ulpExp c" by simp
  from assms(2) n have "0 < of_int n * (2::real) powi ulpExp c" by simp
  then have "0 < (of_int n :: real)" using u by (rule zero_less_mult_pos2)
  then have "1 \<le> n" by simp
  then have "(1::real) \<le> of_int n" by simp
  then have "1 * 2 powi ulpExp c \<le> of_int n * (2::real) powi ulpExp c"
    using u by (intro mult_right_mono) simp_all
  with n have "2 powi ulpExp c \<le> c" by simp
  moreover have "(2::real) powi (- 1074) \<le> 2 powi ulpExp c" by (intro pow2_mono ulpExp_ge)
  ultimately show ?thesis by linarith
qed

section \<open>Termination of the aliasing loop\<close>

text \<open>
  With a sample rate \<open>s\<close> whose half is a double, the loop started at a frequency of
  at most \<open>2^52 * s\<close> ends: each subtraction of \<open>s\<close> lowers the frequency by at
  least half of \<open>s\<close>.
\<close>

lemma aliasWrap_double_returns:
  assumes s: "0 < s" and half: "isDouble (s / 2)" and c: "isDouble c" and cs: "c \<le> 2 ^ 52 * s"
  shows "0 \<le> e \<Longrightarrow> e \<le> c \<Longrightarrow>
           \<exists>y. aliasWrap double (Fin s) (Fin (s / 2)) (Fin e) = Some (Fin y) \<and> 0 \<le> y \<and> y \<le> s / 2"
proof (induction "nat \<lfloor>2 * e / s\<rfloor>" arbitrary: e rule: less_induct)
  case less
  from isDouble_pos_ge [OF half] s have smin: "2 powi (- 1074) \<le> s"
    using pow2_pos [of "- 1074"] by simp
  have sub: "nsub double (Fin e) (Fin s) = double (e - s)" by (simp add: nsub_def)
  show ?case
  proof (cases "e \<le> s / 2")
    case True
    then have "aliasWrap double (Fin s) (Fin (s / 2)) (Fin e) = Some (Fin e)"
      by (subst aliasWrap.simps) simp
    with True less.prems show ?thesis by simp
  next
    case over: False
    have step: "aliasWrap double (Fin s) (Fin (s / 2)) (Fin e)
                  = aliasWrap double (Fin s) (Fin (s / 2)) (nabs (double (e - s)))"
      using over by (subst aliasWrap.simps) (simp add: sub)
    show ?thesis
    proof (cases "e \<le> s")
      case True
      with over have "\<bar>e - s\<bar> \<le> s / 2" by simp
      from double_abs_le_isDouble [OF half this]
      have d: "double (e - s) = Fin (roundReal (e - s))" and small: "\<bar>roundReal (e - s)\<bar> \<le> s / 2" .
      from small have "aliasWrap double (Fin s) (Fin (s / 2)) (Fin \<bar>roundReal (e - s)\<bar>)
          = Some (Fin \<bar>roundReal (e - s)\<bar>)"
        by (subst aliasWrap.simps) simp
      with step d small show ?thesis by simp
    next
      case False
      then have pos: "0 \<le> e - s" by simp
      with less.prems s have "\<bar>e - s\<bar> \<le> c" by simp
      from double_abs_le_isDouble [OF c this]
      have d: "double (e - s) = Fin (roundReal (e - s))" and le_c: "\<bar>roundReal (e - s)\<bar> \<le> c" .
      let ?y = "roundReal (e - s)"
      have y0: "0 \<le> ?y" using pos by (rule roundReal_nonneg)
      from less.prems cs s have "e - s \<le> 2 ^ 52 * s" by simp
      from ulp_le_step [OF pos this smin] roundReal_error [of "e - s"]
      have "?y \<le> e - s + s / 2" by linarith
      then have dec: "?y \<le> e - s / 2" by simp
      then have "2 * ?y / s \<le> 2 * e / s - 1" using s by (simp add: field_simps)
      then have "\<lfloor>2 * ?y / s\<rfloor> \<le> \<lfloor>2 * e / s - 1\<rfloor>" by (rule floor_mono)
      then have fl: "\<lfloor>2 * ?y / s\<rfloor> \<le> \<lfloor>2 * e / s\<rfloor> - 1" by simp
      have "1 \<le> 2 * e / s" using False s by (simp add: field_simps)
      then have "1 \<le> \<lfloor>2 * e / s\<rfloor>" by linarith
      with fl have "nat \<lfloor>2 * ?y / s\<rfloor> < nat \<lfloor>2 * e / s\<rfloor>" by linarith
      moreover from le_c y0 have "?y \<le> c" by simp
      ultimately obtain y where "aliasWrap double (Fin s) (Fin (s / 2)) (Fin ?y) = Some (Fin y)"
        and "0 \<le> y" and "y \<le> s / 2"
        using less.hyps [OF _ y0] by blast
      with step d y0 show ?thesis by simp
    qed
  qed
qed

text \<open>Subtracting 44100 from \<open>2^80\<close> gives \<open>2^80\<close> back.\<close>

lemma absorbed: "double (2 ^ 80 - 44100) = Fin (2 ^ 80)"
proof -
  define x :: real where "x = 2 ^ 80 - 44100"
  have "roundReal x = of_int (2 ^ 53) * 2 powi 27"
    by (rule roundReal_eval) (simp_all add: x_def)
  then have r: "roundReal x = 2 ^ 80" by simp
  then have "\<bar>roundReal x\<bar> < 2 powi 1024" by simp
  from double_finite [OF this] r show ?thesis by (simp only: x_def)
qed

lemma aliasWrap_stuck:
  assumes ret: "aliasWrap fl sampleRateHz maxFreq effectiveFreq = Some y"
  shows "\<not> (fl = double \<and> sampleRateHz = Fin 44100 \<and> maxFreq = Fin 22050
        \<and> effectiveFreq = Fin (2 ^ 80))"
proof (rule aliasWrap.raw_induct [where P = "\<lambda>fl sampleRateHz maxFreq effectiveFreq y.
    \<not> (fl = double \<and> sampleRateHz = Fin 44100 \<and> maxFreq = Fin 22050
        \<and> effectiveFreq = Fin (2 ^ 80))", OF _ ret])
  fix loop fl' s m e z
  assume IH: "\<And>fl s m e z. loop fl s m e = Some z \<Longrightarrow>
      \<not> (fl = double \<and> s = Fin 44100 \<and> m = Fin 22050 \<and> e = Fin (2 ^ 80))"
    and body: "(if ngt e m then loop fl' s m (nabs (nsub fl' e s)) else Some e) = Some z"
  show "\<not> (fl' = double \<and> s = Fin 44100 \<and> m = Fin 22050 \<and> e = Fin (2 ^ 80))"
  proof
    assume at: "fl' = double \<and> s = Fin 44100 \<and> m = Fin 22050 \<and> e = Fin (2 ^ 80)"
    have "nabs (nsub double (Fin (2 ^ 80)) (Fin 44100)) = Fin (2 ^ 80)"
      using absorbed by (simp add: nsub_def)
    with body at have "loop double (Fin 44100) (Fin 22050) (Fin (2 ^ 80)) = Some z"
      by simp
    from IH [OF this] show False by blast
  qed
qed

lemma aliasWrap_never_returns:
  "aliasWrap double (Fin 44100) (Fin 22050) (Fin (2 ^ 80)) = None"
proof (cases "aliasWrap double (Fin 44100) (Fin 22050) (Fin (2 ^ 80))")
  case None
  then show ?thesis .
next
  case (Some y)
  from aliasWrap_stuck [OF this] show ?thesis by simp
qed

section \<open>The primitives over exact arithmetic\<close>

lemma calculateDopplerShift_Fin:
  "calculateDopplerShift Fin (Fin v) (Fin f) (Fin 0) =
     Fin (2 * (v / 3.6) * (f * 1000000000) / 299792458)"
  by (simp add: calculateDopplerShift_def C_def)

lemma calculateSpeedFromShift_Fin:
  "0 < f \<Longrightarrow> calculateSpeedFromShift Fin (Fin d) (Fin f) =
     Fin (d * 299792458 / (2 * (f * 1000000000)) * 3.6)"
  by (simp add: calculateSpeedFromShift_def C_def)



section \<open>The measurement\<close>

lemma isFinite_iff: "isFinite x \<longleftrightarrow> (\<exists>r. x = Fin r)"
  by (cases x) simp_all

lemma reduce_last_maximum:
  assumes "\<forall>c\<in>set (c0 # cs). isFinite (speedKmh c)"
  shows "\<exists>i<length (c0 # cs).
           foldl (\<lambda>prev current. if ngt (speedKmh prev) (speedKmh current) then prev else current)
             c0 cs = (c0 # cs) ! i
         \<and> (\<forall>j<length (c0 # cs). \<not> ngt (speedKmh ((c0 # cs) ! j)) (speedKmh ((c0 # cs) ! i)))
         \<and> (\<forall>j<length (c0 # cs). i < j \<longrightarrow>
               ngt (speedKmh ((c0 # cs) ! i)) (speedKmh ((c0 # cs) ! j)))"
  using assms
proof (induction cs rule: rev_induct)
  case Nil
  then show ?case by (auto simp: isFinite_iff)
next
  case (snoc d cs)
  let ?pick = "\<lambda>prev current. if ngt (speedKmh prev) (speedKmh current) then prev else current"
  define xs where "xs = c0 # cs"
  have app: "c0 # cs @ [d] = xs @ [d]" by (simp add: xs_def)
  from snoc.prems have fin: "\<forall>c\<in>set xs. isFinite (speedKmh c)" by (simp add: xs_def)
  from snoc.prems obtain vd where vd: "speedKmh d = Fin vd" by (auto simp: isFinite_iff)
  from snoc.IH fin obtain i where i: "i < length xs"
    and sel: "foldl ?pick c0 cs = xs ! i"
    and mx: "\<forall>j<length xs. \<not> ngt (speedKmh (xs ! j)) (speedKmh (xs ! i))"
    and later: "\<forall>j<length xs. i < j \<longrightarrow> ngt (speedKmh (xs ! i)) (speedKmh (xs ! j))"
    unfolding xs_def by blast
  have finite_at: "\<exists>v. speedKmh (xs ! j) = Fin v" if "j < length xs" for j
    using fin nth_mem [OF that] by (simp add: isFinite_iff)
  from finite_at [OF i] obtain vm where vm: "speedKmh (xs ! i) = Fin vm" by blast
  have val: "\<exists>v. speedKmh (xs ! j) = Fin v \<and> v \<le> vm" if j: "j < length xs" for j
  proof -
    from finite_at [OF j] obtain v where v: "speedKmh (xs ! j) = Fin v" by blast
    from mx j v vm show ?thesis by auto
  qed
  have split: "j < length xs \<or> j = length xs" if "j < length (xs @ [d])" for j
    using that by auto
  show ?case
  proof (cases "vd < vm")
    case True
    have "foldl ?pick c0 (cs @ [d]) = (xs @ [d]) ! i"
      using True sel vm vd i by (simp add: nth_append)
    moreover have "\<forall>j<length (xs @ [d]). \<not> ngt (speedKmh ((xs @ [d]) ! j)) (speedKmh ((xs @ [d]) ! i))"
    proof (intro allI impI)
      fix j assume "j < length (xs @ [d])"
      from split [OF this] show "\<not> ngt (speedKmh ((xs @ [d]) ! j)) (speedKmh ((xs @ [d]) ! i))"
      proof
        assume "j < length xs"
        with mx i show ?thesis by (simp add: nth_append)
      next
        assume "j = length xs"
        with i vm vd True show ?thesis by (simp add: nth_append)
      qed
    qed
    moreover have "\<forall>j<length (xs @ [d]). i < j \<longrightarrow>
        ngt (speedKmh ((xs @ [d]) ! i)) (speedKmh ((xs @ [d]) ! j))"
    proof (intro allI impI)
      fix j assume "j < length (xs @ [d])" and ij: "i < j"
      from split [OF this(1)] show "ngt (speedKmh ((xs @ [d]) ! i)) (speedKmh ((xs @ [d]) ! j))"
      proof
        assume "j < length xs"
        with later i ij show ?thesis by (simp add: nth_append)
      next
        assume "j = length xs"
        with i vm vd True show ?thesis by (simp add: nth_append)
      qed
    qed
    moreover have "i < length (xs @ [d])" using i by simp
    ultimately show ?thesis unfolding app by blast
  next
    case False
    have "foldl ?pick c0 (cs @ [d]) = (xs @ [d]) ! length xs"
      using False sel vm vd by simp
    moreover have "\<forall>j<length (xs @ [d]).
        \<not> ngt (speedKmh ((xs @ [d]) ! j)) (speedKmh ((xs @ [d]) ! length xs))"
    proof (intro allI impI)
      fix j assume "j < length (xs @ [d])"
      from split [OF this]
      show "\<not> ngt (speedKmh ((xs @ [d]) ! j)) (speedKmh ((xs @ [d]) ! length xs))"
      proof
        assume 1: "j < length xs"
        from val [OF 1] obtain v where "speedKmh (xs ! j) = Fin v" "v \<le> vm" by blast
        with 1 False vd show ?thesis by (simp add: nth_append)
      next
        assume "j = length xs"
        with vd show ?thesis by simp
      qed
    qed
    moreover have "\<forall>j<length (xs @ [d]). length xs < j \<longrightarrow>
        ngt (speedKmh ((xs @ [d]) ! length xs)) (speedKmh ((xs @ [d]) ! j))"
      by simp
    moreover have "length xs < length (xs @ [d])" by simp
    ultimately show ?thesis unfolding app by blast
  qed
qed

text \<open>
  C1, as the code has it. For a non-empty list of cars with finite speeds the
  reduction selects a car that no car exceeds in speed, and every car after it in the
  list is strictly slower: among the cars of maximum speed it is the last one, not the
  first. The true speed, the true Doppler shift, the measured shift and the measured
  speed are all computed from the selected car, whatever the rounding of the
  arithmetic.
\<close>

theorem fastestCar_last_maximum:
  assumes "cs \<noteq> []" and "\<forall>c\<in>set cs. isFinite (speedKmh c)"
  shows "\<exists>i<length cs.
           fastestCar cs = Some (cs ! i)
         \<and> (\<forall>j<length cs. \<not> ngt (speedKmh (cs ! j)) (speedKmh (cs ! i)))
         \<and> (\<forall>j<length cs. i < j \<longrightarrow> ngt (speedKmh (cs ! i)) (speedKmh (cs ! j)))
         \<and> realTargetSpeed cs = speedKmh (cs ! i)
         \<and> realDopplerShift fl rp cs
             = calculateDopplerShift fl (speedKmh (cs ! i)) (frequencyGHz rp) (Fin 0)
         \<and> measuredShiftHz fl rp cs
             = nmul fl (nround (ndiv fl (calculateDopplerShift fl (speedKmh (cs ! i))
                                           (frequencyGHz rp) (Fin 0))
                                        (freqResolutionHz fl rp)))
                    (freqResolutionHz fl rp)
         \<and> measuredSpeedKmh fl rp cs
             = calculateSpeedFromShift fl
                 (nmul fl (nround (ndiv fl (calculateDopplerShift fl (speedKmh (cs ! i))
                                              (frequencyGHz rp) (Fin 0))
                                           (freqResolutionHz fl rp)))
                       (freqResolutionHz fl rp))
                 (frequencyGHz rp)"
proof -
  from assms(1) obtain c0 cs' where cs: "cs = c0 # cs'" by (cases cs) auto
  from reduce_last_maximum [of c0 cs'] assms(2) obtain i where i: "i < length cs"
    and sel: "fastestCar cs = Some (cs ! i)"
    and mx: "\<forall>j<length cs. \<not> ngt (speedKmh (cs ! j)) (speedKmh (cs ! i))"
    and later: "\<forall>j<length cs. i < j \<longrightarrow> ngt (speedKmh (cs ! i)) (speedKmh (cs ! j))"
    unfolding cs fastestCar.simps by blast
  from sel have sp: "realTargetSpeed cs = speedKmh (cs ! i)"
    by (simp add: realTargetSpeed_def)
  then have sh: "realDopplerShift fl rp cs
      = calculateDopplerShift fl (speedKmh (cs ! i)) (frequencyGHz rp) (Fin 0)"
    by (simp add: realDopplerShift_def)
  then have ms: "measuredShiftHz fl rp cs
      = nmul fl (nround (ndiv fl (calculateDopplerShift fl (speedKmh (cs ! i))
                                    (frequencyGHz rp) (Fin 0))
                                 (freqResolutionHz fl rp)))
             (freqResolutionHz fl rp)"
    by (simp add: measuredShiftHz_def)
  then have "measuredSpeedKmh fl rp cs
      = calculateSpeedFromShift fl
          (nmul fl (nround (ndiv fl (calculateDopplerShift fl (speedKmh (cs ! i))
                                       (frequencyGHz rp) (Fin 0))
                                    (freqResolutionHz fl rp)))
                (freqResolutionHz fl rp))
          (frequencyGHz rp)"
    by (simp add: measuredSpeedKmh_def)
  with i sel mx later sp sh ms show ?thesis by blast
qed

lemma initialCars_two: "initialCars fl rnd [v, w] =
   [\<lparr>carId = Fin 0, xPos = nmul fl (Fin (rnd 0)) (Fin 800), lane = Fin 0,
     color = ''#ef4444'', speedKmh = v\<rparr>,
    \<lparr>carId = Fin 1, xPos = nmul fl (Fin (rnd 1)) (Fin 800), lane = Fin 1,
     color = ''#3b82f6'', speedKmh = w\<rparr>]"
  by (simp add: initialCars_def CAR_COLORS_def)

theorem fastestCar_last_maximum_witness:
  "initialCars double (\<lambda>_. 0) [Fin 110, Fin 60] \<noteq> []
   \<and> list_all (\<lambda>c. isFinite (speedKmh c)) (initialCars double (\<lambda>_. 0) [Fin 110, Fin 60])
   \<and> map_option carId (fastestCar (initialCars double (\<lambda>_. 0) [Fin 110, Fin 60])) = Some (Fin 0)
   \<and> realTargetSpeed (initialCars double (\<lambda>_. 0) [Fin 110, Fin 60]) = Fin 110"
proof -
  let ?cs = "initialCars double (\<lambda>_. 0) [Fin 110, Fin 60]"
  have ne: "?cs \<noteq> []" by (simp add: initialCars_two)
  have fin: "\<forall>c\<in>set ?cs. isFinite (speedKmh c)" by (simp add: initialCars_two)
  from fastestCar_last_maximum [OF ne fin, of double "initialRadarParams double"]
  obtain i where i: "i < length ?cs" and sel: "fastestCar ?cs = Some (?cs ! i)"
    and mx: "\<forall>j<length ?cs. \<not> ngt (speedKmh (?cs ! j)) (speedKmh (?cs ! i))"
    and sp: "realTargetSpeed ?cs = speedKmh (?cs ! i)"
    by blast
  from i have "i = 0 \<or> i = 1" by (auto simp: initialCars_two)
  moreover have "0 < length ?cs" by (simp add: initialCars_two)
  with mx have "\<not> ngt (speedKmh (?cs ! 0)) (speedKmh (?cs ! i))" by blast
  then have "i \<noteq> 1" by (auto simp: initialCars_two)
  ultimately have "i = 0" by simp
  with sel sp ne fin show ?thesis by (simp add: initialCars_two)
qed

text \<open>
  C1 as stated fails on a tie: of two cars at 80 km/h the reduction selects the second
  (the one numbered 1), not the first.
\<close>

theorem fastestCar_tie_counterexample:
  "map_option carId (fastestCar (initialCars double (\<lambda>_. 0) [Fin 80, Fin 80])) = Some (Fin 1)
   \<and> map_option carId (fastestCar (initialCars double (\<lambda>_. 0) [Fin 80, Fin 80])) \<noteq> Some (Fin 0)"
  by (simp add: initialCars_two)

subsection \<open>One car at 80 km/h under the initial parameters\<close>

lemma initialCars_one: "initialCars fl rnd [v] =
   [\<lparr>carId = Fin 0, xPos = nmul fl (Fin (rnd 0)) (Fin 800), lane = Fin 0,
     color = ''#ef4444'', speedKmh = v\<rparr>]"
  by (simp add: initialCars_def CAR_COLORS_def)

lemma realTargetSpeed_80: "realTargetSpeed (initialCars fl (\<lambda>_. 0) [Fin 80]) = Fin 80"
  by (simp add: initialCars_one realTargetSpeed_def)

lemma realDopplerShift_80:
  "realDopplerShift Fin (initialRadarParams Fin) (initialCars Fin (\<lambda>_. 0) [Fin 80])
     = Fin (2 * (80 / 3.6) * (24.15 * 1000000000) / 299792458)"
  by (simp add: realDopplerShift_def realTargetSpeed_80 initialRadarParams_def
      calculateDopplerShift_Fin)

lemma freqResolutionHz_initial: "freqResolutionHz Fin (initialRadarParams Fin) = Fin 86.1328125"
  by (simp add: freqResolutionHz_def initialRadarParams_def)

lemma bin_80:
  "nround (ndiv Fin (realDopplerShift Fin (initialRadarParams Fin) (initialCars Fin (\<lambda>_. 0) [Fin 80]))
                  (freqResolutionHz Fin (initialRadarParams Fin))) = Fin 42"
  by (simp add: realDopplerShift_80 freqResolutionHz_initial)

lemma measuredShiftHz_80:
  "measuredShiftHz Fin (initialRadarParams Fin) (initialCars Fin (\<lambda>_. 0) [Fin 80])
     = Fin 3617.578125"
  by (simp only: measuredShiftHz_def bin_80) (simp add: freqResolutionHz_initial)

lemma measuredSpeedKmh_80:
  "measuredSpeedKmh Fin (initialRadarParams Fin) (initialCars Fin (\<lambda>_. 0) [Fin 80])
     = Fin (3617.578125 * 299792458 / (2 * (24.15 * 1000000000)) * 3.6)"
  by (simp only: measuredSpeedKmh_def measuredShiftHz_80)
     (simp add: initialRadarParams_def calculateSpeedFromShift_Fin)

section \<open>The primitives in double arithmetic\<close>

lemma double_cases: "double x = Fin (roundReal x) \<or> double x = PosInf \<or> double x = NegInf"
proof (cases "2 powi 1024 \<le> \<bar>roundReal x\<bar>")
  case True
  with pow2_pos [of 1024] have nz: "roundReal x \<noteq> 0" by linarith
  from True have "double x = signedInf (roundReal x)" by (simp only: double_def Let_def if_True)
  with nz show ?thesis by (cases "0 < roundReal x") (simp_all add: signedInf_def)
next
  case False
  then have "double x = Fin (roundReal x)" by (simp only: double_def Let_def if_False)
  then show ?thesis by simp
qed

lemma double_between:
  assumes "- 1074 \<le> i" and "j \<le> 1023" and "2 powi i \<le> x" and "x \<le> 2 powi j"
  shows "double x = Fin (roundReal x)" and "2 powi i \<le> roundReal x" and "roundReal x \<le> 2 powi j"
proof -
  from assms(3,4) have "(2::real) powi i \<le> 2 powi j" by linarith
  then have "i \<le> j" by (rule pow2_le_cancel)
  with assms(1) have j: "- 1074 \<le> j" by simp
  from assms(3) pow2_pos [of i] have "0 \<le> x" by linarith
  with assms(4) have abs: "\<bar>x\<bar> \<le> 2 powi j" by simp
  from double_le_pow [OF j assms(2) abs] show "double x = Fin (roundReal x)"
    and "roundReal x \<le> 2 powi j" by simp_all
  from roundReal_pow_ge [OF assms(1,3)] show "2 powi i \<le> roundReal x" .
qed

lemma double_1 [simp]: "double 1 = Fin 1"
  using double_of_int [of 1] by simp

lemma literal_36:
  "double 3.6 = Fin (roundReal 3.6)" "2 \<le> roundReal 3.6" "roundReal 3.6 \<le> 4"
  using double_between [of 1 2 "3.6"] by simp_all

lemma literal_pi:
  "double pi = Fin (roundReal pi)" "2 \<le> roundReal pi" "roundReal pi \<le> 4"
proof -
  have "2 powi 1 \<le> pi" "pi \<le> 2 powi 2" using pi_ge_two pi_less_4 by simp_all
  from double_between [OF _ _ this] show "double pi = Fin (roundReal pi)" "2 \<le> roundReal pi"
    "roundReal pi \<le> 4" by simp_all
qed

lemma literal_08:
  "double 0.8 = Fin (roundReal 0.8)" "1 / 2 \<le> roundReal 0.8" "roundReal 0.8 \<le> 1"
  using double_between [of "- 1" 0 "0.8"] by simp_all

lemma literal_2415:
  "double 24.15 = Fin (roundReal 24.15)" "16 \<le> roundReal 24.15" "roundReal 24.15 \<le> 32"
  using double_between [of 4 5 "24.15"] by simp_all

lemma nmul_double_range:
  assumes "0 \<le> a" and "a \<le> 2 powi j1" and "0 \<le> b" and "b \<le> 2 powi j2"
    and "- 1074 \<le> j1 + j2" and "j1 + j2 \<le> 1023"
  shows "\<exists>y. nmul double (Fin a) (Fin b) = Fin y \<and> 0 \<le> y \<and> y \<le> 2 powi (j1 + j2)"
proof -
  have "a * b \<le> 2 powi j1 * 2 powi j2" using assms(1-4) by (intro mult_mono) simp_all
  then have le: "a * b \<le> 2 powi (j1 + j2)" by (simp only: pow2_split)
  have nonneg: "0 \<le> a * b" using assms(1,3) by simp
  with le have "\<bar>a * b\<bar> \<le> 2 powi (j1 + j2)" by simp
  from double_le_pow [OF assms(5,6) this] roundReal_nonneg [OF nonneg]
  show ?thesis by simp
qed

lemma ndiv_double_range:
  assumes "0 \<le> a" and "a \<le> 2 powi j1" and "2 powi i2 \<le> b"
    and "- 1074 \<le> j1 - i2" and "j1 - i2 \<le> 1023"
  shows "\<exists>y. ndiv double (Fin a) (Fin b) = Fin y \<and> 0 \<le> y \<and> y \<le> 2 powi (j1 - i2)"
proof -
  from assms(3) pow2_pos [of i2] have b: "0 < b" by linarith
  have "a / b \<le> 2 powi j1 / 2 powi i2"
    using assms(1-3) pow2_pos [of i2] by (intro frac_le) simp_all
  also have "\<dots> = 2 powi (j1 - i2)" by (simp add: power_int_diff)
  finally have le: "a / b \<le> 2 powi (j1 - i2)" .
  have nonneg: "0 \<le> a / b" using assms(1) b by simp
  with le have "\<bar>a / b\<bar> \<le> 2 powi (j1 - i2)" by simp
  from double_le_pow [OF assms(4,5) this] roundReal_nonneg [OF nonneg] b
  show ?thesis by simp
qed

lemma ndiv_double_isDouble: "ndiv double (Fin a) (Fin b) = Fin y \<Longrightarrow> b \<noteq> 0 \<Longrightarrow> isDouble y"
  by (simp add: double_isDouble)

text \<open>The Doppler shift at the default angle 0.\<close>

lemma calculateDopplerShift_double:
  "calculateDopplerShift double (Fin v) (Fin f) (Fin 0) =
     ndiv double
       (nmul double
          (nmul double (nmul double (Fin 2) (ndiv double (Fin v) (Fin (roundReal 3.6))))
                       (nmul double (Fin f) (Fin 1000000000)))
          (Fin 1))
       C"
  using literal_36(2)
  by (simp only: calculateDopplerShift_def Let_def literal_36(1) literal_pi(1)) simp

lemma shift_bounded:
  assumes "0 \<le> v" and "v \<le> 2 ^ 20" and "0 \<le> f" and "f \<le> 2 ^ 20"
  shows "\<exists>d. calculateDopplerShift double (Fin v) (Fin f) (Fin 0) = Fin d
           \<and> 0 \<le> d \<and> d \<le> 2 ^ 42 \<and> isDouble d"
proof -
  from ndiv_double_range [of v 20 1 "roundReal 3.6"] assms(1,2) literal_36(2)
  obtain y1 where y1: "ndiv double (Fin v) (Fin (roundReal 3.6)) = Fin y1"
    "0 \<le> y1" "y1 \<le> 2 powi 19" by auto
  from nmul_double_range [of 2 1 y1 19] y1(2,3)
  obtain y2 where y2: "nmul double (Fin 2) (Fin y1) = Fin y2" "0 \<le> y2" "y2 \<le> 2 powi 20"
    by auto
  from nmul_double_range [of f 20 1000000000 30] assms(3,4)
  obtain y3 where y3: "nmul double (Fin f) (Fin 1000000000) = Fin y3" "0 \<le> y3"
    "y3 \<le> 2 powi 50" by auto
  from nmul_double_range [of y2 20 y3 50] y2(2,3) y3(2,3)
  obtain y4 where y4: "nmul double (Fin y2) (Fin y3) = Fin y4" "0 \<le> y4" "y4 \<le> 2 powi 70"
    by auto
  from nmul_double_range [of y4 70 1 0] y4(2,3)
  obtain y5 where y5: "nmul double (Fin y4) (Fin 1) = Fin y5" "0 \<le> y5" "y5 \<le> 2 powi 70"
    by auto
  from ndiv_double_range [of y5 70 28 299792458] y5(2,3)
  obtain d where d: "ndiv double (Fin y5) (Fin 299792458) = Fin d" "0 \<le> d" "d \<le> 2 powi 42"
    by auto
  from ndiv_double_isDouble [OF d(1)] have "isDouble d" by simp
  moreover have "calculateDopplerShift double (Fin v) (Fin f) (Fin 0) = Fin d"
    by (simp only: calculateDopplerShift_double y1 y2 y3 y4 y5 d C_def)
  ultimately show ?thesis using d(2,3) by auto
qed

section \<open>The aliasing loop\<close>

lemma isDouble_of_int: "\<bar>m\<bar> < 2 ^ 53 \<Longrightarrow> isDouble (of_int m)"
  by (simp only: isDouble_def double_of_int)

lemma isDouble_44100: "isDouble 44100"
  using isDouble_of_int [of 44100] by simp

lemma pow2_low: "k \<le> 0 \<Longrightarrow> 2 powi k \<le> (1::real)"
  using pow2_mono [of k 0] by simp

lemma half_double:
  assumes "isDouble s" and "2 powi (- 1021) \<le> s"
  shows "ndiv double (Fin s) (Fin 2) = Fin (s / 2)"
  using isDouble_half [OF assms] by (simp add: isDouble_def)

text \<open>
  C9, as the code has it. For a sample rate that is a double of at least \<open>2^-1021\<close>
  and a starting frequency that is a non-negative double of at most \<open>2^52\<close> times the
  sample rate, the aliasing loop ends, with a frequency from 0 to half the sample
  rate. (Above that bound a subtraction of the sample rate can leave the frequency
  unchanged.)
\<close>

theorem aliasing_loop_terminates:
  assumes "isDouble s" and "2 powi (- 1021) \<le> s"
    and "isDouble e" and "0 \<le> e" and "e \<le> 2 ^ 52 * s"
  shows "\<exists>y. aliasWrap double (Fin s) (ndiv double (Fin s) (Fin 2)) (Fin e) = Some (Fin y)
           \<and> 0 \<le> y \<and> y \<le> s / 2"
proof -
  from assms(2) pow2_pos [of "- 1021"] have pos: "0 < s" by linarith
  from aliasWrap_double_returns [OF pos isDouble_half [OF assms(1,2)] assms(3,5,4)]
  show ?thesis by (simp only: half_double [OF assms(1,2)])
qed

theorem aliasing_loop_terminates_witness:
  "isDouble 44100 \<and> 2 powi (- 1021) \<le> (44100::real) \<and> isDouble 100000 \<and> (0::real) \<le> 100000
   \<and> (100000::real) \<le> 2 ^ 52 * 44100
   \<and> (\<exists>y. aliasWrap double (Fin 44100) (ndiv double (Fin 44100) (Fin 2)) (Fin 100000)
             = Some (Fin y) \<and> 0 \<le> y \<and> y \<le> 44100 / 2)"
proof -
  have s: "isDouble 44100" by (rule isDouble_44100)
  have low: "2 powi (- 1021) \<le> (44100::real)" using pow2_low [of "- 1021"] by simp
  have e: "isDouble 100000" using isDouble_of_int [of 100000] by simp
  have e0: "(0::real) \<le> 100000" by simp
  have bound: "(100000::real) \<le> 2 ^ 52 * 44100" by simp
  from aliasing_loop_terminates [OF s low e e0 bound] s low e e0 bound show ?thesis by blast
qed

text \<open>
  C9 as stated fails in double arithmetic: at the sample rate 44100 Hz and the
  starting frequency \<open>2^80\<close> Hz the difference \<open>2^80 - 44100\<close> rounds to \<open>2^80\<close>,
  and the loop never ends.
\<close>

theorem aliasing_loop_counterexample:
  "isDouble 44100 \<and> isDouble (2 ^ 80) \<and> (0::real) < 44100 \<and> (0::real) \<le> 2 ^ 80
   \<and> nsub double (Fin (2 ^ 80)) (Fin 44100) = Fin (2 ^ 80)
   \<and> aliasWrap double (Fin 44100) (ndiv double (Fin 44100) (Fin 2)) (Fin (2 ^ 80)) = None"
proof -
  have "isDouble (of_int 1 * 2 powi 80)"
    unfolding isDouble_def by (rule double_dyadic) simp_all
  then have big: "isDouble (2 ^ 80)" by simp
  have low: "2 powi (- 1021) \<le> (44100::real)" using pow2_low [of "- 1021"] by simp
  have half: "ndiv double (Fin 44100) (Fin 2) = Fin 22050"
    using half_double [OF isDouble_44100 low] by simp
  have "nsub double (Fin (2 ^ 80)) (Fin 44100) = Fin (2 ^ 80)"
    using absorbed by (simp add: nsub_def)
  with big isDouble_44100 aliasWrap_never_returns show ?thesis by (simp only: half) simp
qed

section \<open>No target\<close>

lemma ndiv_zero: "d \<noteq> NaN \<Longrightarrow> d \<noteq> Fin 0 \<Longrightarrow> ndiv double (Fin 0) d = Fin 0"
  by (cases d) simp_all

lemma calculateSpeedFromShift_zero:
  assumes "2 powi (- 1074) \<le> f * 1000000000" and "f * 1000000000 \<le> 2 powi 1023"
  shows "calculateSpeedFromShift double (Fin 0) (Fin f) = Fin 0"
proof -
  let ?fh = "roundReal (f * 1000000000)"
  from double_between [OF _ _ assms]
  have fh: "double (f * 1000000000) = Fin ?fh" and low: "2 powi (- 1074) \<le> ?fh" by simp_all
  from low pow2_pos [of "- 1074"] have "2 powi (- 1074) \<le> 2 * ?fh" by linarith
  from roundReal_pow_ge [OF _ this] pow2_pos [of "- 1074"]
  have pos: "0 < roundReal (2 * ?fh)" by simp
  from double_cases [of "2 * ?fh"] pos
  have "double (2 * ?fh) \<noteq> NaN" and "double (2 * ?fh) \<noteq> Fin 0" by auto
  from ndiv_zero [OF this] have "ndiv double (Fin 0) (double (2 * ?fh)) = Fin 0" .
  then show ?thesis
    by (simp only: calculateSpeedFromShift_def Let_def nmul.simps fh C_def literal_36(1))
       simp
qed

lemma calculateDopplerShift_zero:
  assumes "2 powi (- 1074) \<le> f * 1000000000" and "f * 1000000000 \<le> 2 powi 1023"
  shows "calculateDopplerShift double (Fin 0) (Fin f) (Fin 0) = Fin 0"
proof -
  from double_between [OF _ _ assms]
  have fh: "double (f * 1000000000) = Fin (roundReal (f * 1000000000))" by simp
  from literal_36(2) have "ndiv double (Fin 0) (Fin (roundReal 3.6)) = Fin 0" by simp
  then show ?thesis
    by (simp only: calculateDopplerShift_double nmul.simps fh C_def) simp
qed

text \<open>
  C8, as the code has it. When the carrier frequency in Hz and the frequency
  resolution \<open>sampleRate / fftSize\<close> both lie between \<open>2^-1074\<close> and \<open>2^1023\<close>, so
  that they round to finite doubles other than zero, and there is no target, the true
  speed, the true Doppler shift, the measured shift, the measured speed and the
  measurement error are all 0.
\<close>

theorem empty_targets_measure_zero:
  assumes "frequencyGHz rp = Fin f" and "basebandSampleRateHz rp = Fin s" and "fftSize rp = Fin n"
    and "2 powi (- 1074) \<le> f * 1000000000" and "f * 1000000000 \<le> 2 powi 1023"
    and "2 powi (- 1074) \<le> s / n" and "s / n \<le> 2 powi 1023"
  shows "realTargetSpeed [] = Fin 0 \<and> realDopplerShift double rp [] = Fin 0
       \<and> measuredShiftHz double rp [] = Fin 0 \<and> measuredSpeedKmh double rp [] = Fin 0
       \<and> measurementError double rp [] = Fin 0"
proof -
  have speed: "realTargetSpeed [] = Fin 0" by (simp add: realTargetSpeed_def)
  have shift: "realDopplerShift double rp [] = Fin 0"
    by (simp only: realDopplerShift_def speed assms(1) calculateDopplerShift_zero [OF assms(4,5)])
  from assms(6) pow2_pos [of "- 1074"] have "n \<noteq> 0" by (cases "n = 0") simp_all
  then have "freqResolutionHz double rp = double (s / n)"
    by (simp add: freqResolutionHz_def assms(2,3))
  with double_between [OF _ _ assms(6,7)] pow2_pos [of "- 1074"]
  have res: "freqResolutionHz double rp = Fin (roundReal (s / n))" and "0 < roundReal (s / n)"
    by simp_all
  then have mshift: "measuredShiftHz double rp [] = Fin 0"
    by (simp add: measuredShiftHz_def shift)
  have mspeed: "measuredSpeedKmh double rp [] = Fin 0"
    by (simp only: measuredSpeedKmh_def mshift assms(1) calculateSpeedFromShift_zero [OF assms(4,5)])
  have "measurementError double rp [] = Fin 0"
    by (simp add: measurementError_def mspeed speed nsub_def)
  with speed shift mshift mspeed show ?thesis by simp
qed

lemma initial_fields:
  "frequencyGHz (initialRadarParams fl) = fl 24.15"
  "basebandSampleRateHz (initialRadarParams fl) = Fin 44100"
  "fftSize (initialRadarParams fl) = Fin 512"
  by (simp_all add: initialRadarParams_def)

theorem empty_targets_measure_zero_witness:
  "frequencyGHz (initialRadarParams double) = Fin (roundReal 24.15)
   \<and> basebandSampleRateHz (initialRadarParams double) = Fin 44100
   \<and> fftSize (initialRadarParams double) = Fin 512
   \<and> 2 powi (- 1074) \<le> roundReal 24.15 * 1000000000
   \<and> roundReal 24.15 * 1000000000 \<le> 2 powi 1023
   \<and> 2 powi (- 1074) \<le> (44100::real) / 512 \<and> (44100::real) / 512 \<le> 2 powi 1023
   \<and> realTargetSpeed [] = Fin 0 \<and> realDopplerShift double (initialRadarParams double) [] = Fin 0
   \<and> measuredShiftHz double (initialRadarParams double) [] = Fin 0
   \<and> measuredSpeedKmh double (initialRadarParams double) [] = Fin 0
   \<and> measurementError double (initialRadarParams double) [] = Fin 0"
proof -
  have cfg: "frequencyGHz (initialRadarParams double) = Fin (roundReal 24.15)"
    "basebandSampleRateHz (initialRadarParams double) = Fin 44100"
    "fftSize (initialRadarParams double) = Fin 512"
    by (simp_all only: initial_fields literal_2415(1))
  have "(1::real) \<le> roundReal 24.15 * 1000000000" using literal_2415(2) by simp
  with pow2_low [of "- 1074"]
  have f1: "2 powi (- 1074) \<le> roundReal 24.15 * 1000000000" by simp
  have "roundReal 24.15 * 1000000000 \<le> 2 powi 35" using literal_2415(3) by simp
  with pow2_mono [of 35 1023]
  have f2: "roundReal 24.15 * 1000000000 \<le> 2 powi 1023" by simp
  have r1: "2 powi (- 1074) \<le> (44100::real) / 512" using pow2_low [of "- 1074"] by simp
  have "(44100::real) / 512 \<le> 2 powi 7" by simp
  with pow2_mono [of 7 1023] have r2: "(44100::real) / 512 \<le> 2 powi 1023" by simp
  from empty_targets_measure_zero [OF cfg f1 f2 r1 r2] cfg f1 f2 r1 r2 show ?thesis by blast
qed

text \<open>
  C8 as stated fails in double arithmetic: at the carrier frequency \<open>2^1000\<close> GHz the
  frequency in Hz overflows to \<open>Infinity\<close>, and with no target the true Doppler shift
  \<open>2 * 0 * Infinity\<close> is \<open>NaN\<close>, as are the measured shift and the measured speed.
\<close>

theorem empty_targets_counterexample:
  "isDouble (2 ^ 1000)
   \<and> nmul double (Fin (2 ^ 1000)) (Fin 1000000000) = PosInf
   \<and> realDopplerShift double ((initialRadarParams double)\<lparr>frequencyGHz := Fin (2 ^ 1000)\<rparr>) []
       = NaN
   \<and> measuredShiftHz double ((initialRadarParams double)\<lparr>frequencyGHz := Fin (2 ^ 1000)\<rparr>) []
       = NaN
   \<and> measuredSpeedKmh double ((initialRadarParams double)\<lparr>frequencyGHz := Fin (2 ^ 1000)\<rparr>) []
       = NaN"
proof -
  let ?rp = "(initialRadarParams double)\<lparr>frequencyGHz := Fin (2 ^ 1000)\<rparr>"
  have "isDouble (of_int (2 ^ 52) * 2 powi 948)"
    unfolding isDouble_def by (rule double_dyadic) simp_all
  then have big: "isDouble (2 ^ 1000)" by simp
  have "(2::real) powi 1024 = 2 ^ 1000 * 2 ^ 24" by (simp add: power_add [symmetric])
  also have "\<dots> \<le> 2 ^ 1000 * 1000000000" by (intro mult_left_mono) simp_all
  finally have "double (2 ^ 1000 * 1000000000) = PosInf" by (rule double_PosInf)
  then have inf: "nmul double (Fin (2 ^ 1000)) (Fin 1000000000) = PosInf" by simp
  have "ndiv double (Fin 0) (Fin (roundReal 3.6)) = Fin 0" using literal_36(2) by simp
  then have "calculateDopplerShift double (Fin 0) (Fin (2 ^ 1000)) (Fin 0) = NaN"
    by (simp only: calculateDopplerShift_double inf) (simp add: signedInf_def)
  then have shift: "realDopplerShift double ?rp [] = NaN"
    by (simp add: realDopplerShift_def realTargetSpeed_def)
  then have mshift: "measuredShiftHz double ?rp [] = NaN"
    by (simp add: measuredShiftHz_def)
  then have "measuredSpeedKmh double ?rp [] = NaN"
    by (simp add: measuredSpeedKmh_def calculateSpeedFromShift_def)
  with big inf shift mshift show ?thesis by simp
qed

section \<open>The speed resolution as a function of the FFT size\<close>

lemma double_PosInf_D:
  assumes "double x = PosInf"
  shows "2 powi 1024 \<le> roundReal x"
proof -
  have big: "2 powi 1024 \<le> \<bar>roundReal x\<bar>"
  proof (rule ccontr)
    assume "\<not> 2 powi 1024 \<le> \<bar>roundReal x\<bar>"
    then have "\<bar>roundReal x\<bar> < 2 powi 1024" by simp
    from double_finite [OF this] assms show False by simp
  qed
  then have "double x = signedInf (roundReal x)" by (simp only: double_def Let_def if_True)
  with assms have "0 < roundReal x" by (simp add: signedInf_def split: if_splits)
  with big show ?thesis by simp
qed

lemma double_nonnegLe:
  assumes "0 \<le> x" and "x \<le> y"
  shows "nonnegLe (double x) (double y)"
proof -
  from assms have y: "0 \<le> y" by simp
  from roundReal_mono [OF assms(2)] have mono: "roundReal x \<le> roundReal y" .
  from double_nonneg [OF assms(1)] show ?thesis
  proof
    assume inf: "double x = PosInf"
    from double_PosInf_D [OF inf] mono have "\<not> \<bar>roundReal y\<bar> < 2 powi 1024" by simp
    with double_nonneg [OF y] double_FinD(2) [of y "roundReal y"] have "double y = PosInf"
      by blast
    with inf show ?thesis by simp
  next
    assume fin: "double x = Fin (roundReal x) \<and> 0 \<le> roundReal x"
    from double_nonneg [OF y] show ?thesis
    proof
      assume "double y = PosInf"
      with fin show ?thesis by simp
    next
      assume "double y = Fin (roundReal y) \<and> 0 \<le> roundReal y"
      with fin mono show ?thesis by simp
    qed
  qed
qed

lemma nonnegLe_refl_cases: "nonnegLe d d \<Longrightarrow> (\<exists>b. d = Fin b \<and> 0 \<le> b) \<or> d = PosInf"
  by (cases d) simp_all

lemma nonnegLe_cases:
  assumes "nonnegLe x y"
  shows "(\<exists>a b. x = Fin a \<and> y = Fin b \<and> 0 \<le> a \<and> a \<le> b)
       \<or> (\<exists>a. x = Fin a \<and> 0 \<le> a \<and> y = PosInf) \<or> (x = PosInf \<and> y = PosInf)"
  using assms by (cases x; cases y) simp_all

lemma nonnegLe_not_gt: "nonnegLe x y \<Longrightarrow> \<not> ngt x y"
  by (cases x; cases y) simp_all

lemma double_nonnegLe_PosInf: "0 \<le> x \<Longrightarrow> nonnegLe (double x) PosInf"
  using double_nonneg [of x] by auto

lemma nmul_right_nonnegLe:
  assumes "nonnegLe x y" and "0 < c"
  shows "nonnegLe (nmul double x (Fin c)) (nmul double y (Fin c))"
  using nonnegLe_cases [OF assms(1)]
proof (elim disjE exE conjE)
  fix a b assume "x = Fin a" "y = Fin b" "0 \<le> a" "a \<le> b"
  moreover from this assms(2) have "0 \<le> a * c" "a * c \<le> b * c" by simp_all
  ultimately show ?thesis using double_nonnegLe by simp
next
  fix a assume "x = Fin a" "0 \<le> a" "y = PosInf"
  moreover from this assms(2) have "0 \<le> a * c" by simp
  ultimately show ?thesis using assms(2) double_nonnegLe_PosInf by (simp add: signedInf_def)
next
  assume "x = PosInf" "y = PosInf"
  then show ?thesis using assms(2) by (simp add: signedInf_def)
qed

lemma nmul_left_nonneg:
  assumes "0 \<le> a" and "0 < c"
  shows "nonnegLe (nmul double (Fin c) (double a)) (nmul double (Fin c) (double a))"
  using double_nonneg [OF assms(1)]
proof
  assume "double a = PosInf"
  then show ?thesis using assms(2) by (simp add: signedInf_def)
next
  assume fin: "double a = Fin (roundReal a) \<and> 0 \<le> roundReal a"
  with assms(2) have "0 \<le> c * roundReal a" by simp
  from double_nonnegLe [OF this order_refl] fin show ?thesis by simp
qed

lemma ndiv_nonnegLe:
  assumes "nonnegLe x y" and "nonnegLe d d"
  shows "ndiv double x d = NaN \<or> ndiv double y d = NaN
       \<or> nonnegLe (ndiv double x d) (ndiv double y d)"
  using nonnegLe_refl_cases [OF assms(2)]
proof (elim disjE exE conjE)
  fix b assume d: "d = Fin b" and b: "0 \<le> b"
  show ?thesis
  proof (cases "b = 0")
    case True
    from nonnegLe_cases [OF assms(1)] show ?thesis
      by (elim disjE exE conjE) (auto simp: d True signedInf_def)
  next
    case False
    with b have pos: "0 < b" by simp
    from nonnegLe_cases [OF assms(1)] show ?thesis
    proof (elim disjE exE conjE)
      fix a a' assume "x = Fin a" "y = Fin a'" "0 \<le> a" "a \<le> a'"
      moreover from this pos have "0 \<le> a / b" "a / b \<le> a' / b"
        by (simp_all add: divide_right_mono)
      ultimately show ?thesis using double_nonnegLe False by (simp add: d)
    next
      fix a assume "x = Fin a" "0 \<le> a" "y = PosInf"
      moreover from this pos have "0 \<le> a / b" by simp
      ultimately show ?thesis using double_nonnegLe_PosInf False pos
        by (simp add: d signedInf_def)
    next
      assume "x = PosInf" "y = PosInf"
      then show ?thesis using pos by (simp add: d signedInf_def)
    qed
  qed
next
  assume d: "d = PosInf"
  from nonnegLe_cases [OF assms(1)] show ?thesis
    by (elim disjE exE conjE) (auto simp: d)
qed

lemma nmul_right_not_gt:
  assumes "u = NaN \<or> v = NaN \<or> nonnegLe u v" and "0 < c"
  shows "\<not> ngt (nmul double u (Fin c)) (nmul double v (Fin c))"
  using assms(1)
proof (elim disjE)
  assume "u = NaN"
  then show ?thesis by simp
next
  assume "v = NaN"
  then show ?thesis by (cases "nmul double u (Fin c)") simp_all
next
  assume "nonnegLe u v"
  from nonnegLe_not_gt [OF nmul_right_nonnegLe [OF this assms(2)]] show ?thesis .
qed

lemma calculateSpeedResolution_double:
  "n \<noteq> 0 \<Longrightarrow> calculateSpeedResolution double (Fin s) (Fin n) (Fin f) =
     nmul double
       (ndiv double (nmul double (double (s / n)) (Fin 299792458))
                    (nmul double (Fin 2) (double (f * 1000000000))))
       (Fin (roundReal 3.6))"
  by (simp only: calculateSpeedResolution_def calculateFreqResolution_def
        calculateSpeedFromShift_def Let_def literal_36(1) C_def ndiv.simps nmul.simps if_False)

lemma speed_resolution_not_increasing:
  assumes "0 < s" and "0 < f" and "0 < n1" and "n1 < n2"
  shows "\<not> ngt (calculateSpeedResolution double (Fin s) (Fin n2) (Fin f))
               (calculateSpeedResolution double (Fin s) (Fin n1) (Fin f))"
proof -
  from assms have n: "n1 \<noteq> 0" "n2 \<noteq> 0" by simp_all
  from assms have "0 \<le> s / n2" and "s / n2 \<le> s / n1" by (simp_all add: frac_le)
  from double_nonnegLe [OF this]
  have "nonnegLe (nmul double (double (s / n2)) (Fin 299792458))
          (nmul double (double (s / n1)) (Fin 299792458))"
    by (rule nmul_right_nonnegLe) simp
  moreover from assms(2)
  have "nonnegLe (nmul double (Fin 2) (double (f * 1000000000)))
          (nmul double (Fin 2) (double (f * 1000000000)))"
    by (intro nmul_left_nonneg) simp_all
  ultimately have
    "ndiv double (nmul double (double (s / n2)) (Fin 299792458))
        (nmul double (Fin 2) (double (f * 1000000000))) = NaN
     \<or> ndiv double (nmul double (double (s / n1)) (Fin 299792458))
        (nmul double (Fin 2) (double (f * 1000000000))) = NaN
     \<or> nonnegLe
         (ndiv double (nmul double (double (s / n2)) (Fin 299792458))
            (nmul double (Fin 2) (double (f * 1000000000))))
         (ndiv double (nmul double (double (s / n1)) (Fin 299792458))
            (nmul double (Fin 2) (double (f * 1000000000))))"
    by (rule ndiv_nonnegLe)
  moreover from literal_36(2) have "0 < roundReal 3.6" by simp
  ultimately show ?thesis
    unfolding calculateSpeedResolution_double [OF n(1)] calculateSpeedResolution_double [OF n(2)]
    by (rule nmul_right_not_gt)
qed

lemma roundReal_halve:
  assumes "2 powi (- 1021) \<le> \<bar>x\<bar>"
  shows "roundReal (x / 2) = roundReal x / 2"
proof -
  define k where "k = ulpExp x"
  have "(2::real) powi (- 1022) \<le> 2 powi (- 1021)" by (intro pow2_mono) simp
  with assms have normal: "2 powi (- 1022) \<le> \<bar>x\<bar>" by linarith
  from ulpExp_lower [OF normal] have lo: "2 powi (k + 52) \<le> \<bar>x\<bar>" by (simp only: k_def)
  from ulpExp_upper [of x] have hi: "\<bar>x\<bar> < 2 powi (k + 53)" by (simp only: k_def)
  from assms hi have "(2::real) powi (- 1021) < 2 powi (k + 53)" by linarith
  then have "- 1021 < k + 53" by (rule pow2_less_cancel)
  then have k: "- 1074 \<le> k - 1" by simp
  have step: "(2::real) powi j = 2 powi (j - 1) * 2" for j
    using pow2_split [of "j - 1" 1] by simp
  have "2 powi (k - 1 + 52) \<le> \<bar>x / 2\<bar>" using lo step [of "k + 52"] by (simp add: algebra_simps)
  moreover have "\<bar>x / 2\<bar> < 2 powi (k - 1 + 53)"
    using hi step [of "k + 53"] by (simp add: algebra_simps)
  ultimately have u: "ulpExp (x / 2) = k - 1" using k by (intro ulpExp_eq) simp_all
  have "x / 2 / 2 powi (k - 1) = x / 2 powi k" using step [of k] by simp
  then have "roundReal (x / 2) = of_int (roundHalfEven (x / 2 powi k)) * 2 powi (k - 1)"
    by (simp only: roundReal_def u)
  also have "\<dots> = of_int (roundHalfEven (x / 2 powi k)) * 2 powi k / 2"
    using step [of k] by simp
  finally show ?thesis by (simp only: roundReal_def k_def)
qed

text \<open>
  One operation of the two computations of the resolution, the second on at most
  half the value of the first.
\<close>

lemma halving_step:
  assumes "0 \<le> x2" and "x2 \<le> x1 / 2" and "2 powi i \<le> x1" and "x1 \<le> 2 powi j"
    and "- 1021 \<le> i" and "j \<le> 1023"
  shows "double x1 = Fin (roundReal x1)" and "double x2 = Fin (roundReal x2)"
    and "0 \<le> roundReal x2" and "roundReal x2 \<le> roundReal x1 / 2"
    and "2 powi i \<le> roundReal x1" and "roundReal x1 \<le> 2 powi j"
proof -
  from assms(5) have i: "- 1074 \<le> i" by simp
  from double_between [OF i assms(6,3,4)]
  show "double x1 = Fin (roundReal x1)" and "2 powi i \<le> roundReal x1"
    and hi: "roundReal x1 \<le> 2 powi j" by simp_all
  from assms(3) pow2_pos [of i] have x1: "0 < x1" by linarith
  have "(2::real) powi (- 1021) \<le> 2 powi i" using assms(5) by (rule pow2_mono)
  with assms(3) x1 have "2 powi (- 1021) \<le> \<bar>x1\<bar>" by simp
  from roundReal_halve [OF this] roundReal_mono [OF assms(2)]
  show le: "roundReal x2 \<le> roundReal x1 / 2" by simp
  from roundReal_nonneg [OF assms(1)] show nonneg: "0 \<le> roundReal x2" .
  from hi pow2_pos [of j] le nonneg have "\<bar>roundReal x2\<bar> \<le> 2 powi j" by simp
  moreover have "(2::real) powi j < 2 powi 1024" using assms(6) by (intro pow2_strict_mono) simp
  ultimately have "\<bar>roundReal x2\<bar> < 2 powi 1024" by linarith
  then show "double x2 = Fin (roundReal x2)" by (rule double_finite)
qed

lemma pow2_nonneg: "2 powi i \<le> a \<Longrightarrow> (0::real) \<le> a"
  using pow2_pos [of i] by linarith

lemma pow2_mult_lower:
  assumes "k = i1 + i2" and "2 powi i1 \<le> (a::real)" and "2 powi i2 \<le> (b::real)"
  shows "2 powi k \<le> a * b"
proof -
  have "2 powi i1 * 2 powi i2 \<le> a * b"
    using assms(2,3) pow2_nonneg [OF assms(2)] by (intro mult_mono) simp_all
  then show ?thesis by (simp only: assms(1) pow2_split)
qed

lemma pow2_mult_upper:
  assumes "k = j1 + j2" and "0 \<le> (a::real)" and "a \<le> 2 powi j1" and "0 \<le> (b::real)"
    and "b \<le> 2 powi j2"
  shows "a * b \<le> 2 powi k"
proof -
  have "a * b \<le> 2 powi j1 * 2 powi j2" using assms(2-5) by (intro mult_mono) simp_all
  then show ?thesis by (simp only: assms(1) pow2_split)
qed

lemma pow2_div_lower:
  assumes "k = i1 - j2" and "2 powi i1 \<le> (a::real)" and "0 < (b::real)" and "b \<le> 2 powi j2"
  shows "2 powi k \<le> a / b"
proof -
  have "2 powi i1 / 2 powi j2 \<le> a / b"
    using assms(2-4) pow2_nonneg [OF assms(2)] by (intro frac_le) simp_all
  moreover have "(2::real) powi i1 / 2 powi j2 = 2 powi (i1 - j2)" by (simp add: power_int_diff)
  ultimately show ?thesis by (simp only: assms(1))
qed

lemma pow2_div_upper:
  assumes "k = j1 - i2" and "0 \<le> (a::real)" and "a \<le> 2 powi j1" and "2 powi i2 \<le> (b::real)"
  shows "a / b \<le> 2 powi k"
proof -
  have "a / b \<le> 2 powi j1 / 2 powi i2"
    using assms(2-4) pow2_pos [of i2] by (intro frac_le) simp_all
  moreover have "(2::real) powi j1 / 2 powi i2 = 2 powi (j1 - i2)" by (simp add: power_int_diff)
  ultimately show ?thesis by (simp only: assms(1))
qed

lemma speed_resolution_halves:
  assumes s: "2 powi (- 400) \<le> s / n1" "s / n1 \<le> 2 powi 400"
    and f: "2 powi (- 400) \<le> f" "f \<le> 2 powi 400"
    and n: "0 < n1" "2 * n1 \<le> n2"
  shows "\<exists>a b. calculateSpeedResolution double (Fin s) (Fin n1) (Fin f) = Fin a
             \<and> calculateSpeedResolution double (Fin s) (Fin n2) (Fin f) = Fin b
             \<and> 0 < a \<and> 0 \<le> b \<and> b \<le> a / 2"
proof -
  define c :: real where "c = 299792458"
  define g :: real where "g = 1000000000"
  define t where "t = roundReal 3.6"
  have c: "2 powi 28 \<le> c" "c \<le> 2 powi 29" "0 < c" by (simp_all add: c_def)
  have g: "2 powi 29 \<le> g" "g \<le> 2 powi 30" "0 < g" by (simp_all add: g_def)
  have t: "2 powi 1 \<le> t" "t \<le> 2 powi 2" "0 < t" using literal_36(2,3) by (simp_all add: t_def)
  from n have n2: "0 < n2" by simp
  from s(1) pow2_pos [of "- 400"] have q1: "0 < s / n1" by linarith
  with n(1) have spos: "0 < s" by (simp add: zero_less_divide_iff)
  have q2: "0 \<le> s / n2" using spos n2 by simp
  have "s / n2 \<le> s / (2 * n1)" using spos n by (intro divide_left_mono) simp_all
  then have q21: "s / n2 \<le> s / n1 / 2" by simp
  define r1 where "r1 = roundReal (s / n1)"
  define r2 where "r2 = roundReal (s / n2)"
  have r: "double (s / n1) = Fin r1" "double (s / n2) = Fin r2" "0 \<le> r2" "r2 \<le> r1 / 2"
    "2 powi (- 400) \<le> r1" "r1 \<le> 2 powi 400"
    unfolding r1_def r2_def by (rule halving_step [OF q2 q21 s]; simp)+
  have a_lo: "2 powi (- 372) \<le> r1 * c" by (rule pow2_mult_lower [OF _ r(5) c(1)]) simp
  have a_hi: "r1 * c \<le> 2 powi 429"
    using pow2_nonneg [OF r(5)] c(3) by (intro pow2_mult_upper [OF _ _ r(6) _ c(2)]) simp_all
  have a2: "0 \<le> r2 * c" using r(3) c(3) by simp
  have a21: "r2 * c \<le> r1 * c / 2" using mult_right_mono [OF r(4), of c] c(3) by simp
  define a1 where "a1 = roundReal (r1 * c)"
  define a2 where "a2 = roundReal (r2 * c)"
  have a: "double (r1 * c) = Fin a1" "double (r2 * c) = Fin a2" "0 \<le> a2" "a2 \<le> a1 / 2"
    "2 powi (- 372) \<le> a1" "a1 \<le> 2 powi 429"
    unfolding a1_def a2_def by (rule halving_step [OF a2 a21 a_lo a_hi]; simp)+
  have h_lo: "2 powi (- 371) \<le> f * g" by (rule pow2_mult_lower [OF _ f(1) g(1)]) simp
  have h_hi: "f * g \<le> 2 powi 430"
    using pow2_nonneg [OF f(1)] g(3) by (intro pow2_mult_upper [OF _ _ f(2) _ g(2)]) simp_all
  define h where "h = roundReal (f * g)"
  have h: "double (f * g) = Fin h" "2 powi (- 371) \<le> h" "h \<le> 2 powi 430"
    unfolding h_def by (rule double_between [OF _ _ h_lo h_hi]; simp)+
  have two: "2 powi 1 \<le> (2::real)" "(2::real) \<le> 2 powi 1" by simp_all
  have b_lo: "2 powi (- 370) \<le> 2 * h" by (rule pow2_mult_lower [OF _ two(1) h(2)]) simp
  have b_hi: "2 * h \<le> 2 powi 431"
    using pow2_nonneg [OF h(2)] by (intro pow2_mult_upper [OF _ _ two(2) _ h(3)]) simp_all
  define b where "b = roundReal (2 * h)"
  have b: "double (2 * h) = Fin b" "2 powi (- 370) \<le> b" "b \<le> 2 powi 431"
    unfolding b_def by (rule double_between [OF _ _ b_lo b_hi]; simp)+
  from b(2) pow2_pos [of "- 370"] have bpos: "0 < b" by linarith
  have v_lo: "2 powi (- 803) \<le> a1 / b" by (rule pow2_div_lower [OF _ a(5) bpos b(3)]) simp
  have v_hi: "a1 / b \<le> 2 powi 799"
    using pow2_nonneg [OF a(5)] by (intro pow2_div_upper [OF _ _ a(6) b(2)]) simp_all
  have v2: "0 \<le> a2 / b" using a(3) bpos by simp
  have v21: "a2 / b \<le> a1 / b / 2" using divide_right_mono [OF a(4), of b] bpos by simp
  define v1 where "v1 = roundReal (a1 / b)"
  define v2 where "v2 = roundReal (a2 / b)"
  have v: "double (a1 / b) = Fin v1" "double (a2 / b) = Fin v2" "0 \<le> v2" "v2 \<le> v1 / 2"
    "2 powi (- 803) \<le> v1" "v1 \<le> 2 powi 799"
    unfolding v1_def v2_def by (rule halving_step [OF v2 v21 v_lo v_hi]; simp)+
  have w_lo: "2 powi (- 802) \<le> v1 * t" by (rule pow2_mult_lower [OF _ v(5) t(1)]) simp
  have w_hi: "v1 * t \<le> 2 powi 801"
    using pow2_nonneg [OF v(5)] t(3) by (intro pow2_mult_upper [OF _ _ v(6) _ t(2)]) simp_all
  have w2: "0 \<le> v2 * t" using v(3) t(3) by simp
  have w21: "v2 * t \<le> v1 * t / 2" using mult_right_mono [OF v(4), of t] t(3) by simp
  define w1 where "w1 = roundReal (v1 * t)"
  define w2 where "w2 = roundReal (v2 * t)"
  have w: "double (v1 * t) = Fin w1" "double (v2 * t) = Fin w2" "0 \<le> w2" "w2 \<le> w1 / 2"
    "2 powi (- 802) \<le> w1"
    unfolding w1_def w2_def by (rule halving_step [OF w2 w21 w_lo w_hi]; simp)+
  from w(5) pow2_pos [of "- 802"] have w1pos: "0 < w1" by linarith
  from n(1) n2 have nz: "n1 \<noteq> 0" "n2 \<noteq> 0" by simp_all
  from bpos have bz: "(b = 0) = False" by simp
  have "calculateSpeedResolution double (Fin s) (Fin n1) (Fin f) = Fin w1"
    unfolding calculateSpeedResolution_double [OF nz(1)] c_def [symmetric] g_def [symmetric]
      t_def [symmetric]
    by (simp only: r a h b v w nmul.simps ndiv.simps bz if_False)
  moreover have "calculateSpeedResolution double (Fin s) (Fin n2) (Fin f) = Fin w2"
    unfolding calculateSpeedResolution_double [OF nz(2)] c_def [symmetric] g_def [symmetric]
      t_def [symmetric]
    by (simp only: r a h b v w nmul.simps ndiv.simps bz if_False)
  ultimately show ?thesis using w1pos w(3,4) by blast
qed

text \<open>The value of a rounding, from the grid around the exact result.\<close>

lemma double_eval:
  assumes "y = of_int n * 2 powi k" and "- 1074 \<le> k" and "k \<le> 970"
    and "2 powi (k + 52) \<le> \<bar>x\<bar>" and "\<bar>x\<bar> < 2 powi (k + 53)"
    and "\<bar>x / 2 powi k - of_int n\<bar> < 1 / 2"
  shows "double x = Fin y"
proof -
  from roundReal_eval [OF assms(2,4,5,6)] assms(1) have y: "roundReal x = y" by simp
  have "- 1074 \<le> k + 53" using assms(2) by simp
  moreover from assms(5) have "\<bar>x\<bar> \<le> 2 powi (k + 53)" by simp
  moreover have "k + 53 \<le> 1023" using assms(3) by simp
  ultimately have "double x = Fin (roundReal x)" by (intro double_le_pow(1)) simp_all
  with y show ?thesis by simp
qed

text \<open>
  C7, as the code has it. For a positive sample rate and carrier frequency, a larger
  \<open>fftSize\<close> never gives a larger speed resolution. When the frequency resolution
  \<open>sampleRate / fftSize1\<close> and the carrier frequency lie between \<open>2^-400\<close> and
  \<open>2^400\<close> and \<open>fftSize2\<close> is at least twice \<open>fftSize1\<close>, the resolution at
  \<open>fftSize2\<close> is strictly smaller.
\<close>

theorem speed_resolution_decreasing:
  assumes "0 < s" and "0 < f" and "0 < n1" and "n1 < n2"
  shows "\<not> ngt (calculateSpeedResolution double (Fin s) (Fin n2) (Fin f))
               (calculateSpeedResolution double (Fin s) (Fin n1) (Fin f))
       \<and> (2 powi (- 400) \<le> s / n1 \<and> s / n1 \<le> 2 powi 400
            \<and> 2 powi (- 400) \<le> f \<and> f \<le> 2 powi 400 \<and> 2 * n1 \<le> n2 \<longrightarrow>
          ngt (calculateSpeedResolution double (Fin s) (Fin n1) (Fin f))
              (calculateSpeedResolution double (Fin s) (Fin n2) (Fin f)))"
proof (intro conjI impI)
  show "\<not> ngt (calculateSpeedResolution double (Fin s) (Fin n2) (Fin f))
               (calculateSpeedResolution double (Fin s) (Fin n1) (Fin f))"
    by (rule speed_resolution_not_increasing [OF assms])
next
  assume "2 powi (- 400) \<le> s / n1 \<and> s / n1 \<le> 2 powi 400
            \<and> 2 powi (- 400) \<le> f \<and> f \<le> 2 powi 400 \<and> 2 * n1 \<le> n2"
  with speed_resolution_halves [of s n1 f n2] assms(3)
  obtain a b where "calculateSpeedResolution double (Fin s) (Fin n1) (Fin f) = Fin a"
    and "calculateSpeedResolution double (Fin s) (Fin n2) (Fin f) = Fin b"
    and "0 < a" and "0 \<le> b" and "b \<le> a / 2" by blast
  then show "ngt (calculateSpeedResolution double (Fin s) (Fin n1) (Fin f))
              (calculateSpeedResolution double (Fin s) (Fin n2) (Fin f))"
    by simp
qed

lemma pow2_high: "0 \<le> k \<Longrightarrow> (1::real) \<le> 2 powi k"
  using pow2_mono [of 0 k] by simp

theorem speed_resolution_decreasing_witness:
  "(0::real) < 44100 \<and> (0::real) < 24 \<and> (0::real) < 512 \<and> (512::real) < 1024
   \<and> 2 powi (- 400) \<le> (44100::real) / 512 \<and> (44100::real) / 512 \<le> 2 powi 400
   \<and> 2 powi (- 400) \<le> (24::real) \<and> (24::real) \<le> 2 powi 400 \<and> (2::real) * 512 \<le> 1024
   \<and> \<not> ngt (calculateSpeedResolution double (Fin 44100) (Fin 1024) (Fin 24))
             (calculateSpeedResolution double (Fin 44100) (Fin 512) (Fin 24))
   \<and> ngt (calculateSpeedResolution double (Fin 44100) (Fin 512) (Fin 24))
         (calculateSpeedResolution double (Fin 44100) (Fin 1024) (Fin 24))"
proof -
  have pos: "(0::real) < 44100" "(0::real) < 24" "(0::real) < 512" "(512::real) < 1024"
    by simp_all
  have r1: "2 powi (- 400) \<le> (44100::real) / 512" using pow2_low [of "- 400"] by simp
  have "(44100::real) / 512 \<le> 2 powi 7" by simp
  with pow2_mono [of 7 400] have r2: "(44100::real) / 512 \<le> 2 powi 400" by simp
  have f1: "2 powi (- 400) \<le> (24::real)" using pow2_low [of "- 400"] by simp
  have "(24::real) \<le> 2 powi 5" by simp
  with pow2_mono [of 5 400] have f2: "(24::real) \<le> 2 powi 400" by simp
  have n: "(2::real) * 512 \<le> 1024" by simp
  from speed_resolution_decreasing [OF pos] r1 r2 f1 f2 n
  have "\<not> ngt (calculateSpeedResolution double (Fin 44100) (Fin 1024) (Fin 24))
             (calculateSpeedResolution double (Fin 44100) (Fin 512) (Fin 24))"
    and "ngt (calculateSpeedResolution double (Fin 44100) (Fin 512) (Fin 24))
         (calculateSpeedResolution double (Fin 44100) (Fin 1024) (Fin 24))"
    by blast+
  with pos r1 r2 f1 f2 n show ?thesis by blast
qed

text \<open>
  C7 as stated fails in double arithmetic: at 44100 Hz and the carrier frequency
  24.15 GHz the sizes \<open>2^52 = 4503599627370496\<close> and \<open>2^52 + 1\<close> give the same
  speed resolution, about \<open>2.188 * 10^-13\<close> km/h.
\<close>

theorem speed_resolution_counterexample:
  "(0::real) < 4503599627370496 \<and> (4503599627370496::real) < 4503599627370497
   \<and> calculateSpeedResolution double (Fin 44100) (Fin 4503599627370496) (double 24.15)
     = Fin (270866002042233 / 1237940039285380274899124224)
   \<and> calculateSpeedResolution double (Fin 44100) (Fin 4503599627370497) (double 24.15)
     = Fin (270866002042233 / 1237940039285380274899124224)"
proof -
  have f: "double (24.15) = Fin (3398810343781171 / 140737488355328)"
    by (rule double_eval [of _ 6797620687562342 "- 48"]) simp_all
  have t: "double (3.6) = Fin (8106479329266893 / 2251799813685248)"
    by (rule double_eval [of _ 8106479329266893 "- 51"]) simp_all
  have h: "double ((3398810343781171 / 140737488355328) * 1000000000) = Fin 24150000000"
    by (rule double_eval [of _ 6330777600000000 "- 18"]) simp_all
  have b: "double (2 * 24150000000) = Fin 48300000000"
    by (rule double_eval [of _ 6330777600000000 "- 17"]) simp_all
  have r1: "double (44100 / 4503599627370496) = Fin (11025 / 1125899906842624)"
    by (rule double_eval [of _ 6061057848115200 "- 89"]) simp_all
  have a1: "double ((11025 / 1125899906842624) * 299792458) = Fin (1652605924725 / 562949953421312)"
    by (rule double_eval [of _ 6769073867673600 "- 61"]) simp_all
  have v1: "double ((1652605924725 / 562949953421312) / 48300000000) = Fin (150481112245685 / 2475880078570760549798248448)"
    by (rule double_eval [of _ 4815395591861920 "- 96"]) simp_all
  have w1: "double ((150481112245685 / 2475880078570760549798248448) * (8106479329266893 / 2251799813685248)) = Fin (270866002042233 / 1237940039285380274899124224)"
    by (rule double_eval [of _ 8667712065351456 "- 95"]) simp_all
  have r2: "double (44100 / 4503599627370497) = Fin (6061057848115199 / 618970019642690137449562112)"
    by (rule double_eval [of _ 6061057848115199 "- 89"]) simp_all
  have a2: "double ((6061057848115199 / 618970019642690137449562112) * 299792458) = Fin (6769073867673599 / 2305843009213693952)"
    by (rule double_eval [of _ 6769073867673599 "- 61"]) simp_all
  have v2: "double ((6769073867673599 / 2305843009213693952) / 48300000000) = Fin (150481112245685 / 2475880078570760549798248448)"
    by (rule double_eval [of _ 4815395591861920 "- 96"]) simp_all
  have nz: "(4503599627370496::real) \<noteq> 0" "(4503599627370497::real) \<noteq> 0" by simp_all
  have bz: "((48300000000::real) = 0) = False" by simp
  have t': "roundReal 3.6 = 8106479329266893 / 2251799813685248"
    using t by (simp only: literal_36(1) number.inject)
  have "calculateSpeedResolution double (Fin 44100) (Fin 4503599627370496) (double 24.15)
     = Fin (270866002042233 / 1237940039285380274899124224)"
    by (simp only: f calculateSpeedResolution_double [OF nz(1)] nmul.simps ndiv.simps
        r1 a1 h b bz if_False v1 t' w1)
  moreover have "calculateSpeedResolution double (Fin 44100) (Fin 4503599627370497) (double 24.15)
     = Fin (270866002042233 / 1237940039285380274899124224)"
    by (simp only: f calculateSpeedResolution_double [OF nz(2)] nmul.simps ndiv.simps
        r2 a2 h b bz if_False v2 t' w1)
  ultimately show ?thesis by simp
qed

section \<open>The amplitude updates\<close>

text \<open>
  An update of \<open>amp\<close> leaves the index, the frequency and the speed of every bin, and
  the number of bins, as they are.
\<close>

lemma map_update_same:
  "f y = f (xs ! k) \<Longrightarrow> map f (xs[k := y]) = map f xs"
  by (induction xs arbitrary: k) (auto split: nat.splits)

lemma addAmp_grid:
  assumes "addAmp fl data i v = Inr data'"
  shows "map (\<lambda>d. (binIndex d, freq d, speed d)) data'
       = map (\<lambda>d. (binIndex d, freq d, speed d)) data"
proof (cases i)
  case (Fin a)
  let ?k = "nat \<lfloor>a\<rfloor>"
  from assms Fin have "data' = data[?k := (data ! ?k)\<lparr>amp := nadd fl (amp (data ! ?k)) v\<rparr>]"
    by (simp add: addAmp_def split: if_splits)
  then show ?thesis by (simp add: map_update_same)
qed (use assms in \<open>simp_all add: addAmp_def\<close>)

lemma addAmp_length: "addAmp fl data i v = Inr data' \<Longrightarrow> length data' = length data"
  by (cases i) (auto simp: addAmp_def split: if_splits)

lemma addAmp_in_range:
  assumes "0 \<le> b" and "b < int (length data)"
  shows "\<exists>data'. addAmp fl data (Fin (of_int b)) v = Inr data'"
proof -
  from assms have "real_of_int b < real (length data)" by linarith
  with assms show ?thesis by (simp add: addAmp_def)
qed

lemma addAmp_out_of_range:
  "real (length data) \<le> a \<Longrightarrow> addAmp fl data (Fin a) v = Inl TypeError"
  by (simp add: addAmp_def)

lemma addAmp_nat:
  "k < length data \<Longrightarrow>
     addAmp fl data (Fin (real k)) v
       = Inr (data[k := (data ! k)\<lparr>amp := nadd fl (amp (data ! k)) v\<rparr>])"
  by (simp add: addAmp_def)

lemma nround_shape: "nround x = Fin a \<Longrightarrow> \<exists>b::int. a = of_int b"
  by (cases x) auto

lemma targetBinIndex_shape:
  "targetBinIndex fl rp freqRes car = Some (Fin a) \<Longrightarrow> \<exists>b::int. a = of_int b"
  by (auto simp: targetBinIndex_def Let_def nround_shape split: option.splits)

lemma double_int_step:
  assumes "\<bar>b\<bar> < 2 ^ 32"
  shows "nsub double (Fin (of_int b)) (Fin 1) = Fin (of_int (b - 1))"
    and "nadd double (Fin (of_int b)) (Fin 1) = Fin (of_int (b + 1))"
proof -
  from assms have "\<bar>b - 1\<bar> < 2 ^ 53" "\<bar>b + 1\<bar> < 2 ^ 53" by simp_all
  from double_of_int [OF this(1)] double_of_int [OF this(2)]
  show "nsub double (Fin (of_int b)) (Fin 1) = Fin (of_int (b - 1))"
    and "nadd double (Fin (of_int b)) (Fin 1) = Fin (of_int (b + 1))"
    by (simp_all add: nsub_def)
qed

lemma addSignal_no_throw:
  assumes nb: "numBins = Fin (real (length data))" and len: "length data < 2 ^ 32"
  shows "addSignal double rp numBins freqRes data car \<noteq> Some (Inl e)"
proof (cases "ngt (speedKmh car) (Fin 0)")
  case False
  then show ?thesis by (simp add: addSignal_def)
next
  case moving: True
  show ?thesis
  proof (cases "targetBinIndex double rp freqRes car")
    case None
    with moving show ?thesis by (simp add: addSignal_def)
  next
    case (Some bi)
    show ?thesis
    proof (cases "nge bi (Fin 0) \<and> nlt bi numBins")
      case False
      with moving Some show ?thesis by (auto simp: addSignal_def)
    next
      case guard: True
      then obtain a where bi: "bi = Fin a" by (cases bi) (simp_all add: nge_def nlt_def nb)
      from targetBinIndex_shape Some bi obtain b :: int where a: "a = of_int b" by blast
      from guard bi a nb have lo: "0 \<le> b" and hi: "b < int (length data)"
        by (auto simp: nge_def nlt_def)
      from lo hi len have small: "\<bar>b\<bar> < 2 ^ 32" by simp
      have "\<bar>int (length data)\<bar> < 2 ^ 32" using len by simp
      from double_int_step(1) [OF this]
      have last: "nsub double numBins (Fin 1) = Fin (real (length data) - 1)"
        by (simp add: nb)
      from addAmp_in_range [OF lo hi] bi a obtain data1
        where d1: "addAmp double data bi (Fin 100) = Inr data1" by blast
      have l1: "length data1 = length data" by (rule addAmp_length [OF d1])
      have "\<exists>data2. (if ngt bi (Fin 0) then addAmp double data1 (nsub double bi (Fin 1)) (Fin 30)
                     else Inr data1) = Inr data2 \<and> length data2 = length data"
      proof (cases "ngt bi (Fin 0)")
        case True
        with bi a have "0 \<le> b - 1" by simp
        moreover from hi l1 have "b - 1 < int (length data1)" by simp
        ultimately obtain data2
          where d2: "addAmp double data1 (Fin (of_int (b - 1))) (Fin 30) = Inr data2"
          using addAmp_in_range by blast
        from addAmp_length [OF d2] l1 have "length data2 = length data" by simp
        with True d2 show ?thesis by (simp only: bi a double_int_step(1) [OF small] if_True) simp
      next
        case False
        with l1 show ?thesis by simp
      qed
      then obtain data2
        where d2: "(if ngt bi (Fin 0) then addAmp double data1 (nsub double bi (Fin 1)) (Fin 30)
          else Inr data1) = Inr data2" and l2: "length data2 = length data" by blast
      have "\<exists>data3. (if nlt bi (nsub double numBins (Fin 1))
                     then addAmp double data2 (nadd double bi (Fin 1)) (Fin 30)
                     else Inr data2) = Inr data3"
      proof (cases "nlt bi (nsub double numBins (Fin 1))")
        case True
        with bi a last have "real_of_int b < real (length data) - 1" by (simp add: nlt_def)
        then have "b + 1 < int (length data2)" using l2 by linarith
        moreover from lo have "0 \<le> b + 1" by simp
        ultimately obtain data3
          where "addAmp double data2 (Fin (of_int (b + 1))) (Fin 30) = Inr data3"
          using addAmp_in_range by blast
        with True show ?thesis by (simp only: bi a double_int_step(2) [OF small] if_True) simp
      next
        case False
        then show ?thesis by simp
      qed
      then obtain data3 where d3: "(if nlt bi (nsub double numBins (Fin 1))
          then addAmp double data2 (nadd double bi (Fin 1)) (Fin 30) else Inr data2) = Inr data3"
        by blast
      show ?thesis
        by (simp only: addSignal_def moving Some guard d1 d2 d3 if_True option.case sum.case)
           simp
    qed
  qed
qed

lemma guarded_addAmp_grid:
  "(if c then addAmp fl data i v else Inr data) = Inr data' \<Longrightarrow>
     map (\<lambda>d. (binIndex d, freq d, speed d)) data'
       = map (\<lambda>d. (binIndex d, freq d, speed d)) data"
  by (cases c) (simp_all add: addAmp_grid)

lemma addSignal_grid:
  assumes res: "addSignal fl rp numBins freqRes data car = Some (Inr data')"
  shows "map (\<lambda>d. (binIndex d, freq d, speed d)) data'
       = map (\<lambda>d. (binIndex d, freq d, speed d)) data"
proof (cases "ngt (speedKmh car) (Fin 0)")
  case False
  with res show ?thesis by (simp add: addSignal_def)
next
  case moving: True
  show ?thesis
  proof (cases "targetBinIndex fl rp freqRes car")
    case None
    with res moving show ?thesis by (simp add: addSignal_def)
  next
    case (Some bi)
    show ?thesis
    proof (cases "nge bi (Fin 0) \<and> nlt bi numBins")
      case False
      with res moving Some show ?thesis by (auto simp: addSignal_def)
    next
      case guard: True
      let ?second = "\<lambda>data1. if ngt bi (Fin 0) then addAmp fl data1 (nsub fl bi (Fin 1)) (Fin 30)
                              else Inr data1"
      let ?third = "\<lambda>data2. if nlt bi (nsub fl numBins (Fin 1))
                              then addAmp fl data2 (nadd fl bi (Fin 1)) (Fin 30) else Inr data2"
      have unfolded: "addSignal fl rp numBins freqRes data car =
          (case addAmp fl data bi (Fin 100) of
             Inl e \<Rightarrow> Some (Inl e)
           | Inr data1 \<Rightarrow>
               (case ?second data1 of
                  Inl e \<Rightarrow> Some (Inl e)
                | Inr data2 \<Rightarrow> Some (?third data2)))"
        by (simp only: addSignal_def moving Some guard if_True option.case simp_thms)
      from res unfolded obtain data1 where d1: "addAmp fl data bi (Fin 100) = Inr data1"
        by (cases "addAmp fl data bi (Fin 100)") simp_all
      from res unfolded d1 obtain data2 where d2: "?second data1 = Inr data2"
        by (cases "?second data1") simp_all
      from res unfolded d1 d2 have d3: "?third data2 = Inr data'"
        by (simp only: sum.case option.inject)
      from guarded_addAmp_grid [OF d3] guarded_addAmp_grid [OF d2] addAmp_grid [OF d1]
      show ?thesis by simp
    qed
  qed
qed

text \<open>
  The configurations and cars for which the aliasing loop is shown to end: a carrier
  frequency from 0 to \<open>2^20\<close> GHz, a sample rate that is a double of at least 1 Hz,
  and a speed of at most \<open>2^20\<close> km/h.
\<close>

lemma sample_rate_facts:
  assumes "isDouble s" and "1 \<le> s"
  shows "2 powi (- 1021) \<le> s" and "ndiv double (Fin s) (Fin 2) = Fin (s / 2)"
    and "isDouble (s / 2)"
proof -
  from pow2_low [of "- 1021"] assms(2) show low: "2 powi (- 1021) \<le> s" by simp
  from half_double [OF assms(1) low] show "ndiv double (Fin s) (Fin 2) = Fin (s / 2)" .
  from isDouble_half [OF assms(1) low] show "isDouble (s / 2)" .
qed

lemma targetBinIndex_valid:
  assumes "frequencyGHz rp = Fin f" and "0 \<le> f" and "f \<le> 2 ^ 20"
    and "basebandSampleRateHz rp = Fin s" and "isDouble s" and "1 \<le> s"
    and "speedKmh car = Fin v" and "0 \<le> v" and "v \<le> 2 ^ 20"
  shows "\<exists>y. targetBinIndex double rp freqRes car = Some (nround (ndiv double (Fin y) freqRes))
             \<and> 0 \<le> y \<and> y \<le> s / 2"
proof -
  from shift_bounded [OF assms(8,9,2,3)] obtain d
    where d: "calculateDopplerShift double (Fin v) (Fin f) (Fin 0) = Fin d"
      and d0: "0 \<le> d" and d1: "d \<le> 2 ^ 42" and dd: "isDouble d" by blast
  from assms(6) have pos: "0 < s" by simp
  have "(2::real) ^ 42 \<le> 2 ^ 52 * 1" by simp
  also have "\<dots> \<le> 2 ^ 52 * s" using assms(6) by (intro mult_left_mono) simp_all
  finally have "d \<le> 2 ^ 52 * s" using d1 by simp
  from aliasWrap_double_returns [OF pos sample_rate_facts(3) [OF assms(5,6)] dd this d0 order_refl]
  obtain y where y: "aliasWrap double (Fin s) (Fin (s / 2)) (Fin d) = Some (Fin y)"
    "0 \<le> y" "y \<le> s / 2" by blast
  from d0 have "nabs (Fin d) = Fin d" by simp
  then have "targetBinIndex double rp freqRes car = Some (nround (ndiv double (Fin y) freqRes))"
    by (simp only: targetBinIndex_def Let_def assms(1,4,7) d sample_rate_facts(2) [OF assms(5,6)]
        y(1) option.case)
  with y(2,3) show ?thesis by blast
qed

text \<open>A car is within range when its speed is not above \<open>2^20\<close> km/h.\<close>

lemma addSignal_returns:
  assumes "frequencyGHz rp = Fin f" and "0 \<le> f" and "f \<le> 2 ^ 20"
    and "basebandSampleRateHz rp = Fin s" and "isDouble s" and "1 \<le> s"
    and car: "\<not> ngt (speedKmh car) (Fin (2 ^ 20))"
    and nb: "numBins = Fin (real (length data))" and len: "length data < 2 ^ 32"
  shows "\<exists>data'. addSignal double rp numBins freqRes data car = Some (Inr data')"
proof (cases "ngt (speedKmh car) (Fin 0)")
  case False
  then show ?thesis by (simp add: addSignal_def)
next
  case True
  with car obtain v where v: "speedKmh car = Fin v" "0 \<le> v" "v \<le> 2 ^ 20"
    by (cases "speedKmh car") simp_all
  from targetBinIndex_valid [OF assms(1-6) v] obtain bi
    where bi: "targetBinIndex double rp freqRes car = Some bi" by blast
  have "addSignal double rp numBins freqRes data car \<noteq> None"
    by (simp add: addSignal_def bi split: sum.splits)
  then obtain r where r: "addSignal double rp numBins freqRes data car = Some r" by blast
  with addSignal_no_throw [OF nb len] show ?thesis by (cases r) auto
qed

lemma forEachCar_grid:
  "forEachCar fl rp numBins freqRes cs data = Some (Inr data') \<Longrightarrow>
     map (\<lambda>d. (binIndex d, freq d, speed d)) data'
       = map (\<lambda>d. (binIndex d, freq d, speed d)) data"
proof (induction cs arbitrary: data)
  case Nil
  then show ?case by simp
next
  case (Cons car cs)
  from Cons.prems obtain data1
    where step: "addSignal fl rp numBins freqRes data car = Some (Inr data1)"
      and rest: "forEachCar fl rp numBins freqRes cs data1 = Some (Inr data')"
    by (auto split: option.splits sum.splits)
  from Cons.IH [OF rest] addSignal_grid [OF step] show ?case by simp
qed

lemma grid_length:
  "map (\<lambda>d. (binIndex d, freq d, speed d)) xs = map (\<lambda>d. (binIndex d, freq d, speed d)) ys
     \<Longrightarrow> length xs = length ys"
  by (rule map_eq_imp_length_eq)

lemma forEachCar_returns:
  assumes "frequencyGHz rp = Fin f" and "0 \<le> f" and "f \<le> 2 ^ 20"
    and "basebandSampleRateHz rp = Fin s" and "isDouble s" and "1 \<le> s"
  shows "\<forall>c\<in>set cs. \<not> ngt (speedKmh c) (Fin (2 ^ 20)) \<Longrightarrow>
         numBins = Fin (real (length data)) \<Longrightarrow> length data < 2 ^ 32 \<Longrightarrow>
           \<exists>data'. forEachCar double rp numBins freqRes cs data = Some (Inr data')"
proof (induction cs arbitrary: data)
  case Nil
  then show ?case by simp
next
  case (Cons car cs)
  from Cons.prems have car: "\<not> ngt (speedKmh car) (Fin (2 ^ 20))" by simp
  from addSignal_returns [OF assms car Cons.prems(2,3)] obtain data1
    where step: "addSignal double rp numBins freqRes data car = Some (Inr data1)" by blast
  have l: "length data1 = length data" by (rule grid_length [OF addSignal_grid [OF step]])
  with Cons.prems have "numBins = Fin (real (length data1))" and "length data1 < 2 ^ 32"
    by simp_all
  moreover from Cons.prems have "\<forall>c\<in>set cs. \<not> ngt (speedKmh c) (Fin (2 ^ 20))" by simp
  ultimately obtain data' where "forEachCar double rp numBins freqRes cs data1 = Some (Inr data')"
    using Cons.IH by blast
  with step show ?case by simp
qed

section \<open>The bin of a target\<close>

lemma roundReal_rel_lower:
  assumes "2 powi (- 1022) \<le> x"
  shows "x * (1 - 1 / 2 ^ 53) \<le> roundReal x"
proof -
  from assms pow2_pos [of "- 1022"] have abs: "\<bar>x\<bar> = x" by simp
  with assms have "2 powi (- 1022) \<le> \<bar>x\<bar>" by simp
  from ulpExp_lower [OF this] abs have "2 powi (ulpExp x + 52) \<le> x" by simp
  then have "2 powi ulpExp x * 2 powi 52 \<le> x" by (simp only: pow2_split)
  then have "2 powi ulpExp x * 2 ^ 52 \<le> x" by simp
  then have "2 powi ulpExp x / 2 \<le> x / 2 ^ 53" by simp
  with roundReal_error [of x] have "x - x / 2 ^ 53 \<le> roundReal x" by linarith
  then show ?thesis by (simp add: algebra_simps)
qed

lemma exactBin_bound:
  assumes "isDouble s" and "1 \<le> s" and "0 < k" and "k < 2 ^ 32" and "0 \<le> y" and "y \<le> s / 2"
  shows "\<exists>q. ndiv double (Fin y) (ndiv double (Fin s) (Fin (real k))) = Fin q
           \<and> 0 \<le> q \<and> q \<le> real k / 2 + 1 / 4"
proof -
  define x where "x = s / real k"
  define fr where "fr = roundReal x"
  define c where "c = real k / 2 + 1 / 4"
  from assms(3) have k1: "1 \<le> real k" by simp
  from assms(4) have k32: "real k \<le> 2 ^ 32" by simp
  from assms(2) have spos: "0 < s" by simp
  have xk: "x * real k = s" using assms(3) by (simp add: x_def)
  have xpos: "0 < x" using spos assms(3) by (simp add: x_def)
  have "x \<le> s" using k1 spos by (simp add: x_def field_simps)
  with xpos have "\<bar>x\<bar> \<le> s" by simp
  from double_abs_le_isDouble(1) [OF assms(1) this]
  have fr: "double x = Fin fr" by (simp only: fr_def)
  have "1 \<le> x * 2 ^ 32"
  proof -
    have "s \<le> x * 2 ^ 32" using mult_left_mono [OF k32, of x] xpos xk by simp
    with assms(2) show ?thesis by simp
  qed
  then have "1 / 2 ^ 32 \<le> x" by (simp add: field_simps)
  moreover have "(2::real) powi (- 1022) \<le> 2 powi (- 32)" by (intro pow2_mono) simp
  ultimately have "2 powi (- 1022) \<le> x" by (simp add: power_int_minus field_simps)
  from roundReal_rel_lower [OF this] have rel: "x * (1 - 1 / 2 ^ 53) \<le> fr"
    by (simp only: fr_def)
  with xpos have frpos: "0 < fr"
  proof -
    have "0 < x * (1 - 1 / 2 ^ 53)" using xpos by (intro mult_pos_pos) simp_all
    with rel show ?thesis by linarith
  qed
  have cpos: "0 < c" using k1 by (simp add: c_def)
  have "real k / 2 \<le> c * (1 - 1 / 2 ^ 53)"
    using k32 by (simp add: c_def algebra_simps)
  then have "x * (real k / 2) \<le> x * (c * (1 - 1 / 2 ^ 53))"
    using xpos by (intro mult_left_mono) simp_all
  also have "\<dots> = c * (x * (1 - 1 / 2 ^ 53))" by simp
  also have "\<dots> \<le> c * fr" using rel cpos by (intro mult_left_mono) simp_all
  finally have "s / 2 \<le> c * fr" using xk by (simp add: algebra_simps)
  with assms(6) have "y \<le> c * fr" by simp
  then have le: "y / fr \<le> c" using frpos by (simp add: pos_divide_le_eq)
  have nonneg: "0 \<le> y / fr" using assms(5) frpos by simp
  have "c = of_int (2 * int k + 1) * 2 powi (- 2)" by (simp add: c_def power_int_minus field_simps)
  moreover have "double (of_int (2 * int k + 1) * 2 powi (- 2))
      = Fin (of_int (2 * int k + 1) * 2 powi (- 2))"
    using assms(4) by (intro double_dyadic) simp_all
  ultimately have "isDouble c" by (simp only: isDouble_def)
  moreover from le nonneg have "\<bar>y / fr\<bar> \<le> c" by (simp only: abs_of_nonneg)
  ultimately have "double (y / fr) = Fin (roundReal (y / fr))" and "\<bar>roundReal (y / fr)\<bar> \<le> c"
    by (rule double_abs_le_isDouble)+
  then have "double (y / fr) = Fin (roundReal (y / fr))" and "roundReal (y / fr) \<le> c"
    by linarith+
  moreover from roundReal_nonneg [OF nonneg] have "0 \<le> roundReal (y / fr)" .
  moreover have "ndiv double (Fin y) (ndiv double (Fin s) (Fin (real k))) = double (y / fr)"
    using assms(3) frpos by (simp add: fr x_def [symmetric])
  ultimately show ?thesis by (simp add: c_def)
qed

lemma addSignal_skip:
  assumes "targetBinIndex fl rp freqRes car = Some bi" and "\<not> nlt bi numBins"
  shows "addSignal fl rp numBins freqRes data car = Some (Inr data)"
  using assms by (simp add: addSignal_def)

text \<open>
  C4, as the code has it. For a carrier frequency of at most \<open>2^20\<close> GHz, a sample
  rate that is a double of at least 1 Hz, a positive integer \<open>fftSize\<close> below \<open>2^32\<close>
  and a target with a speed above 0 and of at most \<open>2^20\<close> km/h, the aliasing loop
  ends and the rounded bin index is an integer from 0 to \<open>fftSize / 2\<close> rounded up,
  both ends included. When the index is not below \<open>numBins = fftSize / 2\<close>, the guard
  \<open>binIndex < numBins\<close> skips the target: the bins are left as they are.
\<close>

theorem target_bin_range:
  assumes "frequencyGHz rp = Fin f" and "0 < f" and "f \<le> 2 ^ 20"
    and "basebandSampleRateHz rp = Fin s" and "isDouble s" and "1 \<le> s"
    and "fftSize rp = Fin (real k)" and "0 < k" and "k < 2 ^ 32"
    and "speedKmh car = Fin v" and "0 < v" and "v \<le> 2 ^ 20"
  shows "\<exists>b::int.
           targetBinIndex double rp (ndiv double (basebandSampleRateHz rp) (fftSize rp)) car
             = Some (Fin (of_int b))
         \<and> 0 \<le> b \<and> b \<le> (int k + 1) div 2
         \<and> (\<not> nlt (Fin (of_int b)) (ndiv double (fftSize rp) (Fin 2)) \<longrightarrow>
              addSignal double rp (ndiv double (fftSize rp) (Fin 2))
                (ndiv double (basebandSampleRateHz rp) (fftSize rp)) data car
                = Some (Inr data))"
proof -
  let ?freqRes = "ndiv double (Fin s) (Fin (real k))"
  from assms(2,11) have f0: "0 \<le> f" and v0: "0 \<le> v" by simp_all
  from targetBinIndex_valid [OF assms(1) f0 assms(3-6,10) v0 assms(12)] obtain y
    where bin: "targetBinIndex double rp ?freqRes car = Some (nround (ndiv double (Fin y) ?freqRes))"
      and y: "0 \<le> y" "y \<le> s / 2"
    by blast
  from exactBin_bound [OF assms(5,6,8,9) y] obtain q
    where q: "ndiv double (Fin y) ?freqRes = Fin q" "0 \<le> q" "q \<le> real k / 2 + 1 / 4" by blast
  define b where "b = \<lfloor>q + 1 / 2\<rfloor>"
  have idx: "targetBinIndex double rp ?freqRes car = Some (Fin (of_int b))"
    by (simp only: bin q(1) b_def nround.simps)
  have lo: "0 \<le> b" using q(2) by (simp add: b_def)
  have "of_int b \<le> q + 1 / 2" by (simp add: b_def)
  with q(3) have "2 * real_of_int b \<le> real k + 3 / 2" by simp
  then have "real_of_int (2 * b) < real_of_int (int k + 2)" by simp
  then have "2 * b < int k + 2" by (simp only: of_int_less_iff)
  then have hi: "b \<le> (int k + 1) div 2" by simp
  have skip: "addSignal double rp (ndiv double (Fin (real k)) (Fin 2)) ?freqRes data car
      = Some (Inr data)" if "\<not> nlt (Fin (of_int b)) (ndiv double (Fin (real k)) (Fin 2))"
    using addSignal_skip [OF idx that] .
  from idx lo hi skip show ?thesis by (simp only: assms(4,7)) blast
qed

text \<open>The bin of a car at 493 km/h under the initial parameters.\<close>

lemma targetBinIndex_493:
  "targetBinIndex double (initialRadarParams double) (ndiv double (Fin 44100) (Fin 512))
     \<lparr>carId = Fin 0, xPos = Fin 0, lane = Fin 0, color = ''#ef4444'', speedKmh = Fin 493\<rparr>
     = Some (Fin 256)"
proof -
  have f: "double (24.15) = Fin (3398810343781171 / 140737488355328)"
    by (rule double_eval [of _ "6797620687562342" "- 48"]) simp_all
  have t: "double (3.6) = Fin (8106479329266893 / 2251799813685248)"
    by (rule double_eval [of _ "8106479329266893" "- 51"]) simp_all
  have y1: "double (493 / (8106479329266893 / 2251799813685248)) = Fin (4818304288831715 / 35184372088832)"
    by (rule double_eval [of _ "4818304288831715" "- 45"]) simp_all
  have y2: "double (2 * (4818304288831715 / 35184372088832)) = Fin (4818304288831715 / 17592186044416)"
    by (rule double_eval [of _ "4818304288831715" "- 44"]) simp_all
  have h: "double ((3398810343781171 / 140737488355328) * 1000000000) = Fin 24150000000"
    by (rule double_eval [of _ "6330777600000000" "- 18"]) simp_all
  have y4: "double ((4818304288831715 / 17592186044416) * 24150000000) = Fin (3386581333333333 / 512)"
    by (rule double_eval [of _ "6773162666666666" "- 10"]) simp_all
  have y5: "double ((3386581333333333 / 512) * 1) = Fin (3386581333333333 / 512)"
    by (rule double_eval [of _ "6773162666666666" "- 10"]) simp_all
  have d: "double ((3386581333333333 / 512) / 299792458) = Fin (758089872039427 / 34359738368)"
    by (rule double_eval [of _ "6064718976315416" "- 38"]) simp_all
  have mf: "double (44100 / 2) = Fin 22050"
    by (rule double_eval [of _ "6061057848115200" "- 38"]) simp_all
  have e1: "double ((758089872039427 / 34359738368) + - 44100) = Fin (- (757174589989373 / 34359738368))"
    by (rule double_eval [of _ "- 6057396719914984" "- 38"]) simp_all
  have fr: "double (44100 / 512) = Fin (11025 / 128)"
    by (rule double_eval [of _ "6061057848115200" "- 46"]) simp_all
  have q: "double ((757174589989373 / 34359738368) / (11025 / 128)) = Fin (9001758535971619 / 35184372088832)"
    by (rule double_eval [of _ "9001758535971619" "- 45"]) simp_all
  have t': "roundReal 3.6 = 8106479329266893 / 2251799813685248"
    using t by (simp only: literal_36(1) number.inject)
  have nz: "((299792458::real) = 0) = False" "((2::real) = 0) = False" "((512::real) = 0) = False"
    "((11025 / 128 :: real) = 0) = False"
    "((8106479329266893 / 2251799813685248 :: real) = 0) = False"
    by simp_all
  have shift: "calculateDopplerShift double (Fin 493) (Fin (3398810343781171 / 140737488355328))
      (Fin 0) = Fin (758089872039427 / 34359738368)"
    by (simp only: calculateDopplerShift_double t' C_def nmul.simps ndiv.simps nz if_False
        y1 y2 h y4 y5 d)
  have gt: "ngt (Fin (758089872039427 / 34359738368)) (Fin 22050) = True"
    "ngt (Fin (757174589989373 / 34359738368)) (Fin 22050) = False"
    by simp_all
  have ab: "nabs (Fin (758089872039427 / 34359738368)) = Fin (758089872039427 / 34359738368)"
    "nabs (Fin (- (757174589989373 / 34359738368))) = Fin (757174589989373 / 34359738368)"
    by simp_all
  have stop: "aliasWrap double (Fin 44100) (Fin 22050) (Fin (757174589989373 / 34359738368))
      = Some (Fin (757174589989373 / 34359738368))"
    by (subst aliasWrap.simps) (simp only: gt if_False)
  have wrap: "aliasWrap double (Fin 44100) (Fin 22050) (Fin (758089872039427 / 34359738368))
      = Some (Fin (757174589989373 / 34359738368))"
    by (subst aliasWrap.simps)
       (simp only: gt if_True nsub_def nneg.simps nadd.simps e1 ab stop)
  have rnd: "nround (Fin (9001758535971619 / 35184372088832)) = Fin 256" by simp
  show ?thesis
    by (simp only: targetBinIndex_def Let_def initial_fields f Car.simps shift ab
        ndiv.simps nz if_False mf wrap option.case fr q rnd)
qed

theorem target_bin_range_witness:
  "frequencyGHz (initialRadarParams double) = Fin (roundReal 24.15)
   \<and> 0 < roundReal 24.15 \<and> roundReal 24.15 \<le> 2 ^ 20
   \<and> basebandSampleRateHz (initialRadarParams double) = Fin 44100
   \<and> isDouble 44100 \<and> (1::real) \<le> 44100
   \<and> fftSize (initialRadarParams double) = Fin (real (512::nat))
   \<and> (0::nat) < 512 \<and> (512::nat) < 2 ^ 32
   \<and> speedKmh \<lparr>carId = Fin 0, xPos = Fin 0, lane = Fin 0, color = ''#ef4444'',
                 speedKmh = Fin 493\<rparr> = Fin 493
   \<and> (0::real) < 493 \<and> (493::real) \<le> 2 ^ 20
   \<and> targetBinIndex double (initialRadarParams double)
        (ndiv double (basebandSampleRateHz (initialRadarParams double))
           (fftSize (initialRadarParams double)))
        \<lparr>carId = Fin 0, xPos = Fin 0, lane = Fin 0, color = ''#ef4444'', speedKmh = Fin 493\<rparr>
       = Some (Fin 256)
   \<and> (256::int) \<le> (int 512 + 1) div 2
   \<and> addSignal double (initialRadarParams double)
        (ndiv double (fftSize (initialRadarParams double)) (Fin 2))
        (ndiv double (basebandSampleRateHz (initialRadarParams double))
           (fftSize (initialRadarParams double)))
        [] \<lparr>carId = Fin 0, xPos = Fin 0, lane = Fin 0, color = ''#ef4444'', speedKmh = Fin 493\<rparr>
       = Some (Inr [])"
proof -
  let ?rp = "initialRadarParams double"
  let ?car = "\<lparr>carId = Fin 0, xPos = Fin 0, lane = Fin 0, color = ''#ef4444'',
               speedKmh = Fin 493\<rparr>"
  have f1: "frequencyGHz ?rp = Fin (roundReal 24.15)"
    by (simp only: initial_fields literal_2415(1))
  have f2: "0 < roundReal 24.15" "roundReal 24.15 \<le> 2 ^ 20"
    using literal_2415(2,3) by simp_all
  note f = f1 f2
  have s: "basebandSampleRateHz ?rp = Fin 44100" "isDouble 44100" "(1::real) \<le> 44100"
    by (simp_all add: initial_fields isDouble_44100)
  have n: "fftSize ?rp = Fin (real (512::nat))" "(0::nat) < 512" "(512::nat) < 2 ^ 32"
    by (simp_all add: initial_fields)
  have car: "speedKmh ?car = Fin 493" "(0::real) < 493" "(493::real) \<le> 2 ^ 20" by simp_all
  have half: "ndiv double (fftSize ?rp) (Fin 2) = Fin 256"
    using double_of_int [of 256] by (simp add: initial_fields)
  have at: "targetBinIndex double ?rp (ndiv double (basebandSampleRateHz ?rp) (fftSize ?rp)) ?car
      = Some (Fin 256)"
    using targetBinIndex_493 by (simp only: initial_fields)
  from target_bin_range [OF f s n car, of "[]"] obtain b :: int
    where b: "targetBinIndex double ?rp (ndiv double (basebandSampleRateHz ?rp) (fftSize ?rp)) ?car
        = Some (Fin (of_int b))"
      and hi: "b \<le> (int 512 + 1) div 2"
      and skip: "\<not> nlt (Fin (of_int b)) (ndiv double (fftSize ?rp) (Fin 2)) \<longrightarrow>
          addSignal double ?rp (ndiv double (fftSize ?rp) (Fin 2))
            (ndiv double (basebandSampleRateHz ?rp) (fftSize ?rp)) [] ?car = Some (Inr [])"
    by blast
  from b at have "real_of_int b = 256" by simp
  then have b256: "b = 256" by linarith
  with hi have "(256::int) \<le> (int 512 + 1) div 2" by simp
  moreover from skip have "addSignal double ?rp (ndiv double (fftSize ?rp) (Fin 2))
      (ndiv double (basebandSampleRateHz ?rp) (fftSize ?rp)) [] ?car = Some (Inr [])"
    by (simp add: b256 half nlt_def)
  ultimately show ?thesis using f s n car at by blast
qed

text \<open>
  C4 as stated fails: under the initial parameters a car at 493 km/h falls on bin 256,
  which is \<open>fftSize / 2\<close> itself and so not below it.
\<close>

theorem target_bin_range_counterexample:
  "targetBinIndex double (initialRadarParams double) (ndiv double (Fin 44100) (Fin 512))
     \<lparr>carId = Fin 0, xPos = Fin 0, lane = Fin 0, color = ''#ef4444'', speedKmh = Fin 493\<rparr>
     = Some (Fin 256)
   \<and> ndiv double (basebandSampleRateHz (initialRadarParams double))
       (fftSize (initialRadarParams double)) = ndiv double (Fin 44100) (Fin 512)
   \<and> ndiv double (fftSize (initialRadarParams double)) (Fin 2) = Fin 256
   \<and> \<not> nlt (Fin 256) (ndiv double (fftSize (initialRadarParams double)) (Fin 2))"
proof -
  have half: "ndiv double (fftSize (initialRadarParams double)) (Fin 2) = Fin 256"
    using double_of_int [of 256] by (simp add: initial_fields)
  with targetBinIndex_493 show ?thesis by (simp add: initial_fields nlt_def)
qed

section \<open>The spectrum\<close>

lemma length_initialData: "length (initialData fl rnd freqRes frequency n) = n"
  by (simp add: initialData_def)

lemma arrayLength_nat: "k < 4294967296 \<Longrightarrow> arrayLength (Fin (real k)) = Inr k"
  by (simp add: arrayLength_def)

lemma arrayLength_Inr:
  assumes "arrayLength x = Inr n"
  shows "x = Fin (real n)" and "n < 4294967296"
proof -
  from assms obtain a where x: "x = Fin a" by (cases x) (simp_all add: arrayLength_def)
  with assms have int: "a = of_int \<lfloor>a\<rfloor>" and nonneg: "0 \<le> a" and n: "n = nat \<lfloor>a\<rfloor>"
    and small: "a < 4294967296"
    by (auto simp: arrayLength_def split: if_splits)
  from nonneg have "0 \<le> \<lfloor>a\<rfloor>" by simp
  then have "real (nat \<lfloor>a\<rfloor>) = of_int \<lfloor>a\<rfloor>" by simp
  with int n have eq: "real n = a" by simp
  with x show "x = Fin (real n)" by simp
  from eq small show "n < 4294967296" by simp
qed

lemma numBins_even: "k < 2 ^ 32 \<Longrightarrow> ndiv double (Fin (2 * real k)) (Fin 2) = Fin (real k)"
  using double_of_nat [of k] by simp

lemma addAmp_0:
  "0 < length data \<Longrightarrow>
     addAmp fl data (Fin 0) v = Inr (data[0 := (data ! 0)\<lparr>amp := nadd fl (amp (data ! 0)) v\<rparr>])"
  by (simp add: addAmp_def)

lemma addAmp_1:
  "1 < length data \<Longrightarrow>
     addAmp fl data (Fin 1) v = Inr (data[1 := (data ! 1)\<lparr>amp := nadd fl (amp (data ! 1)) v\<rparr>])"
  by (simp add: addAmp_def)

lemma generateDiscreteSpectrum_unfold:
  "generateDiscreteSpectrum fl rnd st =
     (case arrayLength (ndiv fl (fftSize (radar st)) (Fin 2)) of
        Inl e \<Rightarrow> Some (Inl e)
      | Inr n \<Rightarrow>
          (case forEachCar fl (radar st) (ndiv fl (fftSize (radar st)) (Fin 2))
                  (ndiv fl (basebandSampleRateHz (radar st)) (fftSize (radar st))) (cars st)
                  (initialData fl rnd (ndiv fl (basebandSampleRateHz (radar st)) (fftSize (radar st)))
                     (frequencyGHz (radar st)) n) of
             None \<Rightarrow> None
           | Some (Inl e) \<Rightarrow> Some (Inl e)
           | Some (Inr data1) \<Rightarrow>
               (case addAmp fl data1 (Fin 0) (Fin 150) of
                  Inl e \<Rightarrow> Some (Inl e)
                | Inr data2 \<Rightarrow>
                    (case addAmp fl data2 (Fin 1) (Fin 50) of
                       Inl e \<Rightarrow> Some (Inl e)
                     | Inr data3 \<Rightarrow>
                         Some (Inr (filter (\<lambda>d. nlt (speed d)
                                              (nmax (Fin 200) (nmul fl (maxSpeed st) (fl 0.8))))
                                      data3))))))"
  by (simp only: generateDiscreteSpectrum_def Let_def)

text \<open>The loop over the cars in \<open>generateDiscreteSpectrum\<close>, for \<open>n\<close> bins.\<close>

lemma carsLoop_returns:
  assumes "frequencyGHz (radar st) = Fin f" and "0 \<le> f" and "f \<le> 2 ^ 20"
    and "basebandSampleRateHz (radar st) = Fin s" and "isDouble s" and "1 \<le> s"
    and "\<forall>c\<in>set (cars st). \<not> ngt (speedKmh c) (Fin (2 ^ 20))"
    and "n < 2 ^ 32"
  shows "\<exists>data1. forEachCar double (radar st) (Fin (real n)) freqRes (cars st)
                    (initialData double rnd freqRes (frequencyGHz (radar st)) n)
                  = Some (Inr data1)
              \<and> length data1 = n
              \<and> map (\<lambda>d. (binIndex d, freq d, speed d)) data1
                  = map (\<lambda>d. (binIndex d, freq d, speed d))
                      (initialData double rnd freqRes (frequencyGHz (radar st)) n)"
proof -
  let ?data = "initialData double rnd freqRes (frequencyGHz (radar st)) n"
  have nb: "Fin (real n) = Fin (real (length ?data))" by (simp only: length_initialData)
  have len: "length ?data < 2 ^ 32" using assms(8) by (simp only: length_initialData)
  from forEachCar_returns [OF assms(1-6) assms(7) nb len] obtain data1
    where d1: "forEachCar double (radar st) (Fin (real n)) freqRes (cars st) ?data
                 = Some (Inr data1)" by blast
  from forEachCar_grid [OF d1] have g: "map (\<lambda>d. (binIndex d, freq d, speed d)) data1
      = map (\<lambda>d. (binIndex d, freq d, speed d)) ?data" .
  from grid_length [OF g] have "length data1 = n" by (simp only: length_initialData)
  with d1 g show ?thesis by blast
qed

text \<open>The bins after the two updates for the static clutter.\<close>

lemma clutter_grid:
  "map (\<lambda>d. (binIndex d, freq d, speed d))
     (data[0 := (data ! 0)\<lparr>amp := a\<rparr>, 1 := (data ! 1)\<lparr>amp := b\<rparr>])
   = map (\<lambda>d. (binIndex d, freq d, speed d)) data"
proof -
  have "map (\<lambda>d. (binIndex d, freq d, speed d))
          (data[0 := (data ! 0)\<lparr>amp := a\<rparr>, 1 := (data ! 1)\<lparr>amp := b\<rparr>])
        = map (\<lambda>d. (binIndex d, freq d, speed d)) (data[0 := (data ! 0)\<lparr>amp := a\<rparr>])"
    by (rule map_update_same) (cases data, simp_all)
  also have "\<dots> = map (\<lambda>d. (binIndex d, freq d, speed d)) data"
    by (rule map_update_same) simp
  finally show ?thesis .
qed

lemma generateDiscreteSpectrum_returns:
  assumes f: "frequencyGHz (radar st) = Fin f" "0 \<le> f" "f \<le> 2 ^ 20"
    and s: "basebandSampleRateHz (radar st) = Fin s" "isDouble s" "1 \<le> s"
    and n: "fftSize (radar st) = Fin (2 * real k)" "2 \<le> k" "k < 2 ^ 32"
    and cars: "\<forall>c\<in>set (cars st). \<not> ngt (speedKmh c) (Fin (2 ^ 20))"
  shows "\<exists>data1.
           forEachCar double (radar st) (ndiv double (fftSize (radar st)) (Fin 2))
             (ndiv double (basebandSampleRateHz (radar st)) (fftSize (radar st))) (cars st)
             (initialData double rnd
                (ndiv double (basebandSampleRateHz (radar st)) (fftSize (radar st)))
                (frequencyGHz (radar st)) k)
             = Some (Inr data1)
         \<and> map (\<lambda>d. (binIndex d, freq d, speed d)) data1
             = map (\<lambda>d. (binIndex d, freq d, speed d))
                 (initialData double rnd
                    (ndiv double (basebandSampleRateHz (radar st)) (fftSize (radar st)))
                    (frequencyGHz (radar st)) k)
         \<and> generateDiscreteSpectrum double rnd st
             = Some (Inr (filter (\<lambda>d. nlt (speed d)
                                    (nmax (Fin 200) (nmul double (maxSpeed st) (double 0.8))))
                            (data1[0 := (data1 ! 0)\<lparr>amp := nadd double (amp (data1 ! 0)) (Fin 150)\<rparr>,
                                   1 := (data1 ! 1)\<lparr>amp := nadd double (amp (data1 ! 1)) (Fin 50)\<rparr>])))"
proof -
  let ?freqRes = "ndiv double (basebandSampleRateHz (radar st)) (fftSize (radar st))"
  let ?data = "initialData double rnd ?freqRes (frequencyGHz (radar st)) k"
  have numBins: "ndiv double (fftSize (radar st)) (Fin 2) = Fin (real k)"
    by (simp only: n(1) numBins_even [OF n(3)])
  have len: "arrayLength (Fin (real k)) = Inr k" using n(3) by (intro arrayLength_nat) simp
  from carsLoop_returns [OF f s cars n(3), of ?freqRes rnd] obtain data1
    where d1: "forEachCar double (radar st) (Fin (real k)) ?freqRes (cars st) ?data
                 = Some (Inr data1)"
      and l1: "length data1 = k"
      and g1: "map (\<lambda>d. (binIndex d, freq d, speed d)) data1
                 = map (\<lambda>d. (binIndex d, freq d, speed d)) ?data"
    by blast
  let ?data2 = "data1[0 := (data1 ! 0)\<lparr>amp := nadd double (amp (data1 ! 0)) (Fin 150)\<rparr>]"
  let ?data3 = "?data2[1 := (data1 ! 1)\<lparr>amp := nadd double (amp (data1 ! 1)) (Fin 50)\<rparr>]"
  from l1 n(2) have "0 < length data1" by simp
  from addAmp_0 [OF this] have d2: "addAmp double data1 (Fin 0) (Fin 150) = Inr ?data2" .
  from l1 n(2) have "1 < length ?data2" by simp
  from addAmp_1 [OF this]
  have d3: "addAmp double ?data2 (Fin 1) (Fin 50) = Inr ?data3" by simp
  have "generateDiscreteSpectrum double rnd st
      = Some (Inr (filter (\<lambda>d. nlt (speed d)
                             (nmax (Fin 200) (nmul double (maxSpeed st) (double 0.8))))
                     ?data3))"
    by (simp only: generateDiscreteSpectrum_unfold numBins len d1 d2 d3 sum.case option.case)
  with d1 g1 show ?thesis by (simp only: numBins) blast
qed

subsection \<open>The speed of a bin grows with its index\<close>

lemma ndiv_pos_nonnegLe:
  assumes "nonnegLe x y" and "0 < b"
  shows "nonnegLe (ndiv double x (Fin b)) (ndiv double y (Fin b))"
  using nonnegLe_cases [OF assms(1)]
proof (elim disjE exE conjE)
  fix a a' assume "x = Fin a" "y = Fin a'" "0 \<le> a" "a \<le> a'"
  moreover from this assms(2) have "0 \<le> a / b" "a / b \<le> a' / b"
    by (simp_all add: divide_right_mono)
  ultimately show ?thesis using double_nonnegLe assms(2) by simp
next
  fix a assume "x = Fin a" "0 \<le> a" "y = PosInf"
  moreover from this assms(2) have "0 \<le> a / b" by simp
  ultimately show ?thesis using double_nonnegLe_PosInf assms(2) by (simp add: signedInf_def)
next
  assume "x = PosInf" "y = PosInf"
  then show ?thesis using assms(2) by (simp add: signedInf_def)
qed

lemma calculateSpeedFromShift_mono:
  assumes "nonnegLe x y"
    and "nmul double (Fin 2) (nmul double (Fin f) (Fin 1000000000)) = Fin b" and "0 < b"
  shows "nonnegLe (calculateSpeedFromShift double x (Fin f))
           (calculateSpeedFromShift double y (Fin f))"
proof -
  have c: "(0::real) < 299792458" by simp
  from literal_36(2) have t: "0 < roundReal 3.6" by simp
  from nmul_right_nonnegLe [OF ndiv_pos_nonnegLe [OF nmul_right_nonnegLe [OF assms(1) c] assms(3)] t]
  show ?thesis
    by (simp only: calculateSpeedFromShift_def Let_def C_def literal_36(1) assms(2))
qed

lemma binSpeed_mono:
  assumes "nmul double (Fin 2) (nmul double (Fin f) (Fin 1000000000)) = Fin b" and "0 < b"
    and "0 \<le> r" and "i \<le> j"
  shows "nonnegLe (calculateSpeedFromShift double (nmul double (Fin (real i)) (Fin r)) (Fin f))
           (calculateSpeedFromShift double (nmul double (Fin (real j)) (Fin r)) (Fin f))"
proof -
  from assms(3,4) have "0 \<le> real i * r" and "real i * r \<le> real j * r"
    by (simp_all add: mult_right_mono)
  from double_nonnegLe [OF this]
  have "nonnegLe (nmul double (Fin (real i)) (Fin r)) (nmul double (Fin (real j)) (Fin r))"
    by simp
  from calculateSpeedFromShift_mono [OF this assms(1,2)] show ?thesis .
qed

lemma keep_below:
  assumes "nmul double (Fin 2) (nmul double (Fin f) (Fin 1000000000)) = Fin b" and "0 < b"
    and "0 \<le> r"
    and "calculateSpeedFromShift double (nmul double (Fin (real m)) (Fin r)) (Fin f) = Fin a"
    and "a < c" and "i \<le> m"
  shows "nlt (calculateSpeedFromShift double (nmul double (Fin (real i)) (Fin r)) (Fin f)) (Fin c)"
proof -
  from binSpeed_mono [OF assms(1-3,6)] assms(4)
  have "nonnegLe (calculateSpeedFromShift double (nmul double (Fin (real i)) (Fin r)) (Fin f))
          (Fin a)" by simp
  with assms(5) show ?thesis
    by (cases "calculateSpeedFromShift double (nmul double (Fin (real i)) (Fin r)) (Fin f)")
       (simp_all add: nlt_def)
qed

lemma keep_above:
  assumes "nmul double (Fin 2) (nmul double (Fin f) (Fin 1000000000)) = Fin b" and "0 < b"
    and "0 \<le> r"
    and "calculateSpeedFromShift double (nmul double (Fin (real m)) (Fin r)) (Fin f) = Fin a"
    and "c \<le> a" and "m \<le> i"
  shows "\<not> nlt (calculateSpeedFromShift double (nmul double (Fin (real i)) (Fin r)) (Fin f))
             (Fin c)"
proof -
  from binSpeed_mono [OF assms(1-3,6)] assms(4)
  have "nonnegLe (Fin a)
          (calculateSpeedFromShift double (nmul double (Fin (real i)) (Fin r)) (Fin f))" by simp
  with assms(5) show ?thesis
    by (cases "calculateSpeedFromShift double (nmul double (Fin (real i)) (Fin r)) (Fin f)")
       (simp_all add: nlt_def)
qed

lemma generateDiscreteSpectrum_kept:
  assumes "frequencyGHz (radar st) = Fin f" and "0 < f" and "f \<le> 2 ^ 20"
    and "basebandSampleRateHz (radar st) = Fin s" and "isDouble s" and "1 \<le> s"
    and "fftSize (radar st) = Fin (2 * real k)" and "2 \<le> k" and "k < 2 ^ 32"
    and "\<forall>c\<in>set (cars st). \<not> ngt (speedKmh c) (Fin (2 ^ 20))"
  shows "\<exists>bins. generateDiscreteSpectrum double rnd st = Some (Inr bins)
           \<and> map binIndex bins
               = map (\<lambda>i. Fin (real i))
                   (filter (\<lambda>i. nlt (calculateSpeedFromShift double
                                        (nmul double (Fin (real i))
                                           (ndiv double (basebandSampleRateHz (radar st))
                                              (fftSize (radar st))))
                                        (frequencyGHz (radar st)))
                                     (nmax (Fin 200) (nmul double (maxSpeed st) (double 0.8))))
                      [0..<k])
           \<and> (\<forall>d\<in>set bins. freq d = nmul double (binIndex d)
                                        (ndiv double (basebandSampleRateHz (radar st))
                                           (fftSize (radar st))))
           \<and> length bins \<le> k"
proof -
  let ?grid = "map (\<lambda>d. (binIndex d, freq d, speed d))"
  let ?freqRes = "ndiv double (basebandSampleRateHz (radar st)) (fftSize (radar st))"
  let ?cut = "nmax (Fin 200) (nmul double (maxSpeed st) (double 0.8))"
  let ?init = "initialData double rnd ?freqRes (frequencyGHz (radar st)) k"
  let ?kept = "filter (\<lambda>d. nlt (speed d) ?cut) ?init"
  from assms(2) have f0: "0 \<le> f" by simp
  from generateDiscreteSpectrum_returns [OF assms(1) f0 assms(3-10), of rnd] obtain data1
    where g1: "?grid data1 = ?grid ?init"
      and res: "generateDiscreteSpectrum double rnd st
        = Some (Inr (filter (\<lambda>d. nlt (speed d) ?cut)
             (data1[0 := (data1 ! 0)\<lparr>amp := nadd double (amp (data1 ! 0)) (Fin 150)\<rparr>,
                    1 := (data1 ! 1)\<lparr>amp := nadd double (amp (data1 ! 1)) (Fin 50)\<rparr>])))"
    by blast
  define data3 where "data3 =
    data1[0 := (data1 ! 0)\<lparr>amp := nadd double (amp (data1 ! 0)) (Fin 150)\<rparr>,
          1 := (data1 ! 1)\<lparr>amp := nadd double (amp (data1 ! 1)) (Fin 50)\<rparr>]"
  define bins where "bins = filter (\<lambda>d. nlt (speed d) ?cut) data3"
  have g3: "?grid data3 = ?grid ?init" unfolding data3_def by (simp only: clutter_grid g1)
  have commute: "?grid (filter (\<lambda>d. nlt (speed d) ?cut) xs)
      = filter (\<lambda>t. nlt (snd (snd t)) ?cut) (?grid xs)" for xs
    by (induction xs) simp_all
  have grid: "?grid bins = ?grid ?kept" unfolding bins_def by (simp only: commute g3)
  have "map fst (?grid bins) = map fst (?grid ?kept)" by (simp only: grid)
  then have "map binIndex bins = map binIndex ?kept" by (simp add: comp_def)
  also have "\<dots> = map (\<lambda>i. Fin (real i))
      (filter (\<lambda>i. nlt (calculateSpeedFromShift double (nmul double (Fin (real i)) ?freqRes)
                           (frequencyGHz (radar st))) ?cut)
         [0..<k])"
    by (simp add: initialData_def filter_map comp_def)
  finally have idx: "map binIndex bins = map (\<lambda>i. Fin (real i))
      (filter (\<lambda>i. nlt (calculateSpeedFromShift double (nmul double (Fin (real i)) ?freqRes)
                           (frequencyGHz (radar st))) ?cut)
         [0..<k])" .
  have fr: "\<forall>d\<in>set bins. freq d = nmul double (binIndex d) ?freqRes"
  proof
    fix d assume "d \<in> set bins"
    then have "(binIndex d, freq d, speed d) \<in> set (?grid bins)" by force
    with grid have "(binIndex d, freq d, speed d) \<in> set (?grid ?kept)" by simp
    then obtain d' where "d' \<in> set ?init" and "binIndex d = binIndex d'" and "freq d = freq d'"
      by auto
    then show "freq d = nmul double (binIndex d) ?freqRes"
      by (auto simp: initialData_def)
  qed
  have "length bins = length ?kept" by (rule grid_length [OF grid])
  also have "\<dots> \<le> length ?init" by (rule length_filter_le)
  finally have "length bins \<le> k" by (simp only: length_initialData)
  moreover from res have "generateDiscreteSpectrum double rnd st = Some (Inr bins)"
    by (simp only: bins_def data3_def)
  ultimately show ?thesis using idx fr by blast
qed

text \<open>
  C3, as the code has it. For a carrier frequency from 0 to \<open>2^20\<close> GHz, a sample
  rate that is a double of at least 1 Hz, an even \<open>fftSize = 2 * k\<close> with
  \<open>2 \<le> k < 2^32\<close> and cars of at most \<open>2^20\<close> km/h, the synthesizer returns, in the
  order of their indices, those of the \<open>k\<close> bins of the half-spectrum whose speed is
  below the display cutoff \<open>max(200, maxSpeed * 0.8)\<close>: at most \<open>k\<close> bins, and each
  with \<open>freq = binIndex * freqRes\<close>. Products and comparison are those of the
  program, in double arithmetic.
\<close>

theorem spectrum_bins:
  assumes "frequencyGHz (radar st) = Fin f" and "0 < f" and "f \<le> 2 ^ 20"
    and "basebandSampleRateHz (radar st) = Fin s" and "isDouble s" and "1 \<le> s"
    and "fftSize (radar st) = Fin (2 * real k)" and "2 \<le> k" and "k < 2 ^ 32"
    and "\<forall>c\<in>set (cars st). \<not> ngt (speedKmh c) (Fin (2 ^ 20))"
  shows "\<exists>bins. generateDiscreteSpectrum double rnd st = Some (Inr bins)
           \<and> map binIndex bins
               = map (\<lambda>i. Fin (real i))
                   (filter (\<lambda>i. nlt (calculateSpeedFromShift double
                                        (nmul double (Fin (real i))
                                           (ndiv double (basebandSampleRateHz (radar st))
                                              (fftSize (radar st))))
                                        (frequencyGHz (radar st)))
                                     (nmax (Fin 200) (nmul double (maxSpeed st) (double 0.8))))
                      [0..<k])
           \<and> (\<forall>d\<in>set bins. freq d = nmul double (binIndex d)
                                        (ndiv double (basebandSampleRateHz (radar st))
                                           (fftSize (radar st))))
           \<and> length bins \<le> k"
  using assms by (rule generateDiscreteSpectrum_kept)

subsection \<open>Two spectra evaluated\<close>

lemma spectrum_eval_initial:
  "calculateSpeedFromShift double (nmul double (Fin (real (204::nat))) (Fin (11025 / 128)))
       (Fin (roundReal 24.15)) = Fin (3453541526038471 / 8796093022208)"
  "calculateSpeedFromShift double (nmul double (Fin (real (205::nat))) (Fin (11025 / 128)))
       (Fin (roundReal 24.15)) = Fin (6940941302332221 / 17592186044416)"
  "nmax (Fin 200) (nmul double (maxSpeedKmh double (initialRadarParams double)) (double 0.8))
     = Fin (6934169652281165 / 17592186044416)"
  "nmul double (Fin 2) (nmul double (Fin (roundReal 24.15)) (Fin 1000000000)) = Fin 48300000000"
  "ndiv double (Fin 44100) (Fin 512) = Fin (11025 / 128)"
proof -
  have f: "double (24.15) = Fin (3398810343781171 / 140737488355328)"
    by (rule double_eval [of _ "6797620687562342" "- 48"]) simp_all
  have t: "double (3.6) = Fin (8106479329266893 / 2251799813685248)"
    by (rule double_eval [of _ "8106479329266893" "- 51"]) simp_all
  have p: "double (0.8) = Fin (3602879701896397 / 4503599627370496)"
    by (rule double_eval [of _ "7205759403792794" "- 53"]) simp_all
  have h: "double ((3398810343781171 / 140737488355328) * 1000000000) = Fin 24150000000"
    by (rule double_eval [of _ "6330777600000000" "- 18"]) simp_all
  have b: "double (2 * 24150000000) = Fin 48300000000"
    by (rule double_eval [of _ "6330777600000000" "- 17"]) simp_all
  have fr: "double (44100 / 512) = Fin (11025 / 128)"
    by (rule double_eval [of _ "6061057848115200" "- 46"]) simp_all
  have x204: "double (204 * (11025 / 128)) = Fin (562275 / 32)"
    by (rule double_eval [of _ "4829905472716800" "- 38"]) simp_all
  have a204: "double ((562275 / 32) * 299792458) = Fin (84282902160975 / 16)"
    by (rule double_eval [of _ "5394105738302400" "- 10"]) simp_all
  have v204: "double ((84282902160975 / 16) / 48300000000) = Fin (7674536724529935 / 70368744177664)"
    by (rule double_eval [of _ "7674536724529935" "- 46"]) simp_all
  have w204: "double ((7674536724529935 / 70368744177664) * (8106479329266893 / 2251799813685248)) = Fin (3453541526038471 / 8796093022208)"
    by (rule double_eval [of _ "6907083052076942" "- 44"]) simp_all
  have x205: "double (205 * (11025 / 128)) = Fin (2260125 / 128)"
    by (rule double_eval [of _ "4853581479936000" "- 38"]) simp_all
  have a205: "double ((2260125 / 128) * 299792458) = Fin (338784214568625 / 64)"
    by (rule double_eval [of _ "5420547433098000" "- 10"]) simp_all
  have v205: "double ((338784214568625 / 64) / 48300000000) = Fin (7712157002591357 / 70368744177664)"
    by (rule double_eval [of _ "7712157002591357" "- 46"]) simp_all
  have w205: "double ((7712157002591357 / 70368744177664) * (8106479329266893 / 2251799813685248)) = Fin (6940941302332221 / 17592186044416)"
    by (rule double_eval [of _ "6940941302332221" "- 44"]) simp_all
  have xm: "double (44100 / 2) = Fin 22050"
    by (rule double_eval [of _ "6061057848115200" "- 38"]) simp_all
  have am: "double (22050 * 299792458) = Fin 6610423698900"
    by (rule double_eval [of _ "6769073867673600" "- 10"]) simp_all
  have vm: "double (6610423698900 / 48300000000) = Fin (150481112245685 / 1099511627776)"
    by (rule double_eval [of _ "4815395591861920" "- 45"]) simp_all
  have wm: "double ((150481112245685 / 1099511627776) * (8106479329266893 / 2251799813685248)) = Fin (270866002042233 / 549755813888)"
    by (rule double_eval [of _ "8667712065351456" "- 44"]) simp_all
  have cut: "double ((270866002042233 / 549755813888) * (3602879701896397 / 4503599627370496)) = Fin (6934169652281165 / 17592186044416)"
    by (rule double_eval [of _ "6934169652281165" "- 44"]) simp_all
  have f': "roundReal 24.15 = (3398810343781171 / 140737488355328)"
    using f by (simp only: literal_2415(1) number.inject)
  have nz: "((512::real) = 0) = False" "((48300000000::real) = 0) = False" "((2::real) = 0) = False"
    by simp_all
  have mx: "nmax (Fin 200) (Fin (6934169652281165 / 17592186044416)) = Fin (6934169652281165 / 17592186044416)" by simp
  have rp: "basebandSampleRateHz (initialRadarParams double) = Fin 44100" "frequencyGHz (initialRadarParams double) = double 24.15"
    by (simp_all add: initialRadarParams_def)
  have ix: "real (204::nat) = 204" "real (205::nat) = 205" by simp_all
  show "calculateSpeedFromShift double (nmul double (Fin (real (204::nat))) (Fin (11025 / 128)))
       (Fin (roundReal 24.15)) = Fin (3453541526038471 / 8796093022208)"
    by (simp_all only: calculateSpeedFromShift_def maxSpeedKmh_def calculateMaxUnambiguousSpeed_def
        Let_def C_def rp ix nmul.simps ndiv.simps nz if_False
        f f' t p h b fr x204 a204 v204 w204 x205 a205 v205 w205 xm am vm wm cut mx)
  show "calculateSpeedFromShift double (nmul double (Fin (real (205::nat))) (Fin (11025 / 128)))
       (Fin (roundReal 24.15)) = Fin (6940941302332221 / 17592186044416)"
    by (simp_all only: calculateSpeedFromShift_def maxSpeedKmh_def calculateMaxUnambiguousSpeed_def
        Let_def C_def rp ix nmul.simps ndiv.simps nz if_False
        f f' t p h b fr x204 a204 v204 w204 x205 a205 v205 w205 xm am vm wm cut mx)
  show "nmax (Fin 200) (nmul double (maxSpeedKmh double (initialRadarParams double)) (double 0.8))
     = Fin (6934169652281165 / 17592186044416)"
    by (simp_all only: calculateSpeedFromShift_def maxSpeedKmh_def calculateMaxUnambiguousSpeed_def
        Let_def C_def rp ix nmul.simps ndiv.simps nz if_False
        f f' t p h b fr x204 a204 v204 w204 x205 a205 v205 w205 xm am vm wm cut mx)
  show "nmul double (Fin 2) (nmul double (Fin (roundReal 24.15)) (Fin 1000000000)) = Fin 48300000000"
    by (simp_all only: calculateSpeedFromShift_def maxSpeedKmh_def calculateMaxUnambiguousSpeed_def
        Let_def C_def rp ix nmul.simps ndiv.simps nz if_False
        f f' t p h b fr x204 a204 v204 w204 x205 a205 v205 w205 xm am vm wm cut mx)
  show "ndiv double (Fin 44100) (Fin 512) = Fin (11025 / 128)"
    by (simp_all only: calculateSpeedFromShift_def maxSpeedKmh_def calculateMaxUnambiguousSpeed_def
        Let_def C_def rp ix nmul.simps ndiv.simps nz if_False
        f f' t p h b fr x204 a204 v204 w204 x205 a205 v205 w205 xm am vm wm cut mx)
qed

lemma spectrum_eval_small:
  "calculateSpeedFromShift double (nmul double (Fin (real (4::nat))) (Fin 2400))
       (Fin (roundReal 24.15)) = Fin (7547395539897867 / 35184372088832)"
  "nmax (Fin 200) (nmul double (maxSpeedKmh double ((initialRadarParams double)\<lparr>basebandSampleRateHz := Fin 24000, fftSize := Fin 10\<rparr>)) (double 0.8))
     = Fin (1886848884974467 / 8796093022208)"
  "nmul double (Fin 2) (nmul double (Fin (roundReal 24.15)) (Fin 1000000000)) = Fin 48300000000"
  "ndiv double (Fin 24000) (Fin 10) = Fin 2400"
proof -
  have f: "double (24.15) = Fin (3398810343781171 / 140737488355328)"
    by (rule double_eval [of _ "6797620687562342" "- 48"]) simp_all
  have t: "double (3.6) = Fin (8106479329266893 / 2251799813685248)"
    by (rule double_eval [of _ "8106479329266893" "- 51"]) simp_all
  have p: "double (0.8) = Fin (3602879701896397 / 4503599627370496)"
    by (rule double_eval [of _ "7205759403792794" "- 53"]) simp_all
  have h: "double ((3398810343781171 / 140737488355328) * 1000000000) = Fin 24150000000"
    by (rule double_eval [of _ "6330777600000000" "- 18"]) simp_all
  have b: "double (2 * 24150000000) = Fin 48300000000"
    by (rule double_eval [of _ "6330777600000000" "- 17"]) simp_all
  have fr: "double (24000 / 10) = Fin 2400"
    by (rule double_eval [of _ "5277655813324800" "- 41"]) simp_all
  have x4: "double (4 * 2400) = Fin 9600"
    by (rule double_eval [of _ "5277655813324800" "- 39"]) simp_all
  have a4: "double (9600 * 299792458) = Fin 2878007596800"
    by (rule double_eval [of _ "5894159558246400" "- 11"]) simp_all
  have v4: "double (2878007596800 / 48300000000) = Fin (8385995044330963 / 140737488355328)"
    by (rule double_eval [of _ "8385995044330963" "- 47"]) simp_all
  have w4: "double ((8385995044330963 / 140737488355328) * (8106479329266893 / 2251799813685248)) = Fin (7547395539897867 / 35184372088832)"
    by (rule double_eval [of _ "7547395539897867" "- 45"]) simp_all
  have xm: "double (24000 / 2) = Fin 12000"
    by (rule double_eval [of _ "6597069766656000" "- 39"]) simp_all
  have am: "double (12000 * 299792458) = Fin 3597509496000"
    by (rule double_eval [of _ "7367699447808000" "- 11"]) simp_all
  have vm: "double (3597509496000 / 48300000000) = Fin (1310311725676713 / 17592186044416)"
    by (rule double_eval [of _ "5241246902706852" "- 46"]) simp_all
  have wm: "double ((1310311725676713 / 17592186044416) * (8106479329266893 / 2251799813685248)) = Fin (4717122212436167 / 17592186044416)"
    by (rule double_eval [of _ "4717122212436167" "- 44"]) simp_all
  have cut: "double ((4717122212436167 / 17592186044416) * (3602879701896397 / 4503599627370496)) = Fin (1886848884974467 / 8796093022208)"
    by (rule double_eval [of _ "7547395539897868" "- 45"]) simp_all
  have f': "roundReal 24.15 = (3398810343781171 / 140737488355328)"
    using f by (simp only: literal_2415(1) number.inject)
  have nz: "((10::real) = 0) = False" "((48300000000::real) = 0) = False" "((2::real) = 0) = False"
    by simp_all
  have mx: "nmax (Fin 200) (Fin (1886848884974467 / 8796093022208)) = Fin (1886848884974467 / 8796093022208)" by simp
  have rp: "basebandSampleRateHz ((initialRadarParams double)\<lparr>basebandSampleRateHz := Fin 24000, fftSize := Fin 10\<rparr>) = Fin 24000" "frequencyGHz ((initialRadarParams double)\<lparr>basebandSampleRateHz := Fin 24000, fftSize := Fin 10\<rparr>) = double 24.15"
    by (simp_all add: initialRadarParams_def)
  have ix: "real (4::nat) = 4" by simp_all
  show "calculateSpeedFromShift double (nmul double (Fin (real (4::nat))) (Fin 2400))
       (Fin (roundReal 24.15)) = Fin (7547395539897867 / 35184372088832)"
    by (simp_all only: calculateSpeedFromShift_def maxSpeedKmh_def calculateMaxUnambiguousSpeed_def
        Let_def C_def rp ix nmul.simps ndiv.simps nz if_False
        f f' t p h b fr x4 a4 v4 w4 xm am vm wm cut mx)
  show "nmax (Fin 200) (nmul double (maxSpeedKmh double ((initialRadarParams double)\<lparr>basebandSampleRateHz := Fin 24000, fftSize := Fin 10\<rparr>)) (double 0.8))
     = Fin (1886848884974467 / 8796093022208)"
    by (simp_all only: calculateSpeedFromShift_def maxSpeedKmh_def calculateMaxUnambiguousSpeed_def
        Let_def C_def rp ix nmul.simps ndiv.simps nz if_False
        f f' t p h b fr x4 a4 v4 w4 xm am vm wm cut mx)
  show "nmul double (Fin 2) (nmul double (Fin (roundReal 24.15)) (Fin 1000000000)) = Fin 48300000000"
    by (simp_all only: calculateSpeedFromShift_def maxSpeedKmh_def calculateMaxUnambiguousSpeed_def
        Let_def C_def rp ix nmul.simps ndiv.simps nz if_False
        f f' t p h b fr x4 a4 v4 w4 xm am vm wm cut mx)
  show "ndiv double (Fin 24000) (Fin 10) = Fin 2400"
    by (simp_all only: calculateSpeedFromShift_def maxSpeedKmh_def calculateMaxUnambiguousSpeed_def
        Let_def C_def rp ix nmul.simps ndiv.simps nz if_False
        f f' t p h b fr x4 a4 v4 w4 xm am vm wm cut mx)
qed

lemma filter_less_upt: "filter (\<lambda>i. i < m) [0..<n] = [0..<min n m]"
proof (induction n)
  case 0
  then show ?case by simp
next
  case (Suc n)
  show ?case
  proof (cases "n < m")
    case True
    with Suc.IH show ?thesis by (simp add: min_def)
  next
    case False
    with Suc.IH show ?thesis by (simp add: min_def)
  qed
qed

lemma kept_prefix:
  assumes "nmul double (Fin 2) (nmul double (Fin f) (Fin 1000000000)) = Fin b" and "0 < b"
    and "0 \<le> r"
    and "calculateSpeedFromShift double (nmul double (Fin (real m)) (Fin r)) (Fin f) = Fin a"
    and "a < c"
    and "calculateSpeedFromShift double (nmul double (Fin (real (Suc m))) (Fin r)) (Fin f) = Fin a'"
    and "c \<le> a'"
  shows "filter (\<lambda>i. nlt (calculateSpeedFromShift double (nmul double (Fin (real i)) (Fin r))
                             (Fin f)) (Fin c)) [0..<k]
         = [0..<min k (Suc m)]"
proof -
  have "nlt (calculateSpeedFromShift double (nmul double (Fin (real i)) (Fin r)) (Fin f)) (Fin c)
      \<longleftrightarrow> i < Suc m" for i
  proof (cases "i \<le> m")
    case True
    from keep_below [OF assms(1-5) True] True show ?thesis by simp
  next
    case False
    then have "Suc m \<le> i" by simp
    from keep_above [OF assms(1-3,6,7) this] False show ?thesis by simp
  qed
  then show ?thesis by (simp only: filter_less_upt)
qed

lemma kept_all:
  assumes "nmul double (Fin 2) (nmul double (Fin f) (Fin 1000000000)) = Fin b" and "0 < b"
    and "0 \<le> r"
    and "calculateSpeedFromShift double (nmul double (Fin (real m)) (Fin r)) (Fin f) = Fin a"
    and "a < c" and "k \<le> Suc m"
  shows "filter (\<lambda>i. nlt (calculateSpeedFromShift double (nmul double (Fin (real i)) (Fin r))
                             (Fin f)) (Fin c)) [0..<k]
         = [0..<k]"
proof (rule filter_True, rule ballI)
  fix i assume "i \<in> set [0..<k]"
  with assms(6) have "i \<le> m" by simp
  from keep_below [OF assms(1-5) this]
  show "nlt (calculateSpeedFromShift double (nmul double (Fin (real i)) (Fin r)) (Fin f)) (Fin c)" .
qed

lemma initialCars_speeds: "\<forall>c\<in>set (initialCars fl rnd vs). speedKmh c \<in> set vs"
  by (auto simp: initialCars_def dest!: set_zip_leftD)

lemma initialCars_in_range:
  "\<forall>c\<in>set (initialCars fl rnd [Fin 80, Fin 110, Fin 60]). \<not> ngt (speedKmh c) (Fin (2 ^ 20))"
proof
  fix c assume "c \<in> set (initialCars fl rnd [Fin 80, Fin 110, Fin 60])"
  with initialCars_speeds have "speedKmh c \<in> set [Fin 80, Fin 110, Fin 60]" by blast
  then show "\<not> ngt (speedKmh c) (Fin (2 ^ 20))" by auto
qed

lemma simState_fields:
  "radar (simState fl rp cs) = rp" "cars (simState fl rp cs) = cs"
  "maxSpeed (simState fl rp cs) = maxSpeedKmh fl rp"
  by (simp_all add: simState_def)

theorem spectrum_bins_witness:
  "frequencyGHz (radar (simState double
      ((initialRadarParams double)\<lparr>basebandSampleRateHz := Fin 24000, fftSize := Fin 10\<rparr>)
      (initialCars double (\<lambda>_. 0) [Fin 80, Fin 110, Fin 60]))) = Fin (roundReal 24.15)
   \<and> 0 < roundReal 24.15 \<and> roundReal 24.15 \<le> 2 ^ 20
   \<and> basebandSampleRateHz (radar (simState double
      ((initialRadarParams double)\<lparr>basebandSampleRateHz := Fin 24000, fftSize := Fin 10\<rparr>)
      (initialCars double (\<lambda>_. 0) [Fin 80, Fin 110, Fin 60]))) = Fin 24000
   \<and> isDouble 24000 \<and> (1::real) \<le> 24000
   \<and> fftSize (radar (simState double
      ((initialRadarParams double)\<lparr>basebandSampleRateHz := Fin 24000, fftSize := Fin 10\<rparr>)
      (initialCars double (\<lambda>_. 0) [Fin 80, Fin 110, Fin 60]))) = Fin (2 * real (5::nat))
   \<and> (2::nat) \<le> 5 \<and> (5::nat) < 2 ^ 32
   \<and> list_all (\<lambda>c. \<not> ngt (speedKmh c) (Fin (2 ^ 20)))
        (cars (simState double
           ((initialRadarParams double)\<lparr>basebandSampleRateHz := Fin 24000, fftSize := Fin 10\<rparr>)
           (initialCars double (\<lambda>_. 0) [Fin 80, Fin 110, Fin 60])))
   \<and> (\<exists>bins. generateDiscreteSpectrum double (\<lambda>_. 0) (simState double
          ((initialRadarParams double)\<lparr>basebandSampleRateHz := Fin 24000, fftSize := Fin 10\<rparr>)
          (initialCars double (\<lambda>_. 0) [Fin 80, Fin 110, Fin 60])) = Some (Inr bins)
        \<and> map binIndex bins = map (\<lambda>i. Fin (real i)) [0..<5]
        \<and> list_all (\<lambda>d. freq d = nmul double (binIndex d) (Fin 2400)) bins
        \<and> length bins = 5)"
proof -
  let ?rp = "(initialRadarParams double)\<lparr>basebandSampleRateHz := Fin 24000, fftSize := Fin 10\<rparr>"
  let ?cs = "initialCars double (\<lambda>_. 0) [Fin 80, Fin 110, Fin 60]"
  let ?st = "simState double ?rp ?cs"
  let ?f = "roundReal 24.15"
  have rp: "frequencyGHz ?rp = Fin ?f" "basebandSampleRateHz ?rp = Fin 24000"
    "fftSize ?rp = Fin 10"
    by (simp_all only: initialRadarParams_def RadarParams.simps literal_2415(1))
  have f1: "frequencyGHz (radar ?st) = Fin ?f" by (simp only: simState_fields rp)
  have f2: "0 < ?f" "?f \<le> 2 ^ 20" using literal_2415(2,3) by simp_all
  have s1: "basebandSampleRateHz (radar ?st) = Fin 24000" by (simp only: simState_fields rp)
  have s2: "isDouble 24000" "(1::real) \<le> 24000" using isDouble_of_int [of 24000] by simp_all
  have n1: "fftSize (radar ?st) = Fin (2 * real (5::nat))" by (simp add: simState_fields rp)
  have n2: "(2::nat) \<le> 5" "(5::nat) < 2 ^ 32" by simp_all
  have cars: "\<forall>c\<in>set (cars ?st). \<not> ngt (speedKmh c) (Fin (2 ^ 20))"
    unfolding simState_fields by (rule initialCars_in_range)
  note top = spectrum_eval_small(1) and b = spectrum_eval_small(3)
  have cut: "nmax (Fin 200) (nmul double (maxSpeed ?st) (double 0.8))
      = Fin (1886848884974467 / 8796093022208)"
    by (simp only: simState_fields spectrum_eval_small(2))
  have res: "ndiv double (basebandSampleRateHz (radar ?st)) (fftSize (radar ?st)) = Fin 2400"
    by (simp only: simState_fields rp spectrum_eval_small(4))
  have kept: "filter (\<lambda>i. nlt (calculateSpeedFromShift double (nmul double (Fin (real i)) (Fin 2400))
                                 (Fin ?f)) (Fin (1886848884974467 / 8796093022208))) [0..<5]
      = [0..<5]"
    by (rule kept_all [OF b _ _ top]) simp_all
  from spectrum_bins [OF f1 f2 s1 s2 n1 n2 cars, of "\<lambda>_. 0"] obtain bins
    where ret: "generateDiscreteSpectrum double (\<lambda>_. 0) ?st = Some (Inr bins)"
      and idx: "map binIndex bins = map (\<lambda>i. Fin (real i)) [0..<5]"
      and fr: "\<forall>d\<in>set bins. freq d = nmul double (binIndex d) (Fin 2400)"
    unfolding res cut f1 kept by blast
  from idx have "length (map binIndex bins) = length (map (\<lambda>i. Fin (real i)) [0..<(5::nat)])"
    by (simp only:)
  then have len: "length bins = 5" by simp
  from fr have "list_all (\<lambda>d. freq d = nmul double (binIndex d) (Fin 2400)) bins"
    by (simp only: list_all_iff)
  with ret idx len have "\<exists>bins. generateDiscreteSpectrum double (\<lambda>_. 0) ?st = Some (Inr bins)
        \<and> map binIndex bins = map (\<lambda>i. Fin (real i)) [0..<5]
        \<and> list_all (\<lambda>d. freq d = nmul double (binIndex d) (Fin 2400)) bins
        \<and> length bins = 5" by blast
  moreover from cars have "list_all (\<lambda>c. \<not> ngt (speedKmh c) (Fin (2 ^ 20))) (cars ?st)"
    by (simp only: list_all_iff)
  ultimately show ?thesis using f1 f2 s1 s2 n1 n2 by blast
qed

text \<open>
  C3 as stated fails: in the initial state of the application (24.15 GHz, 44100 Hz,
  512 points, cars at 80, 110 and 60 km/h) the half-spectrum has 256 bins and only 205
  are returned, the bins from index 205 on being at the cutoff speed or above.
\<close>

theorem spectrum_bins_counterexample:
  "ndiv double (fftSize (initialRadarParams double)) (Fin 2) = Fin 256
   \<and> map_option (map_sum id length)
        (generateDiscreteSpectrum double (\<lambda>_. 0)
           (simState double (initialRadarParams double)
              (initialCars double (\<lambda>_. 0) [Fin 80, Fin 110, Fin 60])))
       = Some (Inr 205)"
proof -
  let ?rp = "initialRadarParams double"
  let ?cs = "initialCars double (\<lambda>_. 0) [Fin 80, Fin 110, Fin 60]"
  let ?st = "simState double ?rp ?cs"
  let ?f = "roundReal 24.15"
  have rp: "frequencyGHz ?rp = Fin ?f" "basebandSampleRateHz ?rp = Fin 44100"
    "fftSize ?rp = Fin 512"
    by (simp_all only: initial_fields literal_2415(1))
  have f1: "frequencyGHz (radar ?st) = Fin ?f" by (simp only: simState_fields rp)
  have f2: "0 < ?f" "?f \<le> 2 ^ 20" using literal_2415(2,3) by simp_all
  have s1: "basebandSampleRateHz (radar ?st) = Fin 44100" by (simp only: simState_fields rp)
  have s2: "isDouble 44100" "(1::real) \<le> 44100" using isDouble_44100 by simp_all
  have n1: "fftSize (radar ?st) = Fin (2 * real (256::nat))" by (simp add: simState_fields rp)
  have n2: "(2::nat) \<le> 256" "(256::nat) < 2 ^ 32" by simp_all
  have cars: "\<forall>c\<in>set (cars ?st). \<not> ngt (speedKmh c) (Fin (2 ^ 20))"
    unfolding simState_fields by (rule initialCars_in_range)
  note lo = spectrum_eval_initial(1) and b = spectrum_eval_initial(4)
  have suc: "Suc 204 = 205" by simp
  have hi: "calculateSpeedFromShift double (nmul double (Fin (real (Suc 204))) (Fin (11025 / 128)))
      (Fin ?f) = Fin (6940941302332221 / 17592186044416)"
    by (simp only: suc spectrum_eval_initial(2))
  have cut: "nmax (Fin 200) (nmul double (maxSpeed ?st) (double 0.8))
      = Fin (6934169652281165 / 17592186044416)"
    by (simp only: simState_fields spectrum_eval_initial(3))
  have res: "ndiv double (basebandSampleRateHz (radar ?st)) (fftSize (radar ?st))
      = Fin (11025 / 128)"
    by (simp only: simState_fields rp spectrum_eval_initial(5))
  have kept: "filter (\<lambda>i. nlt (calculateSpeedFromShift double
                                 (nmul double (Fin (real i)) (Fin (11025 / 128))) (Fin ?f))
                              (Fin (6934169652281165 / 17592186044416))) [0..<256]
      = [0..<min 256 (Suc 204)]"
    by (rule kept_prefix [OF b _ _ lo _ hi]) simp_all
  from generateDiscreteSpectrum_kept [OF f1 f2 s1 s2 n1 n2 cars, of "\<lambda>_. 0"] obtain bins
    where ret: "generateDiscreteSpectrum double (\<lambda>_. 0) ?st = Some (Inr bins)"
      and idx: "map binIndex bins = map (\<lambda>i. Fin (real i)) [0..<min 256 (Suc 204)]"
    unfolding res cut f1 kept by blast
  from idx have "length (map binIndex bins)
      = length (map (\<lambda>i. Fin (real i)) [0..<min 256 (Suc 204)])"
    by (simp only:)
  then have "length bins = 205" by simp
  moreover have "ndiv double (fftSize ?rp) (Fin 2) = Fin 256"
    using double_of_int [of 256] by (simp add: rp)
  ultimately show ?thesis using ret by simp
qed

section \<open>The static clutter and the size of the FFT\<close>

lemma halved_integer:
  assumes "isDouble m" and "double (m / 2) = Fin (real n)" and "2 \<le> n"
  shows "m = 2 * real n"
proof -
  from double_FinD(1) [OF assms(2)] have r: "roundReal (m / 2) = real n" by simp
  have "2 powi (- 1021) \<le> \<bar>m\<bar>"
  proof (rule ccontr)
    assume "\<not> 2 powi (- 1021) \<le> \<bar>m\<bar>"
    then have "\<bar>m\<bar> < 2 powi (- 1021)" by simp
    moreover have "(2::real) powi (- 1021) \<le> 1" by (rule pow2_low) simp
    ultimately have "\<bar>m / 2\<bar> \<le> 2 powi 0" by simp
    from roundReal_pow_le [OF _ this] have "\<bar>roundReal (m / 2)\<bar> \<le> 1" by simp
    with r assms(3) show False by simp
  qed
  from roundReal_halve [OF this] assms(1) have "roundReal (m / 2) = m / 2"
    by (simp add: isDouble_iff)
  with r show ?thesis by simp
qed

lemma generateDiscreteSpectrum_Inr_even:
  assumes res: "generateDiscreteSpectrum double rnd st = Some (Inr bins)"
    and m: "fftSize (radar st) = Fin m" "isDouble m"
  shows "\<exists>k::nat. m = 2 * real k \<and> 2 \<le> k
           \<and> (\<exists>data1.
                 forEachCar double (radar st) (Fin (real k))
                   (ndiv double (basebandSampleRateHz (radar st)) (fftSize (radar st))) (cars st)
                   (initialData double rnd
                      (ndiv double (basebandSampleRateHz (radar st)) (fftSize (radar st)))
                      (frequencyGHz (radar st)) k)
                   = Some (Inr data1)
               \<and> bins = filter (\<lambda>d. nlt (speed d)
                                   (nmax (Fin 200) (nmul double (maxSpeed st) (double 0.8))))
                           (data1[0 := (data1 ! 0)\<lparr>amp := nadd double (amp (data1 ! 0)) (Fin 150)\<rparr>,
                                  1 := (data1 ! 1)\<lparr>amp := nadd double (amp (data1 ! 1)) (Fin 50)\<rparr>]))"
proof -
  let ?numBins = "ndiv double (fftSize (radar st)) (Fin 2)"
  let ?freqRes = "ndiv double (basebandSampleRateHz (radar st)) (fftSize (radar st))"
  let ?cut = "nmax (Fin 200) (nmul double (maxSpeed st) (double 0.8))"
  note unfolded = res [unfolded generateDiscreteSpectrum_unfold]
  from unfolded obtain n where len: "arrayLength ?numBins = Inr n"
    by (cases "arrayLength ?numBins") simp_all
  let ?loop = "forEachCar double (radar st) ?numBins ?freqRes (cars st)
                 (initialData double rnd ?freqRes (frequencyGHz (radar st)) n)"
  note after_len = unfolded [unfolded len sum.case]
  from after_len obtain r1 where r1: "?loop = Some r1"
    by (cases ?loop) simp_all
  note after_loop = after_len [unfolded r1 option.case]
  from after_loop obtain data1 where d1: "r1 = Inr data1"
    by (cases r1) simp_all
  note after_d1 = after_loop [unfolded d1 sum.case]
  from after_d1 obtain data2 where d2: "addAmp double data1 (Fin 0) (Fin 150) = Inr data2"
    by (cases "addAmp double data1 (Fin 0) (Fin 150)") simp_all
  note after_d2 = after_d1 [unfolded d2 sum.case]
  from after_d2 obtain data3 where d3: "addAmp double data2 (Fin 1) (Fin 50) = Inr data3"
    by (cases "addAmp double data2 (Fin 1) (Fin 50)") simp_all
  from after_d2 have bins: "bins = filter (\<lambda>d. nlt (speed d) ?cut) data3"
    by (simp only: d3 sum.case option.inject sum.inject)
  from r1 d1 have loop: "?loop = Some (Inr data1)" by simp
  have l1: "length data1 = n"
    using grid_length [OF forEachCar_grid [OF loop]] by (simp only: length_initialData)
  with addAmp_length [OF d2] have l2: "length data2 = n" by simp
  with d3 have n2: "2 \<le> n" by (auto simp: addAmp_def split: if_splits)
  from arrayLength_Inr(1) [OF len] have numBins: "?numBins = Fin (real n)" .
  then have "double (m / 2) = Fin (real n)" by (simp add: m(1))
  from halved_integer [OF m(2) this n2] have even: "m = 2 * real n" .
  from n2 l1 have "0 < length data1" by simp
  from addAmp_0 [OF this] d2
  have data2: "data2 = data1[0 := (data1 ! 0)\<lparr>amp := nadd double (amp (data1 ! 0)) (Fin 150)\<rparr>]"
    by simp
  from n2 l2 have "1 < length data2" by simp
  from addAmp_1 [OF this] d3
  have "data3 = data2[1 := (data2 ! 1)\<lparr>amp := nadd double (amp (data2 ! 1)) (Fin 50)\<rparr>]"
    by simp
  moreover have "data2 ! 1 = data1 ! 1" by (simp add: data2)
  ultimately have data3: "data3 =
      data1[0 := (data1 ! 0)\<lparr>amp := nadd double (amp (data1 ! 0)) (Fin 150)\<rparr>,
            1 := (data1 ! 1)\<lparr>amp := nadd double (amp (data1 ! 1)) (Fin 50)\<rparr>]"
    by (simp only: data2)
  from loop have "forEachCar double (radar st) (Fin (real n)) ?freqRes (cars st)
      (initialData double rnd ?freqRes (frequencyGHz (radar st)) n) = Some (Inr data1)"
    by (simp only: numBins)
  with even n2 bins data3 show ?thesis by blast
qed

lemma generateDiscreteSpectrum_short:
  assumes "frequencyGHz (radar st) = Fin f" and "0 \<le> f" and "f \<le> 2 ^ 20"
    and "basebandSampleRateHz (radar st) = Fin s" and "isDouble s" and "1 \<le> s"
    and "\<forall>c\<in>set (cars st). \<not> ngt (speedKmh c) (Fin (2 ^ 20))"
    and n: "fftSize (radar st) = Fin (2 * real k)" and k: "k < 2"
  shows "generateDiscreteSpectrum double rnd st = Some (Inl TypeError)"
proof -
  let ?freqRes = "ndiv double (basebandSampleRateHz (radar st)) (fftSize (radar st))"
  let ?data = "initialData double rnd ?freqRes (frequencyGHz (radar st)) k"
  from k have k32: "k < 2 ^ 32" by simp
  have numBins: "ndiv double (fftSize (radar st)) (Fin 2) = Fin (real k)"
    by (simp only: n numBins_even [OF k32])
  have len: "arrayLength (Fin (real k)) = Inr k" using k by (intro arrayLength_nat) simp
  from carsLoop_returns [OF assms(1-7) k32, of ?freqRes rnd] obtain data1
    where d1: "forEachCar double (radar st) (Fin (real k)) ?freqRes (cars st) ?data
                 = Some (Inr data1)"
      and l1: "length data1 = k" by blast
  show ?thesis
  proof (cases "k = 0")
    case True
    with l1 have "real (length data1) \<le> 0" by simp
    from addAmp_out_of_range [OF this]
    have d2: "addAmp double data1 (Fin 0) (Fin 150) = Inl TypeError" .
    show ?thesis
      by (simp only: generateDiscreteSpectrum_unfold numBins len d1 d2 sum.case option.case)
  next
    case False
    with k l1 have one: "length data1 = 1" by simp
    then have "0 < length data1" by simp
    from addAmp_0 [OF this] obtain data2
      where d2: "addAmp double data1 (Fin 0) (Fin 150) = Inr data2" by blast
    from addAmp_length [OF d2] one have "real (length data2) \<le> 1" by simp
    from addAmp_out_of_range [OF this]
    have d3: "addAmp double data2 (Fin 1) (Fin 50) = Inl TypeError" .
    show ?thesis
      by (simp only: generateDiscreteSpectrum_unfold numBins len d1 d2 d3 sum.case option.case)
  qed
qed

lemma arrayLength_large: "4294967296 \<le> a \<Longrightarrow> arrayLength (Fin a) = Inl RangeError"
  by (simp add: arrayLength_def)

lemma generateDiscreteSpectrum_odd:
  assumes n: "fftSize (radar st) = Fin (2 * real j + 1)"
  shows "generateDiscreteSpectrum double rnd st = Some (Inl RangeError)"
proof -
  let ?x = "(2 * real j + 1) / 2"
  have numBins: "ndiv double (fftSize (radar st)) (Fin 2) = double ?x" by (simp add: n)
  have "arrayLength (double ?x) = Inl RangeError"
  proof (cases "2 * j + 1 < 2 ^ 53")
    case True
    have "?x = of_int (2 * int j + 1) * 2 powi (- 1)" by (simp add: power_int_minus)
    moreover have "double (of_int (2 * int j + 1) * 2 powi (- 1))
        = Fin (of_int (2 * int j + 1) * 2 powi (- 1))"
      using True by (intro double_dyadic) simp_all
    ultimately have d: "double ?x = Fin ?x" by simp
    have "\<lfloor>?x\<rfloor> = int j"
    proof (rule floor_unique)
      show "of_int (int j) \<le> ?x" by simp
      show "?x < of_int (int j) + 1" by simp
    qed
    then have "?x \<noteq> of_int \<lfloor>?x\<rfloor>" by (simp add: field_simps)
    then show ?thesis by (simp only: d arrayLength_def number.case) simp
  next
    case False
    then have "(2::nat) ^ 53 \<le> 2 * j + 1" by simp
    then have "real ((2::nat) ^ 53) \<le> real (2 * j + 1)" by (simp only: of_nat_le_iff)
    then have "(2::real) ^ 53 \<le> 2 * real j + 1" by simp
    then have "2 powi 52 \<le> ?x" by simp
    from roundReal_pow_ge [OF _ this] have big: "4294967296 \<le> roundReal ?x" by simp
    from double_cases [of ?x] show ?thesis
    proof (elim disjE)
      assume "double ?x = Fin (roundReal ?x)"
      with arrayLength_large [OF big] show ?thesis by simp
    qed (simp_all add: arrayLength_def)
  qed
  then show ?thesis by (simp only: generateDiscreteSpectrum_unfold numBins sum.case)
qed

text \<open>
  C10. When the synthesizer returns a spectrum, \<open>fftSize\<close> (a double) is an even
  integer of at least 4, and the returned bins are the filtered bins after the two
  updates that add the static clutter 150 and 50 to the amplitudes of bins 0 and 1. For
  \<open>fftSize = 2\<close> (with a configuration and cars for which the loop over the cars
  ends) the update of bin 1 is out of bounds, a \<open>TypeError\<close>; for an odd \<open>fftSize\<close>
  the array cannot be constructed, a \<open>RangeError\<close>.
\<close>

theorem dc_clutter_needs_even_fftSize:
  "(generateDiscreteSpectrum double rnd st = Some (Inr bins) \<and> fftSize (radar st) = Fin m
      \<and> isDouble m \<longrightarrow>
      (\<exists>k::nat. m = 2 * real k \<and> 2 \<le> k
         \<and> (\<exists>data1.
               forEachCar double (radar st) (Fin (real k))
                 (ndiv double (basebandSampleRateHz (radar st)) (fftSize (radar st))) (cars st)
                 (initialData double rnd
                    (ndiv double (basebandSampleRateHz (radar st)) (fftSize (radar st)))
                    (frequencyGHz (radar st)) k)
                 = Some (Inr data1)
             \<and> bins = filter (\<lambda>d. nlt (speed d)
                                 (nmax (Fin 200) (nmul double (maxSpeed st) (double 0.8))))
                         (data1[0 := (data1 ! 0)\<lparr>amp := nadd double (amp (data1 ! 0)) (Fin 150)\<rparr>,
                                1 := (data1 ! 1)\<lparr>amp := nadd double (amp (data1 ! 1)) (Fin 50)\<rparr>]))))
   \<and> (frequencyGHz (radar st) = Fin f \<and> 0 \<le> f \<and> f \<le> 2 ^ 20
        \<and> basebandSampleRateHz (radar st) = Fin s \<and> isDouble s \<and> 1 \<le> s
        \<and> (\<forall>c\<in>set (cars st). \<not> ngt (speedKmh c) (Fin (2 ^ 20)))
        \<and> fftSize (radar st) = Fin 2 \<longrightarrow>
      generateDiscreteSpectrum double rnd st = Some (Inl TypeError))
   \<and> (fftSize (radar st) = Fin (2 * real j + 1) \<longrightarrow>
      generateDiscreteSpectrum double rnd st = Some (Inl RangeError))"
proof (intro conjI impI)
  assume "generateDiscreteSpectrum double rnd st = Some (Inr bins) \<and> fftSize (radar st) = Fin m
      \<and> isDouble m"
  then show "\<exists>k::nat. m = 2 * real k \<and> 2 \<le> k
         \<and> (\<exists>data1.
               forEachCar double (radar st) (Fin (real k))
                 (ndiv double (basebandSampleRateHz (radar st)) (fftSize (radar st))) (cars st)
                 (initialData double rnd
                    (ndiv double (basebandSampleRateHz (radar st)) (fftSize (radar st)))
                    (frequencyGHz (radar st)) k)
                 = Some (Inr data1)
             \<and> bins = filter (\<lambda>d. nlt (speed d)
                                 (nmax (Fin 200) (nmul double (maxSpeed st) (double 0.8))))
                         (data1[0 := (data1 ! 0)\<lparr>amp := nadd double (amp (data1 ! 0)) (Fin 150)\<rparr>,
                                1 := (data1 ! 1)\<lparr>amp := nadd double (amp (data1 ! 1)) (Fin 50)\<rparr>]))"
    using generateDiscreteSpectrum_Inr_even [of rnd st bins m] by blast
next
  assume a: "frequencyGHz (radar st) = Fin f \<and> 0 \<le> f \<and> f \<le> 2 ^ 20
        \<and> basebandSampleRateHz (radar st) = Fin s \<and> isDouble s \<and> 1 \<le> s
        \<and> (\<forall>c\<in>set (cars st). \<not> ngt (speedKmh c) (Fin (2 ^ 20)))
        \<and> fftSize (radar st) = Fin 2"
  then have "fftSize (radar st) = Fin (2 * real (1::nat))" by simp
  with a show "generateDiscreteSpectrum double rnd st = Some (Inl TypeError)"
    using generateDiscreteSpectrum_short [of st f s 1 rnd] by simp
next
  assume "fftSize (radar st) = Fin (2 * real j + 1)"
  then show "generateDiscreteSpectrum double rnd st = Some (Inl RangeError)"
    by (rule generateDiscreteSpectrum_odd)
qed

lemma initial_frequency:
  "frequencyGHz (radar (simState double ((initialRadarParams double)\<lparr>fftSize := n\<rparr>) cs))
     = Fin (roundReal 24.15)"
  by (simp only: simState_fields initialRadarParams_def RadarParams.simps literal_2415(1))

lemma initial_frequency_bounds: "0 \<le> roundReal 24.15" "roundReal 24.15 \<le> 2 ^ 20"
  using literal_2415(2,3) by simp_all

lemma initial_rate:
  "basebandSampleRateHz (radar (simState double ((initialRadarParams double)\<lparr>fftSize := n\<rparr>) cs))
     = Fin 44100"
  by (simp add: simState_fields initialRadarParams_def)

lemma initial_rate_bounds: "isDouble 44100" "(1::real) \<le> 44100"
  using isDouble_44100 by simp_all

lemmas initial_state_hyps =
  initial_frequency initial_frequency_bounds initial_rate initial_rate_bounds

lemma initial_state_cars:
  "\<forall>c\<in>set (cars (simState double rp (initialCars double (\<lambda>_. 0) [Fin 80, Fin 110, Fin 60]))).
     \<not> ngt (speedKmh c) (Fin (2 ^ 20))"
  unfolding simState_fields by (rule initialCars_in_range)

lemma initial_state_returns:
  "\<exists>bins. generateDiscreteSpectrum double (\<lambda>_. 0)
     (simState double ((initialRadarParams double)\<lparr>fftSize := Fin 512\<rparr>)
        (initialCars double (\<lambda>_. 0) [Fin 80, Fin 110, Fin 60])) = Some (Inr bins)"
proof -
  let ?st = "simState double ((initialRadarParams double)\<lparr>fftSize := Fin 512\<rparr>)
        (initialCars double (\<lambda>_. 0) [Fin 80, Fin 110, Fin 60])"
  have n: "fftSize (radar ?st) = Fin (2 * real (256::nat))" "(2::nat) \<le> 256" "(256::nat) < 2 ^ 32"
    by (simp_all add: simState_fields)
  from generateDiscreteSpectrum_returns [OF initial_state_hyps n initial_state_cars, of "\<lambda>_. 0"]
  show ?thesis by blast
qed

theorem dc_clutter_needs_even_fftSize_witness:
  "(\<exists>bins k data1.
      generateDiscreteSpectrum double (\<lambda>_. 0)
        (simState double ((initialRadarParams double)\<lparr>fftSize := Fin 512\<rparr>)
           (initialCars double (\<lambda>_. 0) [Fin 80, Fin 110, Fin 60])) = Some (Inr bins)
      \<and> (512::real) = 2 * real k \<and> (2::nat) \<le> k
      \<and> forEachCar double ((initialRadarParams double)\<lparr>fftSize := Fin 512\<rparr>) (Fin (real k))
           (ndiv double (Fin 44100) (Fin 512))
           (initialCars double (\<lambda>_. 0) [Fin 80, Fin 110, Fin 60])
           (initialData double (\<lambda>_. 0) (ndiv double (Fin 44100) (Fin 512)) (double 24.15) k)
          = Some (Inr data1)
      \<and> bins = filter (\<lambda>d. nlt (speed d)
                          (nmax (Fin 200)
                             (nmul double
                                (maxSpeedKmh double ((initialRadarParams double)\<lparr>fftSize := Fin 512\<rparr>))
                                (double 0.8))))
                  (data1[0 := (data1 ! 0)\<lparr>amp := nadd double (amp (data1 ! 0)) (Fin 150)\<rparr>,
                         1 := (data1 ! 1)\<lparr>amp := nadd double (amp (data1 ! 1)) (Fin 50)\<rparr>]))
   \<and> fftSize (radar (simState double ((initialRadarParams double)\<lparr>fftSize := Fin 512\<rparr>)
        (initialCars double (\<lambda>_. 0) [Fin 80, Fin 110, Fin 60]))) = Fin 512
   \<and> isDouble 512
   \<and> frequencyGHz (radar (simState double ((initialRadarParams double)\<lparr>fftSize := Fin 2\<rparr>)
        (initialCars double (\<lambda>_. 0) [Fin 80, Fin 110, Fin 60]))) = Fin (roundReal 24.15)
   \<and> 0 \<le> roundReal 24.15 \<and> roundReal 24.15 \<le> 2 ^ 20
   \<and> basebandSampleRateHz (radar (simState double ((initialRadarParams double)\<lparr>fftSize := Fin 2\<rparr>)
        (initialCars double (\<lambda>_. 0) [Fin 80, Fin 110, Fin 60]))) = Fin 44100
   \<and> isDouble 44100 \<and> (1::real) \<le> 44100
   \<and> list_all (\<lambda>c. \<not> ngt (speedKmh c) (Fin (2 ^ 20)))
        (cars (simState double ((initialRadarParams double)\<lparr>fftSize := Fin 2\<rparr>)
           (initialCars double (\<lambda>_. 0) [Fin 80, Fin 110, Fin 60])))
   \<and> fftSize (radar (simState double ((initialRadarParams double)\<lparr>fftSize := Fin 2\<rparr>)
        (initialCars double (\<lambda>_. 0) [Fin 80, Fin 110, Fin 60]))) = Fin 2
   \<and> generateDiscreteSpectrum double (\<lambda>_. 0)
        (simState double ((initialRadarParams double)\<lparr>fftSize := Fin 2\<rparr>)
           (initialCars double (\<lambda>_. 0) [Fin 80, Fin 110, Fin 60])) = Some (Inl TypeError)
   \<and> fftSize (radar (simState double ((initialRadarParams double)\<lparr>fftSize := Fin 3\<rparr>)
        (initialCars double (\<lambda>_. 0) [Fin 80, Fin 110, Fin 60]))) = Fin (2 * real (1::nat) + 1)
   \<and> generateDiscreteSpectrum double (\<lambda>_. 0)
        (simState double ((initialRadarParams double)\<lparr>fftSize := Fin 3\<rparr>)
           (initialCars double (\<lambda>_. 0) [Fin 80, Fin 110, Fin 60])) = Some (Inl RangeError)"
proof -
  let ?cs = "initialCars double (\<lambda>_. 0) [Fin 80, Fin 110, Fin 60]"
  let ?rp = "(initialRadarParams double)\<lparr>fftSize := Fin 512\<rparr>"
  let ?st = "simState double ?rp ?cs"
  let ?st2 = "simState double ((initialRadarParams double)\<lparr>fftSize := Fin 2\<rparr>) ?cs"
  let ?st3 = "simState double ((initialRadarParams double)\<lparr>fftSize := Fin 3\<rparr>) ?cs"
  from initial_state_returns obtain bins
    where ok: "generateDiscreteSpectrum double (\<lambda>_. 0) ?st = Some (Inr bins)" by blast
  have fields: "radar ?st = ?rp" "cars ?st = ?cs" "maxSpeed ?st = maxSpeedKmh double ?rp"
    "basebandSampleRateHz ?rp = Fin 44100" "fftSize ?rp = Fin 512"
    "frequencyGHz ?rp = double 24.15"
    by (simp_all add: simState_fields initialRadarParams_def)
  have m: "fftSize (radar ?st) = Fin 512" by (simp only: fields)
  have d512: "isDouble 512" using isDouble_of_int [of 512] by simp
  from dc_clutter_needs_even_fftSize [of "\<lambda>_. 0" ?st bins 512] ok m d512
  obtain k data1 where "(512::real) = 2 * real k" and "(2::nat) \<le> k"
    and "forEachCar double (radar ?st) (Fin (real k))
           (ndiv double (basebandSampleRateHz (radar ?st)) (fftSize (radar ?st))) (cars ?st)
           (initialData double (\<lambda>_. 0)
              (ndiv double (basebandSampleRateHz (radar ?st)) (fftSize (radar ?st)))
              (frequencyGHz (radar ?st)) k)
          = Some (Inr data1)"
    and "bins = filter (\<lambda>d. nlt (speed d)
                          (nmax (Fin 200) (nmul double (maxSpeed ?st) (double 0.8))))
                  (data1[0 := (data1 ! 0)\<lparr>amp := nadd double (amp (data1 ! 0)) (Fin 150)\<rparr>,
                         1 := (data1 ! 1)\<lparr>amp := nadd double (amp (data1 ! 1)) (Fin 50)\<rparr>])"
    by blast
  with ok have a: "\<exists>bins k data1.
      generateDiscreteSpectrum double (\<lambda>_. 0) ?st = Some (Inr bins)
      \<and> (512::real) = 2 * real k \<and> (2::nat) \<le> k
      \<and> forEachCar double ?rp (Fin (real k)) (ndiv double (Fin 44100) (Fin 512)) ?cs
           (initialData double (\<lambda>_. 0) (ndiv double (Fin 44100) (Fin 512)) (double 24.15) k)
          = Some (Inr data1)
      \<and> bins = filter (\<lambda>d. nlt (speed d)
                          (nmax (Fin 200) (nmul double (maxSpeedKmh double ?rp) (double 0.8))))
                  (data1[0 := (data1 ! 0)\<lparr>amp := nadd double (amp (data1 ! 0)) (Fin 150)\<rparr>,
                         1 := (data1 ! 1)\<lparr>amp := nadd double (amp (data1 ! 1)) (Fin 50)\<rparr>])"
    unfolding fields by blast
  note two = initial_frequency [of "Fin 2" ?cs] initial_frequency_bounds
    initial_rate [of "Fin 2" ?cs] initial_rate_bounds
  have cars2: "\<forall>c\<in>set (cars ?st2). \<not> ngt (speedKmh c) (Fin (2 ^ 20))"
    by (rule initial_state_cars)
  have n2: "fftSize (radar ?st2) = Fin 2" by (simp add: simState_fields)
  from dc_clutter_needs_even_fftSize [of "\<lambda>_. 0" ?st2 _ _ "roundReal 24.15" 44100] two cars2 n2
  have b: "generateDiscreteSpectrum double (\<lambda>_. 0) ?st2 = Some (Inl TypeError)" by blast
  have three: "fftSize (radar ?st3) = Fin (2 * real (1::nat) + 1)"
    by (simp add: simState_fields)
  from dc_clutter_needs_even_fftSize [of "\<lambda>_. 0" ?st3 _ _ _ _ 1] three
  have c: "generateDiscreteSpectrum double (\<lambda>_. 0) ?st3 = Some (Inl RangeError)" by blast
  from cars2 have l2: "list_all (\<lambda>c. \<not> ngt (speedKmh c) (Fin (2 ^ 20))) (cars ?st2)"
    by (simp only: list_all_iff)
  from a m d512 two l2 n2 b three c show ?thesis by blast
qed

section \<open>No validation of the configuration\<close>

lemma not_finite_signedInf: "\<not> isFinite (signedInf a)"
  by (simp add: signedInf_def)

lemma freqResolution_zero_size: "\<not> isFinite (calculateFreqResolution double (Fin s) (Fin 0))"
  by (simp add: calculateFreqResolution_def not_finite_signedInf)

lemma speedFromShift_zero_frequency:
  "\<not> isFinite (calculateSpeedFromShift double (Fin d) (Fin 0))"
proof -
  have z: "nmul double (Fin 2) (nmul double (Fin 0) (Fin 1000000000)) = Fin 0" by simp
  have expand: "calculateSpeedFromShift double (Fin d) (Fin 0)
      = nmul double (ndiv double (nmul double (Fin d) C) (Fin 0)) (Fin (roundReal 3.6))"
    by (simp only: calculateSpeedFromShift_def Let_def z literal_36(1))
  have "ndiv double x (Fin 0) = NaN \<or> ndiv double x (Fin 0) = PosInf
      \<or> ndiv double x (Fin 0) = NegInf" for x
    by (cases x) (simp_all add: signedInf_def)
  moreover have "\<not> isFinite (nmul double y (Fin (roundReal 3.6)))"
    if "y = NaN \<or> y = PosInf \<or> y = NegInf" for y
    using that literal_36(2) by (auto simp: signedInf_def)
  ultimately show ?thesis unfolding expand by blast
qed

lemma wavelength_zero_frequency: "\<not> isFinite (calculateWavelengthMm double (Fin 0))"
  by (simp add: calculateWavelengthMm_def C_def signedInf_def)

lemma freqResolution_zero_rate: "n \<noteq> 0 \<Longrightarrow> calculateFreqResolution double (Fin 0) (Fin n) = Fin 0"
  by (simp add: calculateFreqResolution_def)

lemma generateDiscreteSpectrum_negative:
  assumes "fftSize (radar st) = Fin m" and "m \<le> - 1"
  shows "generateDiscreteSpectrum double rnd st = Some (Inl RangeError)"
proof -
  have numBins: "ndiv double (fftSize (radar st)) (Fin 2) = double (m / 2)"
    by (simp add: assms(1))
  have "roundReal (of_int (- 1) * 2 powi (- 1)) = of_int (- 1) * 2 powi (- 1)"
    by (rule roundReal_dyadic) simp_all
  then have half: "roundReal (- 1 / 2) = - 1 / 2" by (simp add: power_int_minus)
  from assms(2) have "m / 2 \<le> - 1 / 2" by simp
  from roundReal_mono [OF this] half have neg: "roundReal (m / 2) < 0" by simp
  have "arrayLength (double (m / 2)) = Inl RangeError"
    using double_cases [of "m / 2"] neg by (auto simp: arrayLength_def)
  then show ?thesis by (simp only: generateDiscreteSpectrum_unfold numBins sum.case)
qed

text \<open>
  C2, as the code has it. No operation validates the configuration, and the numeric
  operations return a number whatever their arguments. With \<open>fftSize = 0\<close> the
  frequency resolution is not finite, for every sample rate; with \<open>frequencyGHz = 0\<close>
  the wavelength and every speed computed from a shift are not finite; with a sample
  rate of 0 the frequency resolution is 0. For a \<open>fftSize\<close> of \<open>-1\<close> or less the
  synthesizer throws the \<open>RangeError\<close> of the runtime at \<open>new Array\<close>, and for
  \<open>fftSize = 0\<close> its \<open>TypeError\<close> at \<open>data[0]\<close> (for a configuration and cars for
  which the loop over the cars ends). For a carrier frequency from 0 to \<open>2^20\<close> GHz, a
  sample rate that is a double of at least 1 Hz, an even \<open>fftSize = 2 * k\<close> with
  \<open>2 \<le> k < 2^32\<close> and cars of at most \<open>2^20\<close> km/h, the synthesizer returns a spectrum
  and throws nothing.
\<close>

theorem no_configuration_check:
  "\<not> isFinite (calculateFreqResolution double (Fin s0) (Fin 0))
   \<and> \<not> isFinite (calculateWavelengthMm double (Fin 0))
   \<and> \<not> isFinite (calculateSpeedFromShift double (Fin d) (Fin 0))
   \<and> (n \<noteq> 0 \<longrightarrow> calculateFreqResolution double (Fin 0) (Fin n) = Fin 0)
   \<and> (fftSize (radar st) = Fin m \<and> m \<le> - 1 \<longrightarrow>
        generateDiscreteSpectrum double rnd st = Some (Inl RangeError))
   \<and> (frequencyGHz (radar st) = Fin f \<and> 0 \<le> f \<and> f \<le> 2 ^ 20
        \<and> basebandSampleRateHz (radar st) = Fin s \<and> isDouble s \<and> 1 \<le> s
        \<and> (\<forall>c\<in>set (cars st). \<not> ngt (speedKmh c) (Fin (2 ^ 20))) \<longrightarrow>
      (fftSize (radar st) = Fin 0 \<longrightarrow>
         generateDiscreteSpectrum double rnd st = Some (Inl TypeError))
      \<and> (fftSize (radar st) = Fin (2 * real k) \<and> 2 \<le> k \<and> k < 2 ^ 32 \<longrightarrow>
           (\<exists>bins. generateDiscreteSpectrum double rnd st = Some (Inr bins))))"
proof (intro conjI impI)
  show "\<not> isFinite (calculateFreqResolution double (Fin s0) (Fin 0))"
    by (rule freqResolution_zero_size)
  show "\<not> isFinite (calculateWavelengthMm double (Fin 0))"
    by (rule wavelength_zero_frequency)
  show "\<not> isFinite (calculateSpeedFromShift double (Fin d) (Fin 0))"
    by (rule speedFromShift_zero_frequency)
next
  assume "n \<noteq> 0"
  then show "calculateFreqResolution double (Fin 0) (Fin n) = Fin 0"
    by (rule freqResolution_zero_rate)
next
  assume "fftSize (radar st) = Fin m \<and> m \<le> - 1"
  then show "generateDiscreteSpectrum double rnd st = Some (Inl RangeError)"
    using generateDiscreteSpectrum_negative [of st m rnd] by blast
next
  assume a: "frequencyGHz (radar st) = Fin f \<and> 0 \<le> f \<and> f \<le> 2 ^ 20
        \<and> basebandSampleRateHz (radar st) = Fin s \<and> isDouble s \<and> 1 \<le> s
        \<and> (\<forall>c\<in>set (cars st). \<not> ngt (speedKmh c) (Fin (2 ^ 20)))"
    and "fftSize (radar st) = Fin 0"
  then have "fftSize (radar st) = Fin (2 * real (0::nat))" by simp
  with a show "generateDiscreteSpectrum double rnd st = Some (Inl TypeError)"
    using generateDiscreteSpectrum_short [of st f s 0 rnd] by simp
next
  assume a: "frequencyGHz (radar st) = Fin f \<and> 0 \<le> f \<and> f \<le> 2 ^ 20
        \<and> basebandSampleRateHz (radar st) = Fin s \<and> isDouble s \<and> 1 \<le> s
        \<and> (\<forall>c\<in>set (cars st). \<not> ngt (speedKmh c) (Fin (2 ^ 20)))"
    and b: "fftSize (radar st) = Fin (2 * real k) \<and> 2 \<le> k \<and> k < 2 ^ 32"
  with generateDiscreteSpectrum_returns [of st f s k rnd]
  show "\<exists>bins. generateDiscreteSpectrum double rnd st = Some (Inr bins)" by blast
qed

theorem no_configuration_check_witness:
  "(512::real) \<noteq> 0 \<and> calculateFreqResolution double (Fin 0) (Fin 512) = Fin 0
   \<and> fftSize (radar (simState double ((initialRadarParams double)\<lparr>fftSize := Fin (- 512)\<rparr>)
        (initialCars double (\<lambda>_. 0) [Fin 80, Fin 110, Fin 60]))) = Fin (- 512)
   \<and> (- 512::real) \<le> - 1
   \<and> generateDiscreteSpectrum double (\<lambda>_. 0)
        (simState double ((initialRadarParams double)\<lparr>fftSize := Fin (- 512)\<rparr>)
           (initialCars double (\<lambda>_. 0) [Fin 80, Fin 110, Fin 60])) = Some (Inl RangeError)
   \<and> frequencyGHz (radar (simState double ((initialRadarParams double)\<lparr>fftSize := Fin 0\<rparr>)
        (initialCars double (\<lambda>_. 0) [Fin 80, Fin 110, Fin 60]))) = Fin (roundReal 24.15)
   \<and> 0 \<le> roundReal 24.15 \<and> roundReal 24.15 \<le> 2 ^ 20
   \<and> basebandSampleRateHz (radar (simState double ((initialRadarParams double)\<lparr>fftSize := Fin 0\<rparr>)
        (initialCars double (\<lambda>_. 0) [Fin 80, Fin 110, Fin 60]))) = Fin 44100
   \<and> isDouble 44100 \<and> (1::real) \<le> 44100
   \<and> list_all (\<lambda>c. \<not> ngt (speedKmh c) (Fin (2 ^ 20)))
        (cars (simState double ((initialRadarParams double)\<lparr>fftSize := Fin 0\<rparr>)
           (initialCars double (\<lambda>_. 0) [Fin 80, Fin 110, Fin 60])))
   \<and> fftSize (radar (simState double ((initialRadarParams double)\<lparr>fftSize := Fin 0\<rparr>)
        (initialCars double (\<lambda>_. 0) [Fin 80, Fin 110, Fin 60]))) = Fin 0
   \<and> generateDiscreteSpectrum double (\<lambda>_. 0)
        (simState double ((initialRadarParams double)\<lparr>fftSize := Fin 0\<rparr>)
           (initialCars double (\<lambda>_. 0) [Fin 80, Fin 110, Fin 60])) = Some (Inl TypeError)
   \<and> fftSize (radar (simState double ((initialRadarParams double)\<lparr>fftSize := Fin 512\<rparr>)
        (initialCars double (\<lambda>_. 0) [Fin 80, Fin 110, Fin 60]))) = Fin (2 * real (256::nat))
   \<and> (2::nat) \<le> 256 \<and> (256::nat) < 2 ^ 32
   \<and> (\<exists>bins. generateDiscreteSpectrum double (\<lambda>_. 0)
        (simState double ((initialRadarParams double)\<lparr>fftSize := Fin 512\<rparr>)
           (initialCars double (\<lambda>_. 0) [Fin 80, Fin 110, Fin 60])) = Some (Inr bins))"
proof -
  let ?cs = "initialCars double (\<lambda>_. 0) [Fin 80, Fin 110, Fin 60]"
  let ?zero = "simState double ((initialRadarParams double)\<lparr>fftSize := Fin 0\<rparr>) ?cs"
  let ?st = "simState double ((initialRadarParams double)\<lparr>fftSize := Fin 512\<rparr>) ?cs"
  let ?neg = "simState double ((initialRadarParams double)\<lparr>fftSize := Fin (- 512)\<rparr>) ?cs"
  have nz: "(512::real) \<noteq> 0" by simp
  have m: "fftSize (radar ?neg) = Fin (- 512)" "(- 512::real) \<le> - 1"
    by (simp_all add: simState_fields)
  from no_configuration_check [where st = ?neg and m = "- 512" and rnd = "\<lambda>_. 0"] m
  have range: "generateDiscreteSpectrum double (\<lambda>_. 0) ?neg = Some (Inl RangeError)" by blast
  from no_configuration_check [where n = 512] nz
  have rate: "calculateFreqResolution double (Fin 0) (Fin 512) = Fin 0" by blast
  note zero = initial_frequency [of "Fin 0" ?cs] initial_frequency_bounds
    initial_rate [of "Fin 0" ?cs] initial_rate_bounds
  have cars0: "\<forall>c\<in>set (cars ?zero). \<not> ngt (speedKmh c) (Fin (2 ^ 20))"
    by (rule initial_state_cars)
  have n0: "fftSize (radar ?zero) = Fin 0" by (simp only: simState_fields) simp
  from no_configuration_check [where st = ?zero and f = "roundReal 24.15" and s = 44100
      and rnd = "\<lambda>_. 0"] zero cars0 n0
  have thrown: "generateDiscreteSpectrum double (\<lambda>_. 0) ?zero = Some (Inl TypeError)" by blast
  note ok = initial_frequency [of "Fin 512" ?cs] initial_frequency_bounds
    initial_rate [of "Fin 512" ?cs] initial_rate_bounds
  have cars: "\<forall>c\<in>set (cars ?st). \<not> ngt (speedKmh c) (Fin (2 ^ 20))"
    by (rule initial_state_cars)
  have n: "fftSize (radar ?st) = Fin (2 * real (256::nat))" "(2::nat) \<le> 256" "(256::nat) < 2 ^ 32"
    by (simp_all add: simState_fields)
  from no_configuration_check [where st = ?st and f = "roundReal 24.15" and s = 44100
      and rnd = "\<lambda>_. 0" and k = 256] ok cars n
  have returned: "\<exists>bins. generateDiscreteSpectrum double (\<lambda>_. 0) ?st = Some (Inr bins)" by blast
  from cars0 have l0: "list_all (\<lambda>c. \<not> ngt (speedKmh c) (Fin (2 ^ 20))) (cars ?zero)"
    by (simp only: list_all_iff)
  from nz rate m range zero l0 n0 thrown n returned show ?thesis by blast
qed

text \<open>
  C2 as stated fails on both counts. A non-positive field raises nothing: a
  \<open>fftSize\<close> of 0 gives the frequency resolution \<open>Infinity\<close>, a negative sample rate
  a negative one. And a valid configuration can raise: \<open>fftSize = 2\<close> is positive,
  and the synthesizer throws a \<open>TypeError\<close>.
\<close>

theorem no_configuration_check_counterexample:
  "calculateFreqResolution double (Fin 44100) (Fin 0) = PosInf
   \<and> calculateFreqResolution double (Fin (- 44100)) (Fin 512) = Fin (- (11025 / 128))
   \<and> generateDiscreteSpectrum double (\<lambda>_. 0)
        (simState double ((initialRadarParams double)\<lparr>fftSize := Fin 2\<rparr>)
           (initialCars double (\<lambda>_. 0) [Fin 80, Fin 110, Fin 60])) = Some (Inl TypeError)"
proof -
  let ?cs = "initialCars double (\<lambda>_. 0) [Fin 80, Fin 110, Fin 60]"
  let ?st2 = "simState double ((initialRadarParams double)\<lparr>fftSize := Fin 2\<rparr>) ?cs"
  have inf: "calculateFreqResolution double (Fin 44100) (Fin 0) = PosInf"
    by (simp add: calculateFreqResolution_def signedInf_def)
  have "double (- 44100 / 512) = Fin (- (11025 / 128))"
    by (rule double_eval [of _ "- 6061057848115200" "- 46"]) simp_all
  then have neg: "calculateFreqResolution double (Fin (- 44100)) (Fin 512) = Fin (- (11025 / 128))"
    by (simp add: calculateFreqResolution_def)
  have "fftSize (radar ?st2) = Fin (2 * real (1::nat))" by (simp add: simState_fields)
  from generateDiscreteSpectrum_short [OF initial_state_hyps initial_state_cars this, of "\<lambda>_. 0"]
  have "generateDiscreteSpectrum double (\<lambda>_. 0) ?st2 = Some (Inl TypeError)" by simp
  with inf neg show ?thesis by simp
qed

section \<open>The scenario of one car at 80 km/h\<close>

text \<open>The scenario as the program computes it, in double arithmetic.\<close>

lemma scenario_doubles:
  "realDopplerShift double (initialRadarParams double) (initialCars double (\<lambda>_. 0) [Fin 80])
     = Fin (7873063174121433 / 2199023255552)"
  "freqResolutionHz double (initialRadarParams double) = Fin (11025 / 128)"
  "ndiv double (realDopplerShift double (initialRadarParams double)
                  (initialCars double (\<lambda>_. 0) [Fin 80]))
     (freqResolutionHz double (initialRadarParams double))
     = Fin (2924994717569287 / 70368744177664)"
  "ndiv double (Fin (7873063174121433 / 2199023255552)) (Fin (11025 / 128))
     = Fin (2924994717569287 / 70368744177664)"
  "measuredShiftHz double (initialRadarParams double) (initialCars double (\<lambda>_. 0) [Fin 80])
     = Fin (231525 / 64)"
  "measuredSpeedKmh double (initialRadarParams double) (initialCars double (\<lambda>_. 0) [Fin 80])
     = Fin (5688186042886893 / 70368744177664)"
  "measurementError double (initialRadarParams double) (initialCars double (\<lambda>_. 0) [Fin 80])
     = Fin (58686508673773 / 70368744177664)"
proof -
  have f: "double (24.15) = Fin (3398810343781171 / 140737488355328)"
    by (rule double_eval [of _ "6797620687562342" "- 48"]) simp_all
  have t: "double (3.6) = Fin (8106479329266893 / 2251799813685248)"
    by (rule double_eval [of _ "8106479329266893" "- 51"]) simp_all
  have y1: "double (80 / (8106479329266893 / 2251799813685248)) = Fin (3127499741229511 / 140737488355328)"
    by (rule double_eval [of _ "6254999482459022" "- 48"]) simp_all
  have y2: "double (2 * (3127499741229511 / 140737488355328)) = Fin (3127499741229511 / 70368744177664)"
    by (rule double_eval [of _ "6254999482459022" "- 47"]) simp_all
  have h: "double ((3398810343781171 / 140737488355328) * 1000000000) = Fin 24150000000"
    by (rule double_eval [of _ "6330777600000000" "- 18"]) simp_all
  have y4: "double ((3127499741229511 / 70368744177664) * 24150000000) = Fin (4396373333333333 / 4096)"
    by (rule double_eval [of _ "8792746666666666" "- 13"]) simp_all
  have y5: "double ((4396373333333333 / 4096) * 1) = Fin (4396373333333333 / 4096)"
    by (rule double_eval [of _ "8792746666666666" "- 13"]) simp_all
  have d: "double ((4396373333333333 / 4096) / 299792458) = Fin (7873063174121433 / 2199023255552)"
    by (rule double_eval [of _ "7873063174121433" "- 41"]) simp_all
  have fr: "double (44100 / 512) = Fin (11025 / 128)"
    by (rule double_eval [of _ "6061057848115200" "- 46"]) simp_all
  have q: "double ((7873063174121433 / 2199023255552) / (11025 / 128)) = Fin (2924994717569287 / 70368744177664)"
    by (rule double_eval [of _ "5849989435138574" "- 47"]) simp_all
  have msh: "double (42 * (11025 / 128)) = Fin (231525 / 64)"
    by (rule double_eval [of _ "7955138425651200" "- 41"]) simp_all
  have b: "double (2 * 24150000000) = Fin 48300000000"
    by (rule double_eval [of _ "6330777600000000" "- 17"]) simp_all
  have a: "double ((231525 / 64) * 299792458) = Fin (34704724419225 / 32)"
    by (rule double_eval [of _ "8884409451321600" "- 13"]) simp_all
  have v: "double ((34704724419225 / 32) / 48300000000) = Fin (3160103357159385 / 140737488355328)"
    by (rule double_eval [of _ "6320206714318770" "- 48"]) simp_all
  have w: "double ((3160103357159385 / 140737488355328) * (8106479329266893 / 2251799813685248)) = Fin (5688186042886893 / 70368744177664)"
    by (rule double_eval [of _ "5688186042886893" "- 46"]) simp_all
  have err: "double ((5688186042886893 / 70368744177664) + - 80) = Fin (58686508673773 / 70368744177664)"
    by (rule double_eval [of _ "7511873110242944" "- 53"]) simp_all
  have t': "roundReal 3.6 = 8106479329266893 / 2251799813685248"
    using t by (simp only: literal_36(1) number.inject)
  have nz: "((299792458::real) = 0) = False" "((512::real) = 0) = False"
    "((11025 / 128 :: real) = 0) = False" "((48300000000::real) = 0) = False"
    "((8106479329266893 / 2251799813685248 :: real) = 0) = False"
    by simp_all
  have rnd: "nround (Fin (2924994717569287 / 70368744177664)) = Fin 42" by simp
  show shift: "realDopplerShift double (initialRadarParams double)
      (initialCars double (\<lambda>_. 0) [Fin 80]) = Fin (7873063174121433 / 2199023255552)"
    by (simp only: realDopplerShift_def realTargetSpeed_80 initial_fields f
        calculateDopplerShift_double t' C_def nmul.simps ndiv.simps nz if_False
        y1 y2 h y4 y5 d)
  show res: "freqResolutionHz double (initialRadarParams double) = Fin (11025 / 128)"
    by (simp only: freqResolutionHz_def initial_fields ndiv.simps nz if_False fr)
  show bin: "ndiv double (realDopplerShift double (initialRadarParams double)
                  (initialCars double (\<lambda>_. 0) [Fin 80]))
     (freqResolutionHz double (initialRadarParams double))
     = Fin (2924994717569287 / 70368744177664)"
    by (simp only: shift res ndiv.simps nz if_False q)
  show "ndiv double (Fin (7873063174121433 / 2199023255552)) (Fin (11025 / 128))
     = Fin (2924994717569287 / 70368744177664)"
    by (simp only: ndiv.simps nz if_False q)
  show mshift: "measuredShiftHz double (initialRadarParams double)
      (initialCars double (\<lambda>_. 0) [Fin 80]) = Fin (231525 / 64)"
    by (simp only: measuredShiftHz_def bin) (simp only: rnd res nmul.simps msh)
  show mspeed: "measuredSpeedKmh double (initialRadarParams double)
      (initialCars double (\<lambda>_. 0) [Fin 80]) = Fin (5688186042886893 / 70368744177664)"
    by (simp only: measuredSpeedKmh_def mshift initial_fields f calculateSpeedFromShift_def
        Let_def C_def t nmul.simps ndiv.simps nz if_False h b a v w)
  show "measurementError double (initialRadarParams double)
      (initialCars double (\<lambda>_. 0) [Fin 80]) = Fin (58686508673773 / 70368744177664)"
    by (simp only: measurementError_def mspeed realTargetSpeed_80 nsub_def nneg.simps
        nadd.simps err)
qed

text \<open>
  C5, as the code computes it. With 24.15 GHz, 44100 Hz, 512 points and one car at
  80 km/h the Doppler shift is within 1 Hz of 3580.3 Hz, the frequency resolution is
  86.1328125 Hz, the shift falls on bin round(41.57) = 42, and the speed measured from
  bin 42 is within 0.05 km/h of 80.8 km/h: a quantization error of more than 0.8 km/h.
  This holds over exact arithmetic (the first eight statements) and for the doubles
  of the program (the last eight).
\<close>

theorem scenario_80kmh:
  "nlt (nabs (nsub Fin (realDopplerShift Fin (initialRadarParams Fin)
                          (initialCars Fin (\<lambda>_. 0) [Fin 80]))
                    (Fin 3580.3))) (Fin 1)
   \<and> calculateFreqResolution Fin (Fin 44100) (Fin 512) = Fin 86.1328125
   \<and> freqResolutionHz Fin (initialRadarParams Fin) = Fin 86.1328125
   \<and> nlt (nabs (nsub Fin (ndiv Fin (realDopplerShift Fin (initialRadarParams Fin)
                                      (initialCars Fin (\<lambda>_. 0) [Fin 80]))
                            (freqResolutionHz Fin (initialRadarParams Fin)))
                      (Fin 41.57))) (Fin 0.005)
   \<and> nround (ndiv Fin (realDopplerShift Fin (initialRadarParams Fin)
                         (initialCars Fin (\<lambda>_. 0) [Fin 80]))
                  (freqResolutionHz Fin (initialRadarParams Fin))) = Fin 42
   \<and> measuredShiftHz Fin (initialRadarParams Fin) (initialCars Fin (\<lambda>_. 0) [Fin 80])
       = Fin (42 * 86.1328125)
   \<and> nlt (nabs (nsub Fin (measuredSpeedKmh Fin (initialRadarParams Fin)
                            (initialCars Fin (\<lambda>_. 0) [Fin 80]))
                      (Fin 80.8))) (Fin 0.05)
   \<and> ngt (measurementError Fin (initialRadarParams Fin) (initialCars Fin (\<lambda>_. 0) [Fin 80]))
         (Fin 0.8)
   \<and> nlt (nabs (nsub Fin (realDopplerShift double (initialRadarParams double)
                            (initialCars double (\<lambda>_. 0) [Fin 80]))
                      (Fin 3580.3))) (Fin 1)
   \<and> calculateFreqResolution double (Fin 44100) (Fin 512) = Fin 86.1328125
   \<and> freqResolutionHz double (initialRadarParams double) = Fin 86.1328125
   \<and> nlt (nabs (nsub Fin (ndiv double (realDopplerShift double (initialRadarParams double)
                                         (initialCars double (\<lambda>_. 0) [Fin 80]))
                            (freqResolutionHz double (initialRadarParams double)))
                      (Fin 41.57))) (Fin 0.005)
   \<and> nround (ndiv double (realDopplerShift double (initialRadarParams double)
                            (initialCars double (\<lambda>_. 0) [Fin 80]))
                  (freqResolutionHz double (initialRadarParams double))) = Fin 42
   \<and> measuredShiftHz double (initialRadarParams double) (initialCars double (\<lambda>_. 0) [Fin 80])
       = Fin (42 * 86.1328125)
   \<and> nlt (nabs (nsub Fin (measuredSpeedKmh double (initialRadarParams double)
                            (initialCars double (\<lambda>_. 0) [Fin 80]))
                      (Fin 80.8))) (Fin 0.05)
   \<and> ngt (measurementError double (initialRadarParams double)
            (initialCars double (\<lambda>_. 0) [Fin 80]))
         (Fin 0.8)"
proof -
  have exact:
    "nlt (nabs (nsub Fin (realDopplerShift Fin (initialRadarParams Fin)
                          (initialCars Fin (\<lambda>_. 0) [Fin 80]))
                    (Fin 3580.3))) (Fin 1)
   \<and> calculateFreqResolution Fin (Fin 44100) (Fin 512) = Fin 86.1328125
   \<and> freqResolutionHz Fin (initialRadarParams Fin) = Fin 86.1328125
   \<and> nlt (nabs (nsub Fin (ndiv Fin (realDopplerShift Fin (initialRadarParams Fin)
                                      (initialCars Fin (\<lambda>_. 0) [Fin 80]))
                            (freqResolutionHz Fin (initialRadarParams Fin)))
                      (Fin 41.57))) (Fin 0.005)
   \<and> nround (ndiv Fin (realDopplerShift Fin (initialRadarParams Fin)
                         (initialCars Fin (\<lambda>_. 0) [Fin 80]))
                  (freqResolutionHz Fin (initialRadarParams Fin))) = Fin 42
   \<and> measuredShiftHz Fin (initialRadarParams Fin) (initialCars Fin (\<lambda>_. 0) [Fin 80])
       = Fin (42 * 86.1328125)
   \<and> nlt (nabs (nsub Fin (measuredSpeedKmh Fin (initialRadarParams Fin)
                            (initialCars Fin (\<lambda>_. 0) [Fin 80]))
                      (Fin 80.8))) (Fin 0.05)
   \<and> ngt (measurementError Fin (initialRadarParams Fin) (initialCars Fin (\<lambda>_. 0) [Fin 80]))
         (Fin 0.8)"
    by (simp only: measuredShiftHz_80 measurementError_def measuredSpeedKmh_80
          realTargetSpeed_80 realDopplerShift_80 freqResolutionHz_initial calculateFreqResolution_def)
       (simp add: nsub_def nlt_def)
  have res: "calculateFreqResolution double (Fin 44100) (Fin 512)
      = freqResolutionHz double (initialRadarParams double)"
    by (simp only: calculateFreqResolution_def freqResolutionHz_def initial_fields)
  have doubles:
    "nlt (nabs (nsub Fin (realDopplerShift double (initialRadarParams double)
                            (initialCars double (\<lambda>_. 0) [Fin 80]))
                      (Fin 3580.3))) (Fin 1)
   \<and> calculateFreqResolution double (Fin 44100) (Fin 512) = Fin 86.1328125
   \<and> freqResolutionHz double (initialRadarParams double) = Fin 86.1328125
   \<and> nlt (nabs (nsub Fin (ndiv double (realDopplerShift double (initialRadarParams double)
                                         (initialCars double (\<lambda>_. 0) [Fin 80]))
                            (freqResolutionHz double (initialRadarParams double)))
                      (Fin 41.57))) (Fin 0.005)
   \<and> nround (ndiv double (realDopplerShift double (initialRadarParams double)
                            (initialCars double (\<lambda>_. 0) [Fin 80]))
                  (freqResolutionHz double (initialRadarParams double))) = Fin 42
   \<and> measuredShiftHz double (initialRadarParams double) (initialCars double (\<lambda>_. 0) [Fin 80])
       = Fin (42 * 86.1328125)
   \<and> nlt (nabs (nsub Fin (measuredSpeedKmh double (initialRadarParams double)
                            (initialCars double (\<lambda>_. 0) [Fin 80]))
                      (Fin 80.8))) (Fin 0.05)
   \<and> ngt (measurementError double (initialRadarParams double)
            (initialCars double (\<lambda>_. 0) [Fin 80]))
         (Fin 0.8)"
    by (simp only: res scenario_doubles) (simp add: nsub_def nlt_def)
  from exact doubles show ?thesis by blast
qed

text \<open>
  C5 as stated fails, over exact arithmetic and in doubles: the Doppler shift of the
  scenario is more than 1 Hz away from 3573.6 Hz, and the quantized bin is not 41.
\<close>

theorem scenario_80kmh_counterexample:
  "ngt (nabs (nsub Fin (realDopplerShift Fin (initialRadarParams Fin)
                          (initialCars Fin (\<lambda>_. 0) [Fin 80]))
                    (Fin 3573.6))) (Fin 1)
   \<and> nround (ndiv Fin (realDopplerShift Fin (initialRadarParams Fin)
                         (initialCars Fin (\<lambda>_. 0) [Fin 80]))
                  (freqResolutionHz Fin (initialRadarParams Fin))) \<noteq> Fin 41
   \<and> ngt (nabs (nsub Fin (realDopplerShift double (initialRadarParams double)
                            (initialCars double (\<lambda>_. 0) [Fin 80]))
                      (Fin 3573.6))) (Fin 1)
   \<and> nround (ndiv double (realDopplerShift double (initialRadarParams double)
                            (initialCars double (\<lambda>_. 0) [Fin 80]))
                  (freqResolutionHz double (initialRadarParams double))) \<noteq> Fin 41"
proof -
  have exact:
    "ngt (nabs (nsub Fin (realDopplerShift Fin (initialRadarParams Fin)
                          (initialCars Fin (\<lambda>_. 0) [Fin 80]))
                    (Fin 3573.6))) (Fin 1)
   \<and> nround (ndiv Fin (realDopplerShift Fin (initialRadarParams Fin)
                         (initialCars Fin (\<lambda>_. 0) [Fin 80]))
                  (freqResolutionHz Fin (initialRadarParams Fin))) \<noteq> Fin 41"
    by (simp only: realDopplerShift_80 freqResolutionHz_initial) (simp add: nsub_def)
  have doubles:
    "ngt (nabs (nsub Fin (realDopplerShift double (initialRadarParams double)
                            (initialCars double (\<lambda>_. 0) [Fin 80]))
                      (Fin 3573.6))) (Fin 1)
   \<and> nround (ndiv double (realDopplerShift double (initialRadarParams double)
                            (initialCars double (\<lambda>_. 0) [Fin 80]))
                  (freqResolutionHz double (initialRadarParams double))) \<noteq> Fin 41"
    by (simp only: scenario_doubles) (simp add: nsub_def)
  from exact doubles show ?thesis by blast
qed

end
